(* ===== verification/Prelude.thy ===== *)
theory Prelude
  imports Main "HOL-Library.Char_ord" "HOL-Library.List_Lexorder" "HOL-Library.Sublist"
begin

text \<open>
  Shared vocabulary of the development. A Go string or byte slice is a HOL \<open>string\<close>:
  a HOL character is one byte. A fallible Go call that also changes the state of a component
  is a function that returns a pair of a result and the new state, and \<open>on_ok\<close> is the idiom
  \<open>if err != nil { return err }\<close> between two such calls. The outcome of every call into the
  operating system or the database driver is drawn from a list of faults kept in the state
  of the component, so each error branch of the source is reachable in the model and the
  theorems hold for every pattern of failures.
\<close>

named_theorems op_defs "definitions of the operations a component composes"
named_theorems inv_rules "preservation rules of the state invariants"

section \<open>Results and sequencing\<close>

definition on_ok :: "('e + 'a) \<times> 's \<Rightarrow> ('a \<Rightarrow> 's \<Rightarrow> ('e + 'b) \<times> 's) \<Rightarrow> ('e + 'b) \<times> 's" where
  "on_ok m k = (case fst m of Inl e \<Rightarrow> (Inl e, snd m) | Inr x \<Rightarrow> k x (snd m))"

lemma on_ok_Inl [simp]: "on_ok (Inl e, s) k = (Inl e, s)"
  by (simp add: on_ok_def)

lemma on_ok_Inr [simp]: "on_ok (Inr x, s) k = k x s"
  by (simp add: on_ok_def)

lemma on_ok_InrE:
  assumes "on_ok m k = (Inr y, s')"
  obtains x s where "m = (Inr x, s)" "k x s = (Inr y, s')"
  using assms by (cases m; cases "fst m") auto

lemma on_ok_InlE:
  assumes "on_ok m k = (Inl e, s')"
  obtains "m = (Inl e, s')" | x s where "m = (Inr x, s)" "k x s = (Inl e, s')"
  using assms by (cases m; cases "fst m") auto

lemma on_ok_split:
  "P (on_ok m k) \<longleftrightarrow>
     (\<forall>e s. m = (Inl e, s) \<longrightarrow> P (Inl e, s)) \<and> (\<forall>x s. m = (Inr x, s) \<longrightarrow> P (k x s))"
  by (cases m; cases "fst m") auto

lemma on_ok_inv [inv_rules]:
  assumes "I (snd m)" and "\<And>x s. m = (Inr x, s) \<Longrightarrow> I s \<Longrightarrow> I (snd (k x s))"
  shows "I (snd (on_ok m k))"
  using assms by (cases m; cases "fst m") auto

lemma on_ok_cong:
  assumes "m = m'" and "\<And>x s. m' = (Inr x, s) \<Longrightarrow> k x s = k' x s"
  shows "on_ok m k = on_ok m' k'"
  using assms by (cases m'; cases "fst m'") auto

section \<open>Faults of the environment\<close>

fun next_fault :: "bool list \<Rightarrow> bool \<times> bool list" where
  "next_fault [] = (False, [])"
| "next_fault (b # bs) = (b, bs)"

section \<open>Lists\<close>

lemma map_filter_unique:
  assumes "distinct (map f xs)" "x \<in> set xs"
  shows "filter (\<lambda>y. f y = f x) xs = [x]"
  using assms
proof (induction xs)
  case Nil
  then show ?case by simp
next
  case (Cons a xs)
  have "f a \<noteq> f x \<Longrightarrow> x \<noteq> a" by auto
  moreover have "filter (\<lambda>y. f y = f a) xs = []" if "f a \<notin> f ` set xs"
    using that by (simp add: filter_empty_conv) (metis imageI)
  ultimately show ?case using Cons by auto
qed

lemma distinct_map_filterI: "distinct (map f xs) \<Longrightarrow> distinct (map f (filter P xs))"
  by (induction xs) auto

lemma find_distinct_Some:
  assumes "distinct (map f xs)"
  shows "List.find (\<lambda>y. f y = k) xs = Some x \<longleftrightarrow> x \<in> set xs \<and> f x = k"
  using assms by (induction xs) auto

lemma find_SomeD: "List.find P xs = Some x \<Longrightarrow> x \<in> set xs \<and> P x"
  by (induction xs) (auto split: if_splits)

lemma find_key_None:
  "List.find (\<lambda>y. f y = k) xs = None \<longleftrightarrow> k \<notin> f ` set xs"
  by (induction xs) auto

lemma map_of_map_key:
  "map_of (map (\<lambda>x. (f x, g x)) xs) k = map_option g (List.find (\<lambda>x. f x = k) xs)"
  by (induction xs) auto

end
