(* ===== verification/GoStd.thy ===== *)
theory GoStd
  imports Prelude
begin

text \<open>
  The parts of the Go language and of its standard library that the server uses: 64-bit
  integers with wrap-around, the functions of package \<open>strings\<close> on byte strings,
  \<open>encoding/hex\<close>. Integers are HOL \<open>int\<close>s; every operation of the source that can
  leave the 64-bit range is wrapped by \<open>wrap64\<close>.
\<close>

section \<open>64-bit integers\<close>

definition wrap64 :: "int \<Rightarrow> int" where
  "wrap64 x = (x + 2 ^ 63) mod 2 ^ 64 - 2 ^ 63"

definition int64 :: "int \<Rightarrow> bool" where
  "int64 x \<longleftrightarrow> - (2 ^ 63) \<le> x \<and> x < 2 ^ 63"

definition add64 :: "int \<Rightarrow> int \<Rightarrow> int" where
  "add64 a b = wrap64 (a + b)"

definition mul64 :: "int \<Rightarrow> int \<Rightarrow> int" where
  "mul64 a b = wrap64 (a * b)"

lemma wrap64_range: "int64 (wrap64 x)"
proof -
  have "0 \<le> (x + 2 ^ 63) mod 2 ^ 64" "(x + 2 ^ 63) mod 2 ^ 64 < 2 ^ 64"
    by simp_all
  then show ?thesis by (simp add: int64_def wrap64_def)
qed

lemma wrap64_id [simp]: "int64 x \<Longrightarrow> wrap64 x = x"
  by (simp add: int64_def wrap64_def)

lemma wrap64_cong: "wrap64 x mod 2 ^ 64 = x mod 2 ^ 64"
  by (simp add: wrap64_def mod_diff_left_eq)

lemma add64_id [simp]: "int64 (a + b) \<Longrightarrow> add64 a b = a + b"
  by (simp add: add64_def)

lemma mul64_id [simp]: "int64 (a * b) \<Longrightarrow> mul64 a b = a * b"
  by (simp add: mul64_def)

section \<open>Package strings\<close>

definition HasPrefix :: "string \<Rightarrow> string \<Rightarrow> bool" where
  "HasPrefix s p \<longleftrightarrow> take (length p) s = p"

lemma HasPrefix_iff: "HasPrefix s p \<longleftrightarrow> (\<exists>t. s = p @ t)"
proof
  assume "HasPrefix s p"
  then have "s = p @ drop (length p) s"
    unfolding HasPrefix_def by (metis append_take_drop_id)
  then show "\<exists>t. s = p @ t" ..
qed (auto simp: HasPrefix_def)

lemma HasPrefix_append [simp]: "HasPrefix (p @ t) p"
  by (auto simp: HasPrefix_iff)

definition TrimPrefix :: "string \<Rightarrow> string \<Rightarrow> string" where
  "TrimPrefix s p = (if HasPrefix s p then drop (length p) s else s)"

lemma TrimPrefix_append [simp]: "TrimPrefix (p @ t) p = t"
  by (simp add: TrimPrefix_def)

fun Contains :: "string \<Rightarrow> string \<Rightarrow> bool" where
  "Contains [] p = (p = [])"
| "Contains (c # s) p = (HasPrefix (c # s) p \<or> Contains s p)"

lemma Contains_iff: "Contains s p \<longleftrightarrow> (\<exists>a b. s = a @ p @ b)"
proof (induction s)
  case (Cons c s)
  show ?case
  proof
    assume "Contains (c # s) p"
    then consider "HasPrefix (c # s) p" | "Contains s p" by auto
    then show "\<exists>a b. c # s = a @ p @ b"
    proof cases
      case 1
      then show ?thesis by (metis HasPrefix_iff append_Nil)
    next
      case 2
      with Cons.IH obtain a b where "s = a @ p @ b" by blast
      then have "c # s = (c # a) @ p @ b" by simp
      then show ?thesis by blast
    qed
  next
    assume "\<exists>a b. c # s = a @ p @ b"
    then obtain a b where ab: "c # s = a @ p @ b" by blast
    show "Contains (c # s) p"
    proof (cases a)
      case Nil
      with ab have "HasPrefix (c # s) p" by (metis HasPrefix_append append_Nil)
      then show ?thesis by simp
    next
      case (Cons d a')
      with ab have "s = a' @ p @ b" by simp
      with Cons.IH show ?thesis by auto
    qed
  qed
qed auto

fun Join :: "string list \<Rightarrow> string \<Rightarrow> string" where
  "Join [] sep = []"
| "Join [x] sep = x"
| "Join (x # y # xs) sep = x @ sep @ Join (y # xs) sep"

text \<open>\<open>splitc c s\<close> cuts \<open>s\<close> at every byte \<open>c\<close>, as a path is cut at its slashes.\<close>

fun splitc :: "char \<Rightarrow> string \<Rightarrow> string list" where
  "splitc c [] = [[]]"
| "splitc c (x # s) =
     (if x = c then [] # splitc c s
      else (case splitc c s of [] \<Rightarrow> [[x]] | w # ws \<Rightarrow> (x # w) # ws))"

lemma splitc_nonempty [simp]: "splitc c s \<noteq> []"
  by (induction s) (auto split: list.splits)

lemma splitc_no_sep: "w \<in> set (splitc c s) \<Longrightarrow> c \<notin> set w"
  by (induction s arbitrary: w) (auto split: list.splits if_splits)

lemma splitc_word: "c \<notin> set w \<Longrightarrow> splitc c w = [w]"
  by (induction w) auto

lemma splitc_append: "c \<notin> set w \<Longrightarrow> splitc c (w @ c # s) = w # splitc c s"
  by (induction w) auto

lemma splitc_glue: "splitc c (s @ c # t) = splitc c s @ splitc c t"
  by (induction s) (auto split: list.splits)

lemma Join_splitc: "Join (splitc c s) [c] = s"
proof (induction s)
  case (Cons x s)
  show ?case
  proof (cases "splitc c s")
    case (Cons w ws)
    with \<open>Join (splitc c s) [c] = s\<close> show ?thesis by (cases ws) auto
  qed simp
qed simp

lemma splitc_Join:
  assumes "ws \<noteq> []" "\<forall>w \<in> set ws. c \<notin> set w"
  shows "splitc c (Join ws [c]) = ws"
  using assms by (induction ws "[c]" rule: Join.induct) (auto simp: splitc_word splitc_append)

lemma splitc_words_in: "w \<in> set (splitc c s) \<Longrightarrow> \<exists>a b. s = a @ w @ b"
proof (induction s arbitrary: w)
  case (Cons x s)
  show ?case
  proof (cases "x = c")
    case True
    with Cons show ?thesis by (metis append.left_neutral append_Cons set_ConsD splitc.simps(2))
  next
    case False
    obtain v vs where v: "splitc c s = v # vs" by (cases "splitc c s") auto
    show ?thesis
    proof (cases "w = x # v")
      case True
      have "\<exists>t. v @ t = s"
        using Join_splitc [of c s] v by (cases vs) auto
      then obtain t where "x # s = [] @ w @ t" using True by auto
      then show ?thesis by blast
    next
      case F: False
      with Cons.prems v False have "w \<in> set (splitc c s)" by auto
      with Cons.IH obtain a b where "s = a @ w @ b" by blast
      then have "x # s = (x # a) @ w @ b" by simp
      then show ?thesis by blast
    qed
  qed
qed auto

section \<open>Package encoding/hex\<close>

definition hex_digits :: string where
  "hex_digits = ''0123456789abcdef''"

definition hex_byte :: "char \<Rightarrow> string" where
  "hex_byte c = (let n = of_char c :: nat in [hex_digits ! (n div 16), hex_digits ! (n mod 16)])"

definition EncodeToString :: "string \<Rightarrow> string" where
  "EncodeToString bs = concat (map hex_byte bs)"

lemma of_char_nat_less: "(of_char c :: nat) < 256"
  by (rule nat_of_char_less_256)

lemma of_char_div_less: "(of_char c :: nat) div 16 < 16"
  using of_char_nat_less [of c] by (simp add: div_less_iff_less_mult)

lemma nth_distinct_eq:
  "distinct xs \<Longrightarrow> i < length xs \<Longrightarrow> j < length xs \<Longrightarrow> xs ! i = xs ! j \<longleftrightarrow> i = j"
  by (rule nth_eq_iff_index_eq)

lemma hex_digits_facts: "distinct hex_digits" "length hex_digits = 16"
  by (simp_all add: hex_digits_def)

lemma length_hex_byte [simp]: "length (hex_byte c) = 2"
  by (simp add: hex_byte_def Let_def)

lemma hex_byte_inj: "hex_byte c = hex_byte d \<longleftrightarrow> c = d"
proof
  assume eq: "hex_byte c = hex_byte d"
  let ?m = "of_char c :: nat" and ?n = "of_char d :: nat"
  have "?m div 16 < 16" "?n div 16 < 16"
    by (rule of_char_div_less)+
  then have "?m div 16 = ?n div 16" "?m mod 16 = ?n mod 16"
    using eq hex_digits_facts nth_distinct_eq [of hex_digits] by (auto simp: hex_byte_def Let_def)
  then have "?m = ?n" by (metis div_mult_mod_eq)
  then show "c = d" by simp
qed simp

lemma hex_byte_digits: "set (hex_byte c) \<subseteq> set hex_digits"
proof -
  have "(of_char c :: nat) div 16 < length hex_digits"
    using of_char_div_less by (simp add: hex_digits_facts)
  moreover have "(of_char c :: nat) mod 16 < length hex_digits"
    by (simp add: hex_digits_facts)
  ultimately show ?thesis by (auto simp: hex_byte_def Let_def)
qed

lemma length_EncodeToString [simp]: "length (EncodeToString bs) = 2 * length bs"
  by (induction bs) (simp_all add: EncodeToString_def)

lemma EncodeToString_digits: "set (EncodeToString bs) \<subseteq> set hex_digits"
  using hex_byte_digits by (fastforce simp: EncodeToString_def)

lemma EncodeToString_inj: "EncodeToString as = EncodeToString bs \<longleftrightarrow> as = bs"
proof (induction as arbitrary: bs)
  case Nil
  show ?case by (cases bs) (simp_all add: EncodeToString_def hex_byte_def Let_def)
next
  case (Cons a as)
  show ?case
  proof (cases bs)
    case Nil
    then show ?thesis by (simp add: EncodeToString_def hex_byte_def Let_def)
  next
    case (Cons b bs')
    with Cons.IH show ?thesis
      by (simp add: EncodeToString_def append_eq_append_conv hex_byte_inj)
  qed
qed

end
