(* ===== verification/Ids.thy ===== *)
theory Ids
  imports GoStd
begin

text \<open>
  \<open>server/internal/store/ids.go\<close>: send identifiers and redeem tokens. The base32 and hex
  texts of the standard library are numerals: an encoding is the list of big-endian digits of
  the number that the bytes spell, so order and injectivity of the texts come from one lemma
  on positional numerals. The random bytes are an argument, \<open>None\<close> where
  \<open>crypto/rand\<close> fails and the code panics.
\<close>

section \<open>Big-endian numerals\<close>

fun be_digits :: "int \<Rightarrow> nat \<Rightarrow> int \<Rightarrow> int list" where
  "be_digits B 0 n = []"
| "be_digits B (Suc k) n = be_digits B k (n div B) @ [n mod B]"

definition be_val :: "int \<Rightarrow> int list \<Rightarrow> int" where
  "be_val B ds = foldl (\<lambda>a d. a * B + d) 0 ds"

lemma length_be_digits [simp]: "length (be_digits B k n) = k"
  by (induction k arbitrary: n) simp_all

lemma be_digits_range:
  "0 < B \<Longrightarrow> d \<in> set (be_digits B k n) \<Longrightarrow> 0 \<le> d \<and> d < B"
  by (induction k arbitrary: n) auto

lemma be_val_snoc [simp]: "be_val B (ds @ [d]) = be_val B ds * B + d"
  by (simp add: be_val_def)

lemma be_val_Nil [simp]: "be_val B [] = 0"
  by (simp add: be_val_def)

lemma be_val_append: "be_val B (ds @ es) = be_val B ds * B ^ length es + be_val B es"
proof (induction es rule: rev_induct)
  case (snoc e es)
  have "be_val B (ds @ es @ [e]) = be_val B (ds @ es) * B + e"
    using be_val_snoc [of B "ds @ es" e] by (simp del: be_val_snoc)
  with snoc show ?case by (simp add: algebra_simps)
qed simp

lemma be_val_Cons: "be_val B (d # ds) = d * B ^ length ds + be_val B ds"
  using be_val_append [of B "[d]" ds] by (simp add: be_val_def)

lemma be_val_bounds:
  assumes "0 < B" "\<forall>d \<in> set ds. 0 \<le> d \<and> d < B"
  shows "0 \<le> be_val B ds \<and> be_val B ds < B ^ length ds"
  using assms(2)
proof (induction ds rule: rev_induct)
  case (snoc d ds)
  then have IH: "0 \<le> be_val B ds" "be_val B ds + 1 \<le> B ^ length ds" and d: "0 \<le> d" "d < B"
    by auto
  have "(be_val B ds + 1) * B \<le> B ^ length ds * B"
    using IH(2) assms(1) by (intro mult_right_mono) auto
  then have "be_val B ds * B + d < B ^ length ds * B"
    using d by (simp add: algebra_simps)
  with IH d assms(1) show ?case by (simp add: mult.commute)
qed simp

lemma be_val_digits: "0 < B \<Longrightarrow> be_val B (be_digits B k n) = n mod B ^ k"
proof (induction k arbitrary: n)
  case (Suc k)
  have "be_val B (be_digits B (Suc k) n) = (n div B mod B ^ k) * B + n mod B"
    using Suc by simp
  also have "\<dots> = n mod (B * B ^ k)"
    using Suc.prems by (simp add: zmod_zmult2_eq mult.commute)
  finally show ?case by (simp add: mult.commute)
qed simp

lemma be_val_less_iff:
  assumes "0 < B" "length ds = length es"
    "\<forall>d \<in> set ds. 0 \<le> d \<and> d < B" "\<forall>e \<in> set es. 0 \<le> e \<and> e < B"
  shows "be_val B ds < be_val B es \<longleftrightarrow> ds < es"
  using assms(2-4)
proof (induction ds es rule: list_induct2)
  case (Cons d ds e es)
  let ?P = "B ^ length es"
  have b: "0 \<le> be_val B ds" "be_val B ds < ?P" "0 \<le> be_val B es" "be_val B es < ?P"
    using be_val_bounds [OF assms(1), of ds] be_val_bounds [OF assms(1), of es] Cons by auto
  have lt: "x * ?P + a < y * ?P + c" if "x < y" "a < ?P" "0 \<le> c" for x y a c :: int
  proof -
    have "(x + 1) * ?P \<le> y * ?P"
      using that(1) assms(1) by (intro mult_right_mono) auto
    with that show ?thesis by (simp add: algebra_simps)
  qed
  consider "d < e" | "d = e" | "e < d" by linarith
  then show ?case
  proof cases
    case 1
    then show ?thesis using lt [of d e] b Cons.hyps by (simp add: be_val_Cons)
  next
    case 2
    then show ?thesis using Cons by (simp add: be_val_Cons)
  next
    case 3
    then have "be_val B (e # es) < be_val B (d # ds)"
      using lt [of e d] b Cons.hyps by (simp add: be_val_Cons)
    with 3 show ?thesis by simp
  qed
qed simp

lemma be_digits_less_iff:
  assumes "0 < B" "0 \<le> m" "m < B ^ k" "0 \<le> n" "n < B ^ k"
  shows "be_digits B k m < be_digits B k n \<longleftrightarrow> m < n"
  using be_val_less_iff [of B "be_digits B k m" "be_digits B k n"] assms
  by (simp add: be_val_digits be_digits_range)

lemma map_list_less_iff:
  fixes f :: "'a::linorder \<Rightarrow> 'b::linorder"
  assumes "\<forall>a \<in> A. \<forall>b \<in> A. f a < f b \<longleftrightarrow> a < b"
    "length xs = length ys" "set xs \<subseteq> A" "set ys \<subseteq> A"
  shows "map f xs < map f ys \<longleftrightarrow> xs < ys"
  using assms(2-4)
proof (induction xs ys rule: list_induct2)
  case (Cons x xs y ys)
  then have "f x < f y \<longleftrightarrow> x < y" "f y < f x \<longleftrightarrow> y < x" using assms(1) by auto
  then have "f x = f y \<longleftrightarrow> x = y" by (metis less_irrefl linorder_less_linear)
  with Cons \<open>f x < f y \<longleftrightarrow> x < y\<close> show ?case by simp
qed simp

section \<open>Base32 and the identifiers\<close>

definition bytes_val :: "string \<Rightarrow> int" where
  "bytes_val bs = be_val 256 (map of_char bs)"

text \<open>
  The 16 bytes of an id are 128 bits, padded by two zero bits to the 130 bits that 26
  base32 digits hold.
\<close>

definition b32_len :: "nat \<Rightarrow> nat" where
  "b32_len k = (8 * k + 4) div 5"

definition b32_alphabet :: string where
  "b32_alphabet = ''0123456789ABCDEFGHIJKLMNOPQRSTUV''"

definition b32 :: "string \<Rightarrow> string" where
  "b32 bs = (let k = b32_len (length bs)
     in map (\<lambda>d. b32_alphabet ! nat d)
          (be_digits 32 k (bytes_val bs * 2 ^ (5 * k - 8 * length bs))))"

definition ToLowerByte :: "char \<Rightarrow> char" where
  "ToLowerByte c =
     (let n = of_char c :: nat in if 65 \<le> n \<and> n \<le> 90 then char_of (n + 32) else c)"

definition ToLower :: "string \<Rightarrow> string" where
  "ToLower s = map ToLowerByte s"

definition mustRand :: "nat \<Rightarrow> string option \<Rightarrow> string option" where
  "mustRand n src = map_option (\<lambda>bs. take n (bs @ replicate n CHR 0x00)) src"

definition ms_bytes :: "int \<Rightarrow> string" where
  "ms_bytes ms =
     [char_of (ms div 2 ^ 40), char_of (ms div 2 ^ 32), char_of (ms div 2 ^ 24),
      char_of (ms div 2 ^ 16), char_of (ms div 2 ^ 8), char_of ms]"

definition NewSendID :: "int \<Rightarrow> string option \<Rightarrow> string option" where
  "NewSendID ms src =
     (case mustRand 10 src of
        None \<Rightarrow> None
      | Some r \<Rightarrow> Some (''snd_'' @ ToLower (b32 (ms_bytes ms @ r))))"

definition NewRedeemToken :: "string option \<Rightarrow> string option" where
  "NewRedeemToken src =
     (case mustRand 24 src of
        None \<Rightarrow> None
      | Some r \<Rightarrow> Some (''red_'' @ EncodeToString r))"

subsection \<open>Order, shape and injectivity\<close>

lemma of_char_int_range: "0 \<le> (of_char c :: int) \<and> (of_char c :: int) < 256"
proof -
  have "(of_char c :: int) = of_nat (of_char c)" by (simp only: of_nat_of_char)
  then show ?thesis using of_char_nat_less [of c] by linarith
qed

lemma bytes_val_bounds: "0 \<le> bytes_val bs \<and> bytes_val bs < 256 ^ length bs"
  unfolding bytes_val_def
  using be_val_bounds [of 256 "map of_char bs"] of_char_int_range by auto

lemma bytes_val_append: "bytes_val (as @ bs) = bytes_val as * 256 ^ length bs + bytes_val bs"
  by (simp add: bytes_val_def be_val_append)

lemma ms_bytes_digits: "map of_char (ms_bytes ms) = be_digits 256 6 ms"
  by (simp add: ms_bytes_def eval_nat_numeral zdiv_zmult2_eq [symmetric])

lemma bytes_val_ms: "bytes_val (ms_bytes ms) = ms mod 2 ^ 48"
  by (simp add: bytes_val_def ms_bytes_digits be_val_digits)

lemma bytes_val_inj: "length as = length bs \<Longrightarrow> bytes_val as = bytes_val bs \<longleftrightarrow> as = bs"
proof -
  assume len: "length as = length bs"
  have "(map of_char as :: int list) < map of_char bs \<longleftrightarrow> bytes_val as < bytes_val bs"
    "(map of_char bs :: int list) < map of_char as \<longleftrightarrow> bytes_val bs < bytes_val as"
    using len of_char_int_range by (simp_all add: bytes_val_def be_val_less_iff)
  then have "bytes_val as = bytes_val bs \<longleftrightarrow> (map of_char as :: int list) = map of_char bs"
    by (metis less_irrefl linorder_less_linear)
  also have "\<dots> \<longleftrightarrow> as = bs"
    by (intro inj_map_eq_map) (auto intro: injI)
  finally show ?thesis .
qed

definition b32_lower :: string where
  "b32_lower = ''0123456789abcdefghijklmnopqrstuv''"

lemma ToLower_alphabet: "map ToLowerByte b32_alphabet = b32_lower"
  by code_simp

lemma b32_lower_sorted: "sorted_wrt (<) b32_lower"
  by code_simp

lemma b32_lower_less:
  assumes "0 \<le> a" "a < 32" "0 \<le> b" "b < 32"
  shows "b32_lower ! nat a < b32_lower ! nat b \<longleftrightarrow> a < b"
proof -
  have l: "length b32_lower = 32" by (simp add: b32_lower_def)
  have mono: "b32_lower ! nat x < b32_lower ! nat y" if "x < y" "0 \<le> x" "y < 32" for x y
    using sorted_wrt_nth_less [OF b32_lower_sorted, of "nat x" "nat y"] that l by simp
  consider "a < b" | "a = b" | "b < a" by linarith
  then show ?thesis using mono assms by cases (auto dest: mono)
qed

lemma ToLower_b32:
  "ToLower (b32 bs) =
     (let k = b32_len (length bs)
      in map (\<lambda>d. b32_lower ! nat d)
           (be_digits 32 k (bytes_val bs * 2 ^ (5 * k - 8 * length bs))))"
proof -
  have "ToLowerByte (b32_alphabet ! nat d) = b32_lower ! nat d" if "0 \<le> d" "d < 32" for d :: int
  proof -
    have "nat d < length b32_alphabet" using that by (simp add: b32_alphabet_def)
    then show ?thesis by (subst ToLower_alphabet [symmetric]) simp
  qed
  then show ?thesis
    using be_digits_range [of 32] by (fastforce simp: ToLower_def b32_def Let_def)
qed

lemma b32_val_bound:
  "bytes_val bs * 2 ^ (5 * b32_len (length bs) - 8 * length bs) < 32 ^ b32_len (length bs)"
proof -
  let ?n = "length bs" and ?k = "b32_len (length bs)"
  have le: "8 * ?n \<le> 5 * ?k" unfolding b32_len_def by simp
  have "bytes_val bs < 2 ^ (8 * ?n)"
    using bytes_val_bounds [of bs] by (simp add: power_mult)
  then have "bytes_val bs * 2 ^ (5 * ?k - 8 * ?n) < 2 ^ (8 * ?n) * 2 ^ (5 * ?k - 8 * ?n)"
    by (intro mult_strict_right_mono) auto
  also have "\<dots> = 2 ^ (5 * ?k)" using le by (simp flip: power_add)
  finally show ?thesis by (simp add: power_mult)
qed

lemma ToLower_b32_less:
  assumes len: "length as = length bs"
  shows "ToLower (b32 as) < ToLower (b32 bs) \<longleftrightarrow> bytes_val as < bytes_val bs"
proof -
  let ?k = "b32_len (length bs)" and ?p = "2 ^ (5 * b32_len (length bs) - 8 * length bs) :: int"
  have "ToLower (b32 as) < ToLower (b32 bs) \<longleftrightarrow>
      be_digits 32 ?k (bytes_val as * ?p) < be_digits 32 ?k (bytes_val bs * ?p)"
    unfolding ToLower_b32 Let_def len
    by (rule map_list_less_iff [where A = "{0..<32}"])
      (auto simp: b32_lower_less dest: be_digits_range [rotated])
  also have "\<dots> \<longleftrightarrow> bytes_val as * ?p < bytes_val bs * ?p"
    using b32_val_bound [of as] b32_val_bound [of bs] bytes_val_bounds [of as]
      bytes_val_bounds [of bs] len
    by (intro be_digits_less_iff) auto
  finally show ?thesis by simp
qed

lemma ToLower_b32_inj:
  "length as = length bs \<Longrightarrow> ToLower (b32 as) = ToLower (b32 bs) \<longleftrightarrow> as = bs"
  using ToLower_b32_less [of as bs] ToLower_b32_less [of bs as] bytes_val_inj [of as bs]
  by (metis less_irrefl linorder_less_linear)

lemma mustRand_length: "mustRand n src = Some r \<Longrightarrow> length r = n"
  by (auto simp: mustRand_def)

lemma length_ms_bytes [simp]: "length (ms_bytes ms) = 6"
  by (simp add: ms_bytes_def)

lemma NewSendID_Some:
  assumes "NewSendID ms src = Some sid"
  obtains r where "mustRand 10 src = Some r" "length r = 10"
    "sid = ''snd_'' @ ToLower (b32 (ms_bytes ms @ r))"
  using assms mustRand_length by (auto simp: NewSendID_def split: option.splits)

lemma NewSendID_total: "\<exists>sid. NewSendID ms (Some bs) = Some sid"
  by (simp add: NewSendID_def mustRand_def)

text \<open>
  C37. A send id made at a later millisecond is lexicographically larger, for clocks within
  48 bits.
\<close>

theorem send_ids_sorted_by_time:
  assumes "NewSendID ms src = Some sid" and "NewSendID ms' src' = Some sid'"
    and "0 \<le> ms" and "ms < ms'" and "ms' < 2 ^ 48"
  shows "sid < sid'"
proof -
  obtain r r' where r: "length r = 10" "sid = ''snd_'' @ ToLower (b32 (ms_bytes ms @ r))"
    and r': "length r' = 10" "sid' = ''snd_'' @ ToLower (b32 (ms_bytes ms' @ r'))"
    using assms(1,2) by (metis NewSendID_Some)
  have "bytes_val (ms_bytes ms @ r) < (ms + 1) * 256 ^ 10"
    using bytes_val_bounds [of r] r(1) assms
    by (simp add: bytes_val_append bytes_val_ms algebra_simps)
  also have "\<dots> \<le> ms' * 256 ^ 10" using assms(4) by simp
  also have "\<dots> \<le> bytes_val (ms_bytes ms' @ r')"
    using bytes_val_bounds [of r'] r'(1) assms by (simp add: bytes_val_append bytes_val_ms)
  finally show ?thesis
    using r r' ToLower_b32_less [of "ms_bytes ms @ r" "ms_bytes ms' @ r'"] by simp
qed

theorem send_ids_sorted_by_time_witness:
  "the (NewSendID 1718100000123 (Some ''zzzzzzzzzz'')) < the (NewSendID 1718100000124 (Some []))"
proof -
  obtain i where i: "NewSendID 1718100000123 (Some ''zzzzzzzzzz'') = Some i"
    by (simp add: NewSendID_def mustRand_def)
  obtain j where j: "NewSendID 1718100000124 (Some []) = Some j"
    by (simp add: NewSendID_def mustRand_def)
  show ?thesis using send_ids_sorted_by_time [OF i j] i j by simp
qed

lemma ms_bytes_inj: "ms_bytes a = ms_bytes b \<Longrightarrow> a mod 2 ^ 48 = b mod 2 ^ 48"
  by (metis bytes_val_ms)

theorem send_ids_injective:
  assumes "NewSendID ms src = Some sid" and "NewSendID ms' src' = Some sid"
  shows "ms mod 2 ^ 48 = ms' mod 2 ^ 48 \<and> mustRand 10 src = mustRand 10 src'"
proof -
  obtain r r' where r: "mustRand 10 src = Some r" "length r = 10"
      "sid = ''snd_'' @ ToLower (b32 (ms_bytes ms @ r))"
    and r': "mustRand 10 src' = Some r'" "length r' = 10"
      "sid = ''snd_'' @ ToLower (b32 (ms_bytes ms' @ r'))"
    using assms by (metis NewSendID_Some)
  from r(3) r'(3) have "ToLower (b32 (ms_bytes ms @ r)) = ToLower (b32 (ms_bytes ms' @ r'))"
    by (metis same_append_eq)
  then have "ms_bytes ms @ r = ms_bytes ms' @ r'"
    using ToLower_b32_inj [of "ms_bytes ms @ r" "ms_bytes ms' @ r'"] r(2) r'(2) by simp
  then have "ms_bytes ms = ms_bytes ms'" "r = r'" by simp_all
  then show ?thesis using ms_bytes_inj [of ms ms'] r(1) r'(1) by (intro conjI) simp_all
qed

theorem send_ids_injective_witness:
  "NewSendID 5 (Some ''0123456789'') \<noteq> None \<and> (5::int) mod 2 ^ 48 = (5 + 2 ^ 48) mod 2 ^ 48"
proof -
  obtain i where i: "NewSendID 5 (Some ''0123456789'') = Some i"
    using NewSendID_total by blast
  have "ms_bytes (5 + 2 ^ 48) = ms_bytes 5" by code_simp
  then have "NewSendID (5 + 2 ^ 48) (Some ''0123456789'') = NewSendID 5 (Some ''0123456789'')"
    by (simp only: NewSendID_def)
  from trans [OF this i] have "NewSendID (5 + 2 ^ 48) (Some ''0123456789'') = Some i" .
  from send_ids_injective [OF i this] i show ?thesis by (simp only: option.distinct) blast
qed

lemma b32_chars: "set (ToLower (b32 bs)) \<subseteq> set b32_lower"
proof -
  have "b32_lower ! nat d \<in> set b32_lower" if "0 \<le> d" "d < 32" for d :: int
    using that by (intro nth_mem) (simp add: b32_lower_def)
  then show ?thesis
    using be_digits_range [of 32] by (auto simp: ToLower_b32 Let_def)
qed

lemma send_id_shape:
  assumes "NewSendID ms src = Some sid"
  shows "length sid = 30 \<and> HasPrefix sid ''snd_'' \<and> set sid \<subseteq> set (''snd_'' @ b32_lower)"
proof -
  obtain r where r: "length r = 10" "sid = ''snd_'' @ ToLower (b32 (ms_bytes ms @ r))"
    using assms by (metis NewSendID_Some)
  moreover have "HasPrefix sid ''snd_''" unfolding r(2) by (rule HasPrefix_append)
  moreover have "length (ToLower (b32 (ms_bytes ms @ r))) = 26"
    using r(1) by (simp add: ToLower_b32 Let_def b32_len_def)
  ultimately show ?thesis using b32_chars [of "ms_bytes ms @ r"] by auto
qed

lemma redeem_token_inj:
  "NewRedeemToken src = Some t \<Longrightarrow> NewRedeemToken src' = Some t \<Longrightarrow>
     mustRand 24 src = mustRand 24 src' \<and> length t = 52"
  by (auto simp: NewRedeemToken_def EncodeToString_inj dest: mustRand_length split: option.splits)

end
