(* ===== verification/StoreTypes.thy ===== *)
theory StoreTypes
  imports Sha256 Ids
begin

text \<open>
  \<open>server/internal/store/store.go\<close>: the vocabulary of the storage contract. The sentinel
  errors are constructors of one datatype; \<open>ErrInternal\<close> is an error made by
  \<open>fmt.Errorf\<close> around a failure of the operating system or of the database, with its
  context text, and \<open>Panicked\<close> is a panic that unwinds to the recovery middleware. A time is
  the number of nanoseconds since the Unix epoch and a duration is a number of nanoseconds.
\<close>

datatype SendStatus = SendStatusCreating | SendStatusFinalized | SendStatusExpired | SendStatusDeleted

fun status_text :: "SendStatus \<Rightarrow> string" where
  "status_text SendStatusCreating = ''creating''"
| "status_text SendStatusFinalized = ''finalized''"
| "status_text SendStatusExpired = ''expired''"
| "status_text SendStatusDeleted = ''deleted''"

text \<open>The statuses in the order of a life.\<close>

fun stage :: "SendStatus \<Rightarrow> nat" where
  "stage SendStatusCreating = 0"
| "stage SendStatusFinalized = 1"
| "stage SendStatusExpired = 2"
| "stage SendStatusDeleted = 3"

lemma stage_inject [simp]: "stage a = stage b \<longleftrightarrow> a = b"
  by (cases a; cases b) simp_all

instantiation SendStatus :: linorder
begin

definition less_eq_SendStatus :: "SendStatus \<Rightarrow> SendStatus \<Rightarrow> bool" where
  "a \<le> b \<longleftrightarrow> stage a \<le> stage b"

definition less_SendStatus :: "SendStatus \<Rightarrow> SendStatus \<Rightarrow> bool" where
  "a < b \<longleftrightarrow> stage a < stage b"

instance
  by standard (auto simp: less_eq_SendStatus_def less_SendStatus_def)

end

lemma creating_first [simp]: "SendStatusCreating \<le> a"
  by (simp add: less_eq_SendStatus_def)

datatype store_error =
    ErrNotFound
  | ErrNotFinalized
  | ErrAlreadyRedeemed
  | ErrExpired
  | ErrIncomplete
  | ErrConflict
  | ErrUnknownPart
  | ErrIntegrity
  | ErrPartTooLarge
  | ErrInvalidGrant
  | ErrInternal string
  | Panicked string

type_synonym 'a result = "store_error + 'a"

record PartMeta =
  PartID :: string
  EncryptedSize :: int
  SHA256 :: string

record CreateSendInput =
  in_Version :: string
  in_OneTime :: bool
  in_TTL :: int
  in_Parts :: "PartMeta list"

record SendRecord =
  rec_ID :: string
  rec_OneTime :: bool
  rec_ExpiresAt :: int
  rec_Parts :: "PartMeta list"

record RedeemGrant =
  gr_Token :: string
  gr_ExpiresAt :: int
  gr_Parts :: "PartMeta list"

record SendMeta =
  meta_ID :: string
  meta_Status :: SendStatus
  meta_OneTime :: bool
  meta_ExpiresAt :: int
  meta_PartCount :: int
  meta_TotalEncryptedSize :: int
  meta_Parts :: "PartMeta list"

definition StorageKey :: "string \<Rightarrow> string \<Rightarrow> string" where
  "StorageKey sendID partID = sendID @ ''/'' @ partID"

definition HashToken :: "string \<Rightarrow> string" where
  "HashToken token = EncodeToString (Sum256 token)"

section \<open>Time\<close>

definition Second :: int where
  "Second = 1000000000"

definition Minute :: int where
  "Minute = 60 * Second"

definition Hour :: int where
  "Hour = 60 * Minute"

definition Unix :: "int \<Rightarrow> int" where
  "Unix t = t div Second"

definition UnixMilli :: "int \<Rightarrow> int" where
  "UnixMilli t = t div 1000000"

lemma Unix_mono: "s \<le> t \<Longrightarrow> Unix s \<le> Unix t"
  by (simp add: Unix_def Second_def zdiv_mono1)

lemma Unix_add_seconds: "Unix (t + k * Second) = Unix t + k"
  by (simp add: Unix_def Second_def)

lemma StorageKey_inj:
  assumes "CHR ''/'' \<notin> set s" "CHR ''/'' \<notin> set s'"
  shows "StorageKey s p = StorageKey s' p' \<longleftrightarrow> s = s' \<and> p = p'"
proof
  assume "StorageKey s p = StorageKey s' p'"
  then have "s @ CHR ''/'' # p = s' @ CHR ''/'' # p'" by (simp add: StorageKey_def)
  then have "takeWhile (\<lambda>c. c \<noteq> CHR ''/'') (s @ CHR ''/'' # p) =
      takeWhile (\<lambda>c. c \<noteq> CHR ''/'') (s' @ CHR ''/'' # p')" by simp
  moreover have "takeWhile (\<lambda>c. c \<noteq> CHR ''/'') (x @ CHR ''/'' # y) = x"
    if "CHR ''/'' \<notin> set x" for x y :: string
    using that by (induction x) auto
  ultimately have "s = s'" using assms by metis
  with \<open>s @ CHR ''/'' # p = s' @ CHR ''/'' # p'\<close> show "s = s' \<and> p = p'" by simp
qed simp

end
