(* ===== verification/Float64.thy ===== *)
theory Float64
  imports Complex_Main "HOL-Library.Log_Nat" "HOL-Library.Signed_Division"
begin

text \<open>
  Go's \<open>float64\<close>: a value is the rational it denotes, and \<open>fl64\<close> is the rounding that ends
  every operation, to 53 significant bits and to even on a tie. Overflow and subnormal results
  are left out; the values the server computes stay far from both.
\<close>

section \<open>Rounding\<close>

definition half_even :: "rat \<Rightarrow> int" where
  "half_even y =
     (let f = \<lfloor>y\<rfloor>; d = y - of_int f
      in if d < 1 / 2 then f else if d > 1 / 2 then f + 1 else if even f then f else f + 1)"

definition binade :: "rat \<Rightarrow> int" where
  "binade x =
     (let (p, q) = quotient_of x; e = int (floorlog 2 (nat p)) - int (floorlog 2 (nat q))
      in if 2 powi e \<le> x then e else e - 1)"

definition fl64 :: "rat \<Rightarrow> rat" where
  "fl64 x =
     (if x = 0 then 0
      else let e = binade \<bar>x\<bar> - 52 in of_int (half_even (x / 2 powi e)) * 2 powi e)"

definition ulp :: rat where
  "ulp = 1 / 2 ^ 53"

lemma ulp_pos: "0 < ulp" "ulp < 1"
  by (simp_all add: ulp_def)

lemma half_even_error: "\<bar>of_int (half_even y) - y\<bar> \<le> 1 / 2"
proof -
  have "of_int \<lfloor>y\<rfloor> \<le> y" "y < of_int \<lfloor>y\<rfloor> + 1" by linarith+
  then show ?thesis by (auto simp: half_even_def Let_def)
qed

lemma half_even_int [simp]: "half_even (of_int n) = n"
  by (simp add: half_even_def)

lemma half_even_mono: "x \<le> y \<Longrightarrow> half_even x \<le> half_even y"
proof -
  assume le: "x \<le> y"
  then have fl: "\<lfloor>x\<rfloor> \<le> \<lfloor>y\<rfloor>" by (rule floor_mono)
  show ?thesis
  proof (cases "\<lfloor>x\<rfloor> = \<lfloor>y\<rfloor>")
    case True
    with le show ?thesis by (auto simp: half_even_def Let_def)
  next
    case False
    with fl show ?thesis by (auto simp: half_even_def Let_def)
  qed
qed

lemma binade_bounds:
  assumes "0 < x"
  shows "2 powi binade x \<le> x" "x < 2 powi (binade x + 1)"
proof -
  obtain p q where pq: "quotient_of x = (p, q)" by force
  have q: "0 < q" using quotient_of_denom_pos [OF pq] .
  have x: "x = of_int p / of_int q" using quotient_of_div [OF pq] .
  have p: "0 < p" using assms q by (simp add: x zero_less_divide_iff)
  let ?a = "floorlog 2 (nat p)" and ?b = "floorlog 2 (nat q)"
  have a: "2 ^ (?a - 1) \<le> nat p" "nat p < 2 ^ ?a" and b: "2 ^ (?b - 1) \<le> nat q" "nat q < 2 ^ ?b"
    using floorlog_bounds [of "nat p" 2] floorlog_bounds [of "nat q" 2] p q by simp_all
  have pos: "?a \<ge> 1" "?b \<ge> 1"
    using p q by (auto simp: floorlog_def)
  have up: "of_int p < (2::rat) powi int ?a" "of_int q < (2::rat) powi int ?b"
    using a(2) b(2) p q by (simp_all add: power_int_def nat_less_iff flip: of_int_power_less_of_int_cancel_iff)
  have lo: "(2::rat) powi (int ?a - 1) \<le> of_int p" "(2::rat) powi (int ?b - 1) \<le> of_int q"
    using a(1) b(1) p q pos by (simp_all add: power_int_def nat_diff_distrib le_nat_iff flip: of_int_power_le_of_int_cancel_iff)
  let ?e = "int ?a - int ?b"
  have e1: "x < 2 powi (?e + 1)"
  proof -
    have "x < 2 powi int ?a / of_int q" using up(1) q by (simp add: x divide_strict_right_mono)
    also have "\<dots> \<le> 2 powi int ?a / 2 powi (int ?b - 1)" using lo(2) by (intro divide_left_mono) (simp_all add: q)
    also have "\<dots> = 2 powi (int ?a - (int ?b - 1))" by (rule power_int_diff [symmetric]) simp
    also have "\<dots> = 2 powi (?e + 1)" by (simp add: algebra_simps)
    finally show ?thesis .
  qed
  have e2: "2 powi (?e - 1) \<le> x"
  proof -
    have "2 powi (?e - 1) = (2::rat) powi (int ?a - 1 - int ?b)" by (simp add: algebra_simps)
    also have "\<dots> = 2 powi (int ?a - 1) / 2 powi int ?b" by (rule power_int_diff) simp
    also have "\<dots> \<le> of_int p / 2 powi int ?b" using lo(1) by (intro divide_right_mono) simp_all
    also have "\<dots> \<le> x" using up(2) p q by (simp add: x divide_left_mono)
    finally show ?thesis .
  qed
  have "binade x = (if 2 powi ?e \<le> x then ?e else ?e - 1)" by (simp add: binade_def pq)
  with e1 e2 show "2 powi binade x \<le> x" "x < 2 powi (binade x + 1)" by (auto split: if_splits)
qed

lemma fl64_0 [simp]: "fl64 0 = 0"
  by (simp add: fl64_def)

lemma fl64_error:
  assumes "0 \<le> x"
  shows "\<bar>fl64 x - x\<bar> \<le> ulp * x"
proof (cases "x = 0")
  case False
  with assms have x: "0 < x" by simp
  let ?e = "binade x - 52"
  let ?y = "x / 2 powi ?e"
  have "fl64 x - x = (of_int (half_even ?y) - ?y) * 2 powi ?e"
    using x by (simp add: fl64_def Let_def field_simps)
  then have "\<bar>fl64 x - x\<bar> = \<bar>of_int (half_even ?y) - ?y\<bar> * 2 powi ?e"
    by (simp add: abs_mult)
  also have "\<dots> \<le> 1 / 2 * 2 powi ?e"
    by (intro mult_right_mono half_even_error) simp
  also have "\<dots> = ulp * 2 powi binade x"
    by (simp add: ulp_def power_int_diff)
  also have "\<dots> \<le> ulp * x"
    using binade_bounds(1) [OF x] ulp_pos by (intro mult_left_mono) simp_all
  finally show ?thesis .
qed simp

lemma fl64_upper: "0 \<le> x \<Longrightarrow> fl64 x \<le> x * (1 + ulp)"
  using fl64_error [of x] by (simp add: algebra_simps abs_le_iff)

lemma fl64_lower: "0 \<le> x \<Longrightarrow> x * (1 - ulp) \<le> fl64 x"
  using fl64_error [of x] by (simp add: algebra_simps abs_le_iff)

lemma fl64_nonneg: "0 \<le> x \<Longrightarrow> 0 \<le> fl64 x"
  by (rule order_trans [OF _ fl64_lower]) (simp_all add: less_imp_le [OF ulp_pos(2)])

lemma fl64_int:
  assumes "\<bar>n\<bar> < 2 ^ 53"
  shows "fl64 (of_int n) = of_int n"
proof (cases "n = 0")
  case False
  let ?x = "\<bar>of_int n\<bar> :: rat"
  have x: "0 < ?x" using False by simp
  have "?x < 2 ^ 53"
    using assms by (simp flip: of_int_abs)
  then have "(2::rat) powi binade ?x < 2 powi 53"
    using binade_bounds(1) [OF x] by simp
  then have "\<not> 53 \<le> binade ?x"
    using power_int_increasing [of 53 "binade ?x" "2::rat"] by (metis linorder_not_le one_le_numeral)
  then have "binade ?x - 52 = - int (nat (52 - binade ?x))" by simp
  then obtain k where k: "binade ?x - 52 = - int k" by blast
  have y: "of_int n / 2 powi (- int k) = (of_int (n * 2 ^ k) :: rat)"
    by (simp add: power_int_minus divide_inverse)
  have "fl64 (of_int n) = of_int (half_even (of_int n / 2 powi (- int k))) * 2 powi (- int k)"
    using False by (simp add: fl64_def Let_def k)
  also have "\<dots> = of_int n" unfolding y half_even_int by (simp add: power_int_minus)
  finally show ?thesis .
qed simp

lemma fl64_numeral: "(numeral n :: int) < 2 ^ 53 \<Longrightarrow> fl64 (numeral n) = numeral n"
  using fl64_int [of "numeral n"] by simp

lemma fl64_scaled: "0 < x \<Longrightarrow> fl64 x = of_int (half_even (x / 2 powi (binade x - 52))) * 2 powi (binade x - 52)"
  by (simp add: fl64_def Let_def)

lemma fl64_in_binade:
  assumes "0 < x"
  shows "2 powi binade x \<le> fl64 x" "fl64 x \<le> 2 powi (binade x + 1)"
proof -
  let ?e = "binade x - 52"
  have p: "(2::rat) powi binade x = 2 ^ 52 * 2 powi ?e" "(2::rat) powi (binade x + 1) = 2 ^ 53 * 2 powi ?e"
    by (simp_all add: power_int_diff power_int_add)
  have "2 ^ 52 \<le> x / 2 powi ?e" "x / 2 powi ?e \<le> 2 ^ 53"
    using binade_bounds [OF assms] unfolding p by (simp_all add: field_simps)
  then have "half_even (of_int (2 ^ 52)) \<le> half_even (x / 2 powi ?e)"
    "half_even (x / 2 powi ?e) \<le> half_even (of_int (2 ^ 53))"
    by (intro half_even_mono; simp)+
  then have "of_int (2 ^ 52) \<le> (of_int (half_even (x / 2 powi ?e)) :: rat)"
    "(of_int (half_even (x / 2 powi ?e)) :: rat) \<le> of_int (2 ^ 53)"
    unfolding half_even_int by (simp_all only: of_int_le_iff)
  then show "2 powi binade x \<le> fl64 x" "fl64 x \<le> 2 powi (binade x + 1)"
    unfolding p fl64_scaled [OF assms] by (intro mult_right_mono; simp)+
qed

lemma fl64_mono:
  assumes "0 \<le> x" "x \<le> y"
  shows "fl64 x \<le> fl64 y"
proof (cases "x = 0")
  case True
  with assms show ?thesis by (simp add: fl64_nonneg)
next
  case False
  with assms have x: "0 < x" and y: "0 < y" by auto
  consider "binade x = binade y" | "binade x + 1 \<le> binade y" | "binade y + 1 \<le> binade x" by linarith
  then show ?thesis
  proof cases
    case 1
    have "half_even (x / 2 powi (binade y - 52)) \<le> half_even (y / 2 powi (binade y - 52))"
      using assms(2) by (intro half_even_mono divide_right_mono) simp_all
    then show ?thesis unfolding fl64_scaled [OF x] fl64_scaled [OF y] 1 by (intro mult_right_mono) simp_all
  next
    case 2
    then have "(2::rat) powi (binade x + 1) \<le> 2 powi binade y" by (intro power_int_increasing) simp_all
    then show ?thesis using fl64_in_binade(2) [OF x] fl64_in_binade(1) [OF y] by linarith
  next
    case 3
    then have "(2::rat) powi (binade y + 1) \<le> 2 powi binade x" by (intro power_int_increasing) simp_all
    then show ?thesis using binade_bounds(2) [OF y] binade_bounds(1) [OF x] assms(2) by linarith
  qed
qed

end
