(* ===== verification/Strconv.thy ===== *)
theory Strconv
  imports GoStd StoreTypes Float64
begin

text \<open>
  The parsers of Go's standard library that the configuration uses, over byte strings:
  \<open>strconv.ParseInt(s, 10, 64)\<close>, \<open>strconv.ParseBool\<close> and \<open>time.ParseDuration\<close>. The
  server looks only at whether they fail, so an error is \<open>None\<close>. \<open>Itoa\<close> is the verb
  \<open>%d\<close> of package \<open>fmt\<close>.
\<close>

section \<open>Decimal digits\<close>

definition isDigit :: "char \<Rightarrow> bool" where
  "isDigit c \<longleftrightarrow> CHR ''0'' \<le> c \<and> c \<le> CHR ''9''"

definition digit_val :: "char \<Rightarrow> int" where
  "digit_val c = of_char c - 48"

definition digit_char :: "int \<Rightarrow> char" where
  "digit_char d = char_of (48 + d)"

fun digits_val :: "string \<Rightarrow> int \<Rightarrow> int" where
  "digits_val [] x = x"
| "digits_val (c # s) x = digits_val s (x * 10 + digit_val c)"

fun decimal :: "nat \<Rightarrow> string" where
  "decimal n = (if n < 10 then [digit_char (int n)] else decimal (n div 10) @ [digit_char (int (n mod 10))])"

declare decimal.simps [simp del]

definition Itoa :: "int \<Rightarrow> string" where
  "Itoa n = (if n < 0 then CHR ''-'' # decimal (nat (- n)) else decimal (nat n))"

section \<open>Package strconv\<close>

definition ParseUint :: "string \<Rightarrow> int option" where
  "ParseUint s = (if s \<noteq> [] \<and> (\<forall>c \<in> set s. isDigit c) then Some (digits_val s 0) else None)"

definition ParseInt :: "string \<Rightarrow> int option" where
  "ParseInt s =
     (let neg = HasPrefix s ''-''; s' = (if neg \<or> HasPrefix s ''+'' then tl s else s)
      in case ParseUint s' of
           None \<Rightarrow> None
         | Some n \<Rightarrow>
             if neg then (if n \<le> 2 ^ 63 then Some (- n) else None)
             else (if n < 2 ^ 63 then Some n else None))"

definition ParseBool :: "string \<Rightarrow> bool option" where
  "ParseBool s =
     (if s \<in> {''1'', ''t'', ''T'', ''TRUE'', ''true'', ''True''} then Some True
      else if s \<in> {''0'', ''f'', ''F'', ''FALSE'', ''false'', ''False''} then Some False
      else None)"

section \<open>Durations\<close>

fun leadingInt :: "string \<Rightarrow> int \<Rightarrow> (int \<times> string) option" where
  "leadingInt [] x = Some (x, [])"
| "leadingInt (c # s) x =
     (if \<not> isDigit c then Some (x, c # s)
      else if x > 2 ^ 63 div 10 then None
      else if x * 10 + digit_val c > 2 ^ 63 then None
      else leadingInt s (x * 10 + digit_val c))"

fun leadingFraction :: "string \<Rightarrow> bool \<Rightarrow> int \<Rightarrow> rat \<Rightarrow> int \<times> rat \<times> string" where
  "leadingFraction [] over x scale = (x, scale, [])"
| "leadingFraction (c # s) over x scale =
     (if \<not> isDigit c then (x, scale, c # s)
      else if over then leadingFraction s over x scale
      else if x > (2 ^ 63 - 1) div 10 then leadingFraction s True x scale
      else if x * 10 + digit_val c > 2 ^ 63 then leadingFraction s True x scale
      else leadingFraction s over (x * 10 + digit_val c) (fl64 (scale * 10)))"

text \<open>The micro signs U+00B5 and U+03BC are two bytes each.\<close>

definition unitMap :: "(string \<times> int) list" where
  "unitMap =
     [(''ns'', 1), (''us'', 1000), ([CHR 0xC2, CHR 0xB5, CHR ''s''], 1000), ([CHR 0xCE, CHR 0xBC, CHR ''s''], 1000),
      (''ms'', 1000000), (''s'', Second), (''m'', Minute), (''h'', Hour)]"

definition number_char :: "char \<Rightarrow> bool" where
  "number_char c \<longleftrightarrow> c = CHR ''.'' \<or> isDigit c"

text \<open>A number with a fraction at the front of a string, then the rest; \<open>None\<close> without a digit.\<close>

definition leadingNumber :: "string \<Rightarrow> (int \<times> int \<times> rat \<times> string) option" where
  "leadingNumber s =
     (case leadingInt s 0 of
        None \<Rightarrow> None
      | Some (v, s1) \<Rightarrow>
          (let pre = length s1 \<noteq> length s in
           if HasPrefix s1 ''.'' then
             (let (f, scale, s2) = leadingFraction (tl s1) False 0 1
              in if \<not> pre \<and> length s2 = length (tl s1) then None else Some (v, f, scale, s2))
           else if pre then Some (v, 0, 1, s1) else None))"

definition scaled :: "int \<Rightarrow> int \<Rightarrow> rat \<Rightarrow> int \<Rightarrow> int option" where
  "scaled v f scale unit =
     (if v > 2 ^ 63 div unit then None
      else if f > 0 then
        (let n = v * unit + \<lfloor>fl64 (fl64 (of_int f) * fl64 (of_int unit / scale))\<rfloor>
         in if n > 2 ^ 63 then None else Some n)
      else Some (v * unit))"

lemma leadingInt_length: "leadingInt s x = Some (v, r) \<Longrightarrow> length r \<le> length s"
  by (induction s x rule: leadingInt.induct) (auto split: if_splits)

lemma leadingFraction_length: "leadingFraction s over x sc = (f, sc', r) \<Longrightarrow> length r \<le> length s"
  by (induction s over x sc rule: leadingFraction.induct) (auto split: if_splits)

lemma leadingNumber_length: "leadingNumber s = Some (v, f, sc, r) \<Longrightarrow> length r \<le> length s"
  by (auto simp: leadingNumber_def Let_def split: option.splits prod.splits if_splits
      dest!: leadingInt_length leadingFraction_length)

function durations :: "string \<Rightarrow> int \<Rightarrow> int option" where
  "durations s d =
     (if s = [] then Some d
      else if \<not> number_char (hd s) then None
      else
        (case leadingNumber s of
           None \<Rightarrow> None
         | Some (v, f, scale, s2) \<Rightarrow>
             (let u = takeWhile (\<lambda>c. \<not> number_char c) s2 in
              if u = [] then None
              else
                (case map_of unitMap u of
                   None \<Rightarrow> None
                 | Some unit \<Rightarrow>
                     (case scaled v f scale unit of
                        None \<Rightarrow> None
                      | Some n \<Rightarrow>
                          (let d' = (d + n) mod 2 ^ 64
                           in if d' > 2 ^ 63 then None else durations (drop (length u) s2) d'))))))"
  by pat_completeness auto
termination
proof (relation "measure (length \<circ> fst)")
  fix s d x v y f z scale s2 u unit n d'
  assume s: "s \<noteq> []" and l: "leadingNumber s = Some x" "(v, y) = x" "(f, z) = y" "(scale, s2) = z"
    and u: "u = takeWhile (\<lambda>c. \<not> number_char c) s2" "u \<noteq> []"
  have "length s2 \<le> length s" using l leadingNumber_length by auto
  moreover have "0 < length u" "length u \<le> length s2" using u length_takeWhile_le by auto
  ultimately have "length s2 - length u < length s" by linarith
  then show "((drop (length u) s2, d'), (s, d)) \<in> measure (length \<circ> fst)" by simp
qed simp

declare durations.simps [simp del]

definition ParseDuration :: "string \<Rightarrow> int option" where
  "ParseDuration s =
     (let neg = HasPrefix s ''-''; s' = (if neg \<or> HasPrefix s ''+'' then tl s else s)
      in if s' = ''0'' then Some 0
         else if s' = [] then None
         else
           (case durations s' 0 of
              None \<Rightarrow> None
            | Some d \<Rightarrow> if neg then Some (- d) else if d > 2 ^ 63 - 1 then None else Some d))"

section \<open>Printing and parsing\<close>

lemma digit_char_val: "0 \<le> d \<Longrightarrow> d < 10 \<Longrightarrow> digit_val (digit_char d) = d \<and> isDigit (digit_char d)"
proof -
  assume "0 \<le> d" "d < 10"
  then have "d \<in> {0, 1, 2, 3, 4, 5, 6, 7, 8, 9}" by simp presburger
  then show ?thesis by (auto simp: digit_val_def digit_char_def isDigit_def char_of_def less_eq_char_def)
qed

lemma digits_val_append: "digits_val (s @ [c]) x = digits_val s x * 10 + digit_val c"
  by (induction s arbitrary: x) simp_all

lemma decimal_ne [simp]: "decimal n \<noteq> []"
  by (subst decimal.simps) simp

lemma decimal_digits: "c \<in> set (decimal n) \<Longrightarrow> isDigit c"
  by (induction n rule: decimal.induct) (subst (asm) (2) decimal.simps, auto simp: digit_char_val split: if_splits)

lemma digits_val_decimal: "digits_val (decimal n) 0 = int n"
proof (induction n rule: decimal.induct)
  case (1 n)
  show ?case
    using 1 by (subst decimal.simps) (auto simp: digits_val_append digit_char_val zmod_int zdiv_int)
qed

lemma isDigit_val: "isDigit c \<Longrightarrow> 0 \<le> digit_val c \<and> digit_val c \<le> 9"
proof -
  assume "isDigit c"
  then have "48 \<le> (of_char c :: nat)" "(of_char c :: nat) \<le> 57" by (simp_all add: isDigit_def less_eq_char_def)
  moreover have "int (of_char c) = (of_char c :: int)" by (rule of_nat_of_char)
  ultimately show ?thesis unfolding digit_val_def by linarith
qed

lemma HasPrefix_first [simp]: "HasPrefix (c # s) [d] \<longleftrightarrow> c = d"
  by (auto simp: HasPrefix_def)

lemma digit_not: "isDigit c \<Longrightarrow> c \<noteq> CHR ''-'' \<and> c \<noteq> CHR ''+'' \<and> c \<noteq> CHR ''.''"
  by (auto simp: isDigit_def less_eq_char_def)

lemma decimal_sign: "\<not> HasPrefix (decimal n) ''-''" "\<not> HasPrefix (decimal n) ''+''" "\<not> HasPrefix (decimal n) ''.''"
proof -
  obtain c s where c: "decimal n = c # s" by (cases "decimal n") auto
  then have "isDigit c" using decimal_digits [of c n] by simp
  with digit_not [of c] show "\<not> HasPrefix (decimal n) ''-''" "\<not> HasPrefix (decimal n) ''+''" "\<not> HasPrefix (decimal n) ''.''"
    by (auto simp: HasPrefix_def c)
qed

lemma ParseUint_decimal: "ParseUint (decimal n) = Some (int n)"
  using decimal_digits by (simp add: ParseUint_def digits_val_decimal)

lemma ParseInt_Itoa:
  assumes "int64 n"
  shows "ParseInt (Itoa n) = Some n"
  using assms by (auto simp: ParseInt_def Itoa_def Let_def decimal_sign ParseUint_decimal int64_def)

lemma digits_val_nonneg: "\<forall>c \<in> set s. isDigit c \<Longrightarrow> 0 \<le> x \<Longrightarrow> 0 \<le> digits_val s x"
proof (induction s arbitrary: x)
  case (Cons c s)
  then have "0 \<le> digit_val c" by (simp add: isDigit_val)
  with Cons show ?case by simp
qed simp

lemma ParseInt_range: "ParseInt s = Some n \<Longrightarrow> int64 n"
  using digits_val_nonneg [of "if HasPrefix s ''-'' \<or> HasPrefix s ''+'' then tl s else s" 0]
  by (auto simp: ParseInt_def ParseUint_def Let_def int64_def split: if_splits option.splits)

end
