(* ===== verification/Config.thy ===== *)
theory Config
  imports Strconv
begin

text \<open>
  \<open>server/internal/config/config.go\<close>: the configuration read from the environment. The
  environment is a function from names to values; the formatted messages of \<open>validate\<close> are
  constructors with their arguments. \<open>int\<close> has 64 bits.
\<close>

definition hardMaxTTL :: int where
  "hardMaxTTL = 7 * 24 * Hour"

record Config =
  Listen :: string
  PublicURL :: string
  DBPath :: string
  BlobDir :: string
  RequestLog :: string
  DefaultTTL :: int
  MaxTTL :: int
  GrantTTL :: int
  GCInterval :: int
  MaxTotalBytes :: int
  MaxPartBytes :: int
  MaxPartCount :: int
  RateCreatePerMin :: int
  RateUploadPerMin :: int
  RateWindow :: int
  TrustProxy :: bool
  TeamToken :: string

datatype config_error =
    ConfigError string
  | MaxTTLAboveCeiling int
  | DefaultTTLAboveMax int int
  | PartAboveTotal int int

type_synonym environ = "string \<Rightarrow> string option"

definition env_string :: "environ \<Rightarrow> string \<Rightarrow> string \<Rightarrow> string" where
  "env_string E key def = (case E key of Some v \<Rightarrow> if v \<noteq> [] then v else def | None \<Rightarrow> def)"

definition env_parsed :: "(string \<Rightarrow> 'a option) \<Rightarrow> environ \<Rightarrow> string \<Rightarrow> 'a \<Rightarrow> 'a" where
  "env_parsed parse E key def =
     (case E key of
        None \<Rightarrow> def
      | Some v \<Rightarrow> if v = [] then def else (case parse v of None \<Rightarrow> def | Some x \<Rightarrow> x))"

definition envDuration :: "environ \<Rightarrow> string \<Rightarrow> int \<Rightarrow> int" where
  "envDuration = env_parsed ParseDuration"

definition envInt64 :: "environ \<Rightarrow> string \<Rightarrow> int \<Rightarrow> int" where
  "envInt64 = env_parsed ParseInt"

definition envInt :: "environ \<Rightarrow> string \<Rightarrow> int \<Rightarrow> int" where
  "envInt E key def = envInt64 E key def"

definition envBool :: "environ \<Rightarrow> string \<Rightarrow> bool \<Rightarrow> bool" where
  "envBool = env_parsed ParseBool"

definition validate :: "Config \<Rightarrow> config_error option" where
  "validate c =
     (if Listen c = [] then Some (ConfigError ''SEND_LISTEN must not be empty'')
      else if DBPath c = [] then Some (ConfigError ''SEND_DB_PATH must not be empty'')
      else if BlobDir c = [] then Some (ConfigError ''SEND_BLOB_DIR must not be empty'')
      else if DefaultTTL c \<le> 0 \<or> MaxTTL c \<le> 0 \<or> GrantTTL c \<le> 0 \<or> GCInterval c \<le> 0
      then Some (ConfigError ''TTL/interval values must be positive'')
      else if MaxTTL c > hardMaxTTL then Some (MaxTTLAboveCeiling (MaxTTL c))
      else if DefaultTTL c > MaxTTL c then Some (DefaultTTLAboveMax (DefaultTTL c) (MaxTTL c))
      else if MaxTotalBytes c \<le> 0 \<or> MaxPartBytes c \<le> 0 then Some (ConfigError ''byte caps must be positive'')
      else if MaxPartBytes c > MaxTotalBytes c then Some (PartAboveTotal (MaxPartBytes c) (MaxTotalBytes c))
      else if MaxPartCount c \<le> 0 then Some (ConfigError ''SEND_MAX_PART_COUNT must be positive'')
      else if RateWindow c \<le> 0 then Some (ConfigError ''SEND_RATE_WINDOW must be positive'')
      else None)"

definition Load :: "environ \<Rightarrow> config_error + Config" where
  "Load E =
     (let c =
        \<lparr>Listen = env_string E ''SEND_LISTEN'' '':8080'',
         PublicURL = env_string E ''SEND_PUBLIC_URL'' [],
         DBPath = env_string E ''SEND_DB_PATH'' ''data/sends.db'',
         BlobDir = env_string E ''SEND_BLOB_DIR'' ''data/blobs'',
         RequestLog = env_string E ''SEND_REQUEST_LOG'' [],
         DefaultTTL = envDuration E ''SEND_DEFAULT_TTL'' Hour,
         MaxTTL = envDuration E ''SEND_MAX_TTL'' (24 * Hour),
         GrantTTL = envDuration E ''SEND_GRANT_TTL'' (10 * Minute),
         GCInterval = envDuration E ''SEND_GC_INTERVAL'' (2 * Minute),
         MaxTotalBytes = envInt64 E ''SEND_MAX_TOTAL_BYTES'' 26214400,
         MaxPartBytes = envInt64 E ''SEND_MAX_PART_BYTES'' 26214400,
         MaxPartCount = envInt E ''SEND_MAX_PART_COUNT'' 64,
         RateCreatePerMin = envInt E ''SEND_RATE_CREATE_PER_MIN'' 30,
         RateUploadPerMin = envInt E ''SEND_RATE_UPLOAD_PER_MIN'' 240,
         RateWindow = envDuration E ''SEND_RATE_WINDOW'' Minute,
         TrustProxy = envBool E ''SEND_TRUST_PROXY'' False,
         TeamToken = env_string E ''SEND_TEAM_TOKEN'' []\<rparr>
      in case validate c of Some e \<Rightarrow> Inl e | None \<Rightarrow> Inr c)"

section \<open>Ranges\<close>

lemma env_parsed_cases: "env_parsed parse E key def = def \<or> (\<exists>v. parse v = Some (env_parsed parse E key def))"
  by (auto simp: env_parsed_def split: option.split)

lemma durations_range: "durations s d = Some n \<Longrightarrow> 0 \<le> d \<Longrightarrow> d \<le> 2 ^ 63 \<Longrightarrow> 0 \<le> n \<and> n \<le> 2 ^ 63"
proof (induction s d rule: durations.induct)
  case (1 s d)
  show ?case
  proof (cases "s = []")
    case True
    with 1(2-4) show ?thesis by (subst (asm) durations.simps) simp
  next
    case False
    with 1(2) obtain v f sc s2 u unit m d' where
      x: "number_char (hd s)" "leadingNumber s = Some (v, f, sc, s2)" "u = takeWhile (\<lambda>c. \<not> number_char c) s2" "u \<noteq> []"
        "map_of unitMap u = Some unit" "scaled v f sc unit = Some m" "d' = (d + m) mod 2 ^ 64" "\<not> d' > 2 ^ 63"
        "durations (drop (length u) s2) d' = Some n"
      by (subst (asm) durations.simps) (auto simp: Let_def split: if_splits option.splits prod.splits)
    from 1(1) [OF False _ x(2) refl refl refl x(3) x(4) x(5) x(6) x(7) x(8) x(9)] x(1,7,8)
    show ?thesis by simp
  qed
qed

lemma ParseDuration_range: "ParseDuration s = Some n \<Longrightarrow> int64 n"
  by (auto simp: ParseDuration_def Let_def int64_def split: if_splits option.splits dest!: durations_range)

lemma Load_cases:
  assumes "Load E = Inr c"
  shows "validate c = None"
    "DefaultTTL c = envDuration E ''SEND_DEFAULT_TTL'' Hour" "MaxTTL c = envDuration E ''SEND_MAX_TTL'' (24 * Hour)"
    "GrantTTL c = envDuration E ''SEND_GRANT_TTL'' (10 * Minute)" "GCInterval c = envDuration E ''SEND_GC_INTERVAL'' (2 * Minute)"
    "MaxTotalBytes c = envInt64 E ''SEND_MAX_TOTAL_BYTES'' 26214400" "MaxPartBytes c = envInt64 E ''SEND_MAX_PART_BYTES'' 26214400"
    "MaxPartCount c = envInt E ''SEND_MAX_PART_COUNT'' 64" "RateWindow c = envDuration E ''SEND_RATE_WINDOW'' Minute"
  using assms by (auto simp: Load_def Let_def split: option.splits)

lemma env_int64: "int64 def \<Longrightarrow> int64 (envInt64 E key def)" "int64 def \<Longrightarrow> int64 (envInt E key def)"
  "int64 def \<Longrightarrow> int64 (envDuration E key def)"
  using env_parsed_cases [of ParseInt E key def] env_parsed_cases [of ParseDuration E key def] ParseInt_range ParseDuration_range
  by (auto simp: envInt64_def envInt_def envDuration_def)

end
