(* ===== verification/Filepath.thy ===== *)
theory Filepath
  imports GoStd
begin

text \<open>
  Package \<open>path/filepath\<close> on Unix, as far as the blob store uses it: \<open>Clean\<close>, \<open>Join\<close>
  and \<open>Dir\<close>. \<open>kpath\<close> is the list of names that the kernel walks through for an absolute
  path (no symbolic links); the lemmas say what the functions do to paths in normal form.
\<close>

fun clean_step :: "bool \<Rightarrow> string list \<Rightarrow> string \<Rightarrow> string list" where
  "clean_step rooted out w =
     (if w = [] \<or> w = ''.'' then out
      else if w = ''..'' then
        (case out of
           [] \<Rightarrow> if rooted then [] else [w]
         | x # xs \<Rightarrow> if x = ''..'' then w # out else xs)
      else w # out)"

definition Clean :: "string \<Rightarrow> string" where
  "Clean p =
     (if p = [] then ''.''
      else
        (let rooted = HasPrefix p ''/'';
             out = rev (foldl (clean_step rooted) [] (splitc CHR ''/'' p));
             s = (if rooted then ''/'' else []) @ Join out ''/''
         in if s = [] then ''.'' else s))"

definition FJoin :: "string list \<Rightarrow> string" where
  "FJoin es = (case dropWhile (\<lambda>e. e = []) es of [] \<Rightarrow> [] | es' \<Rightarrow> Clean (Join es' ''/''))"

definition Dir :: "string \<Rightarrow> string" where
  "Dir p = Clean (rev (dropWhile (\<lambda>c. c \<noteq> CHR ''/'') (rev p)))"

definition kpath :: "string \<Rightarrow> string list" where
  "kpath p = rev (foldl (clean_step True) [] (splitc CHR ''/'' p))"

section \<open>Paths in normal form\<close>

definition plain :: "string \<Rightarrow> bool" where
  "plain w \<longleftrightarrow> w \<noteq> [] \<and> CHR ''/'' \<notin> set w \<and> w \<noteq> ''.'' \<and> w \<noteq> ''..''"

definition rooted_path :: "string list \<Rightarrow> string" where
  "rooted_path ws = CHR ''/'' # Join ws ''/''"

text \<open>\<open>names s\<close> are the names in a path without \<open>..\<close>.\<close>

definition names :: "string \<Rightarrow> string list" where
  "names s = filter (\<lambda>w. w \<noteq> [] \<and> w \<noteq> ''.'') (splitc CHR ''/'' s)"

lemma names_glue: "names (s @ CHR ''/'' # t) = names s @ names t"
  by (simp add: names_def splitc_glue)

lemma names_slash [simp]: "names (CHR ''/'' # t) = names t"
  by (simp add: names_def)

lemma names_Nil [simp]: "names [] = []"
  by (simp add: names_def)

lemma names_word: "plain w \<Longrightarrow> names w = [w]"
  by (simp add: names_def splitc_word plain_def)

lemma names_Join: "\<forall>w \<in> set ws. plain w \<Longrightarrow> names (Join ws ''/'') = ws"
  by (induction ws "''/''" rule: Join.induct) (simp_all add: names_word names_glue)

lemma names_rooted: "\<forall>w \<in> set ws. plain w \<Longrightarrow> names (rooted_path ws) = ws"
  by (simp add: rooted_path_def names_Join)

text \<open>Without an element \<open>..\<close> the stack of \<open>Clean\<close> only grows.\<close>

lemma clean_fold:
  "''..'' \<notin> set ws \<Longrightarrow>
     foldl (clean_step r) out ws = rev (filter (\<lambda>w. w \<noteq> [] \<and> w \<noteq> ''.'') ws) @ out"
  by (induction ws arbitrary: out) auto

lemma kpath_names: "''..'' \<notin> set (splitc CHR ''/'' p) \<Longrightarrow> kpath p = names p"
  by (simp add: kpath_def names_def clean_fold)

lemma Clean_rooted:
  "''..'' \<notin> set (splitc CHR ''/'' s) \<Longrightarrow> Clean (CHR ''/'' # s) = rooted_path (names s)"
  by (simp add: Clean_def clean_fold names_def rooted_path_def HasPrefix_def Let_def)

lemma splitc_plain_names:
  assumes "\<forall>w \<in> set ws. plain w"
  shows "''..'' \<notin> set (splitc CHR ''/'' (Join ws ''/''))"
proof (cases "ws = []")
  case False
  then have "splitc CHR ''/'' (Join ws ''/'') = ws"
    using assms by (intro splitc_Join) (auto simp: plain_def)
  with assms show ?thesis by (auto simp: plain_def)
qed simp

lemma kpath_rooted: "\<forall>w \<in> set ws. plain w \<Longrightarrow> kpath (rooted_path ws) = ws"
  using splitc_plain_names [of ws] by (subst kpath_names) (auto simp: names_Join rooted_path_def)

lemma Clean_rooted_path: "\<forall>w \<in> set ws. plain w \<Longrightarrow> Clean (rooted_path ws) = rooted_path ws"
  unfolding rooted_path_def [of ws] by (simp add: Clean_rooted splitc_plain_names names_Join) (simp add: rooted_path_def)

lemma FJoin_rooted:
  assumes "\<forall>w \<in> set ds. plain w" "\<forall>w \<in> set ks. plain w"
  shows "FJoin [rooted_path ds, rooted_path ks] = rooted_path (ds @ ks)"
proof -
  let ?s = "Join ds ''/'' @ CHR ''/'' # CHR ''/'' # Join ks ''/''"
  have "''..'' \<notin> set (splitc CHR ''/'' ?s)"
    using splitc_plain_names [OF assms(1)] splitc_plain_names [OF assms(2)] by (simp add: splitc_glue)
  then have "Clean (CHR ''/'' # ?s) = rooted_path (names ?s)" by (rule Clean_rooted)
  then show ?thesis
    using assms by (simp add: FJoin_def rooted_path_def names_glue names_Join)
qed

lemma Join_snoc: "ws \<noteq> [] \<Longrightarrow> Join (ws @ [w]) sep = Join ws sep @ sep @ w"
  by (induction ws sep rule: Join.induct) auto

lemma rooted_snoc: "rooted_path (ws @ [w]) = (if ws = [] then [] else rooted_path ws) @ CHR ''/'' # w"
  by (simp add: rooted_path_def Join_snoc)

lemma Dir_rooted:
  assumes "\<forall>w \<in> set ws. plain w" "CHR ''/'' \<notin> set w"
  shows "Dir (rooted_path (ws @ [w])) = rooted_path ws"
proof -
  have cut: "rev (dropWhile (\<lambda>c. c \<noteq> CHR ''/'') (rev (a @ CHR ''/'' # w))) = a @ ''/''" for a
    using assms(2) by (subst rev_append) (simp add: dropWhile_append3 dropWhile_append)
  show ?thesis
  proof (cases "ws = []")
    case True
    then show ?thesis
      using cut [of "[]"] Clean_rooted [of "[]"] by (simp add: Dir_def rooted_path_def names_def)
  next
    case False
    have "''..'' \<notin> set (splitc CHR ''/'' (Join ws ''/'' @ ''/''))"
      using splitc_plain_names [OF assms(1)] by (simp add: splitc_glue)
    then have "Clean (CHR ''/'' # (Join ws ''/'' @ ''/'')) = rooted_path (names (Join ws ''/'' @ ''/''))"
      by (rule Clean_rooted)
    also have "names (Join ws ''/'' @ ''/'') = ws"
      using names_glue [of "Join ws ''/''" "[]"] by (simp add: names_Join assms(1))
    finally show ?thesis
      using False cut [of "rooted_path ws"] by (simp add: Dir_def rooted_snoc) (simp add: rooted_path_def)
  qed
qed

lemma rooted_inj:
  assumes "\<forall>w \<in> set vs. plain w" "\<forall>w \<in> set ws. plain w"
  shows "rooted_path vs = rooted_path ws \<longleftrightarrow> vs = ws"
  using names_rooted [OF assms(1)] names_rooted [OF assms(2)] by metis

text \<open>The names of a string without \<open>..\<close> are plain.\<close>

lemma names_plain:
  assumes "\<not> Contains s ''..''"
  shows "''..'' \<notin> set (splitc CHR ''/'' s)" and "w \<in> set (names s) \<Longrightarrow> plain w"
proof -
  show no: "''..'' \<notin> set (splitc CHR ''/'' s)"
    using assms splitc_words_in [of "''..''" "CHR ''/''" s] by (auto simp: Contains_iff)
  show "plain w" if "w \<in> set (names s)"
    using that no splitc_no_sep [of w "CHR ''/''" s] by (auto simp: names_def plain_def)
qed

end
