(* ===== verification/Fsblob.thy ===== *)
theory Fsblob
  imports Filepath StoreTypes "HOL-Library.AList"
begin

text \<open>
  \<open>server/internal/store/fsblob.go\<close>: the blob store. The file system is the finite list of
  its files and directories by absolute path (a list of names, the empty list is \<open>/\<close>);
  permissions, symbolic links and owners are not modelled. Each system call is a function on
  that list that reports \<open>NotExist\<close> or another \<open>errno\<close>, and draws from \<open>fsFaults\<close> whether
  it fails for a reason of its own. The random suffix of \<open>os.CreateTemp\<close> is an argument.
\<close>

section \<open>Files and system calls\<close>

type_synonym path = "string list"

datatype node = Directory | File string

datatype errno = NotExist | OtherErrno

record fsblob =
  dir :: string
  nodes :: "(path \<times> node) list"
  fsFaults :: "bool list"

definition lookup :: "(path \<times> node) list \<Rightarrow> path \<Rightarrow> node option" where
  "lookup ns q = (if q = [] then Some Directory else map_of ns q)"

definition os_call :: "((path \<times> node) list \<Rightarrow> (path \<times> node) list \<times> (errno + 'a)) \<Rightarrow> fsblob \<Rightarrow> (errno + 'a) \<times> fsblob" where
  "os_call f b =
     (let (failed, rest) = next_fault (fsFaults b); b' = b\<lparr>fsFaults := rest\<rparr>
      in if failed then (Inl OtherErrno, b')
         else (let (ns, r) = f (nodes b) in (r, b'\<lparr>nodes := ns\<rparr>)))"

definition wrap_err :: "string \<Rightarrow> (errno + 'a) \<times> fsblob \<Rightarrow> 'a result \<times> fsblob" where
  "wrap_err ctx m = (case m of (Inl _, b) \<Rightarrow> (Inl (ErrInternal ctx), b) | (Inr x, b) \<Rightarrow> (Inr x, b))"

text \<open>A path whose proper prefix is a file does not resolve, with an error of its own.\<close>

definition missing :: "(path \<times> node) list \<Rightarrow> path \<Rightarrow> errno" where
  "missing ns q =
     (if \<exists>n \<in> {1..<length q}. \<exists>c. lookup ns (take n q) = Some (File c) then OtherErrno else NotExist)"

definition has_child :: "(path \<times> node) list \<Rightarrow> path \<Rightarrow> bool" where
  "has_child ns q \<longleftrightarrow> (\<exists>x \<in> set ns. length q < length (fst x) \<and> take (length q) (fst x) = q)"

definition sys_mkdir :: "path \<Rightarrow> (path \<times> node) list \<Rightarrow> (path \<times> node) list \<times> (errno + unit)" where
  "sys_mkdir q ns =
     (case lookup ns q of
        Some Directory \<Rightarrow> (ns, Inr ())
      | Some (File _) \<Rightarrow> (ns, Inl OtherErrno)
      | None \<Rightarrow> if lookup ns (butlast q) = Some Directory then (AList.update q Directory ns, Inr ())
                else (ns, Inl OtherErrno))"

definition sys_create_excl :: "path \<Rightarrow> (path \<times> node) list \<Rightarrow> (path \<times> node) list \<times> (errno + unit)" where
  "sys_create_excl q ns =
     (if lookup ns q = None \<and> lookup ns (butlast q) = Some Directory
      then (AList.update q (File []) ns, Inr ()) else (ns, Inl OtherErrno))"

definition sys_write :: "path \<Rightarrow> string \<Rightarrow> (path \<times> node) list \<Rightarrow> (path \<times> node) list \<times> (errno + unit)" where
  "sys_write q data ns = (AList.update q (File data) ns, Inr ())"

definition sys_rename :: "path \<Rightarrow> path \<Rightarrow> (path \<times> node) list \<Rightarrow> (path \<times> node) list \<times> (errno + unit)" where
  "sys_rename q q' ns =
     (case (lookup ns q, lookup ns q') of
        (Some (File c), Some Directory) \<Rightarrow> (ns, Inl OtherErrno)
      | (Some (File c), _) \<Rightarrow>
          if lookup ns (butlast q') = Some Directory
          then (AList.update q' (File c) (AList.delete q ns), Inr ()) else (ns, Inl OtherErrno)
      | _ \<Rightarrow> (ns, Inl OtherErrno))"

definition sys_remove :: "path \<Rightarrow> (path \<times> node) list \<Rightarrow> (path \<times> node) list \<times> (errno + unit)" where
  "sys_remove q ns =
     (case lookup ns q of
        None \<Rightarrow> (ns, Inl (missing ns q))
      | Some (File _) \<Rightarrow> (AList.delete q ns, Inr ())
      | Some Directory \<Rightarrow>
          if q = [] \<or> has_child ns q then (ns, Inl OtherErrno) else (AList.delete q ns, Inr ()))"

definition sys_open :: "path \<Rightarrow> (path \<times> node) list \<Rightarrow> (path \<times> node) list \<times> (errno + node)" where
  "sys_open q ns = (ns, case lookup ns q of None \<Rightarrow> Inl (missing ns q) | Some x \<Rightarrow> Inr x)"

definition sys_noop :: "(path \<times> node) list \<Rightarrow> (path \<times> node) list \<times> (errno + unit)" where
  "sys_noop ns = (ns, Inr ())"

section \<open>Package os\<close>

fun mkdir_each :: "path list \<Rightarrow> fsblob \<Rightarrow> (errno + unit) \<times> fsblob" where
  "mkdir_each [] b = (Inr (), b)"
| "mkdir_each (q # qs) b =
     (if lookup (nodes b) q = Some Directory then mkdir_each qs b
      else on_ok (os_call (sys_mkdir q) b) (\<lambda>_ b. mkdir_each qs b))"

definition MkdirAll :: "string \<Rightarrow> fsblob \<Rightarrow> (errno + unit) \<times> fsblob" where
  "MkdirAll p b =
     (let es = splitc CHR ''/'' p
      in mkdir_each (map (\<lambda>n. rev (foldl (clean_step True) [] (take n es))) [1..<Suc (length es)]) b)"

definition temp_name :: "string \<Rightarrow> string \<Rightarrow> string" where
  "temp_name d sfx = (if d \<noteq> [] \<and> last d = CHR ''/'' then d else d @ ''/'') @ ''.tmp-'' @ sfx"

definition CreateTemp :: "string \<Rightarrow> string \<Rightarrow> fsblob \<Rightarrow> (errno + string) \<times> fsblob" where
  "CreateTemp d sfx b =
     on_ok (os_call (sys_create_excl (kpath (temp_name d sfx))) b) (\<lambda>_ b. (Inr (temp_name d sfx), b))"

definition Rename :: "string \<Rightarrow> string \<Rightarrow> fsblob \<Rightarrow> (errno + unit) \<times> fsblob" where
  "Rename p p' b = os_call (sys_rename (kpath p) (kpath p')) b"

definition Remove :: "string \<Rightarrow> fsblob \<Rightarrow> (errno + unit) \<times> fsblob" where
  "Remove p b = os_call (sys_remove (kpath p)) b"

text \<open>
  The upload stream: the bytes it delivers, and whether it then fails instead of ending. An
  \<open>io.LimitReader\<close> stops after its limit without looking further.
\<close>

record reader =
  r_data :: string
  r_fails :: bool

definition limited :: "int \<Rightarrow> reader \<Rightarrow> string \<times> bool" where
  "limited n r = (if int (length (r_data r)) < n then (r_data r, r_fails r) else (take (nat n) (r_data r), False))"

definition copy_to :: "string \<Rightarrow> string \<times> bool \<Rightarrow> fsblob \<Rightarrow> (errno + unit) \<times> fsblob" where
  "copy_to p src b =
     on_ok (os_call (sys_write (kpath p) (fst src)) b) (\<lambda>_ b.
       if snd src then (Inl OtherErrno, b) else (Inr (), b))"

section \<open>The blob store\<close>

definition OpenFilesystemBlob :: "string \<Rightarrow> string \<Rightarrow> (path \<times> node) list \<Rightarrow> bool list \<Rightarrow> unit result \<times> fsblob" where
  "OpenFilesystemBlob cwd d ns faults =
     (let b = \<lparr>dir = [], nodes = ns, fsFaults = faults\<rparr>;
          full = (if HasPrefix d ''/'' then d else cwd @ ''/'' @ d)
      in if d = [] then (Inl (ErrInternal ''blob dir must not be empty''), b)
         else
           on_ok (wrap_err ''create blob dir'' (MkdirAll full b)) (\<lambda>_ b.
           on_ok (wrap_err ''abs blob dir'' (if HasPrefix d ''/'' then (Inr (), b) else os_call sys_noop b)) (\<lambda>_ b.
             (Inr (), b\<lparr>dir := Clean (if HasPrefix d ''/'' then Clean d else FJoin [cwd, d])\<rparr>))))"

definition resolve :: "fsblob \<Rightarrow> string \<Rightarrow> string result" where
  "resolve b key =
     (if key = [] \<or> HasPrefix key ''/'' \<or> Contains key ''..''
      then Inl (ErrInternal ''invalid storage key'')
      else
        (let p = FJoin [dir b, Clean (''/'' @ key)]
         in if p \<noteq> dir b \<and> \<not> HasPrefix p (dir b @ ''/'')
            then Inl (ErrInternal ''storage key escapes blob dir'') else Inr p))"

text \<open>
  \<open>put_temp\<close> is \<open>Put\<close> from the copy on, \<open>discard\<close> its deferred function when nothing was
  published.
\<close>

definition put_temp :: "string \<Rightarrow> string \<Rightarrow> reader \<Rightarrow> PartMeta \<Rightarrow> int \<Rightarrow> fsblob \<Rightarrow> int result \<times> fsblob" where
  "put_temp tmp p r want limit b =
     (let src = limited (add64 limit 1) r; n = int (length (fst src)) in
      on_ok (wrap_err ''write blob'' (copy_to tmp src b)) (\<lambda>_ b.
        if n > limit then (Inl ErrPartTooLarge, b)
        else if n \<noteq> EncryptedSize want \<or> sha256_hex (fst src) \<noteq> SHA256 want then (Inl ErrIntegrity, b)
        else
          on_ok (wrap_err ''chmod temp'' (os_call sys_noop b)) (\<lambda>_ b.
          on_ok (wrap_err ''close temp'' (os_call sys_noop b)) (\<lambda>_ b.
          on_ok (wrap_err ''publish blob'' (Rename tmp p b)) (\<lambda>_ b. (Inr n, b))))))"

definition discard :: "string \<Rightarrow> int result \<times> fsblob \<Rightarrow> int result \<times> fsblob" where
  "discard tmp m =
     (case m of
        (Inr n, b) \<Rightarrow> (Inr n, b)
      | (Inl e, b) \<Rightarrow> (Inl e, snd (Remove tmp (snd (os_call sys_noop b)))))"

definition Put :: "string \<Rightarrow> reader \<Rightarrow> PartMeta \<Rightarrow> int \<Rightarrow> string \<Rightarrow> fsblob \<Rightarrow> int result \<times> fsblob" where
  "Put key r want limit sfx b =
     (case resolve b key of
        Inl e \<Rightarrow> (Inl e, b)
      | Inr p \<Rightarrow>
          on_ok (wrap_err ''mkdir blob parent'' (MkdirAll (Dir p) b)) (\<lambda>_ b.
          on_ok (wrap_err ''create temp'' (CreateTemp (Dir p) sfx b)) (\<lambda>tmp b.
            discard tmp (put_temp tmp p r want limit b))))"

text \<open>The handle that \<open>Open\<close> returns is the file as it was, or a directory, whose read fails later.\<close>

definition Open :: "string \<Rightarrow> fsblob \<Rightarrow> node result \<times> fsblob" where
  "Open key b =
     (case resolve b key of
        Inl e \<Rightarrow> (Inl e, b)
      | Inr p \<Rightarrow>
          (case os_call (sys_open (kpath p)) b of
             (Inl NotExist, b) \<Rightarrow> (Inl ErrNotFound, b)
           | (Inl OtherErrno, b) \<Rightarrow> (Inl (ErrInternal ''open blob''), b)
           | (Inr x, b) \<Rightarrow> (Inr x, b)))"

definition Delete :: "string \<Rightarrow> fsblob \<Rightarrow> unit result \<times> fsblob" where
  "Delete key b =
     (case resolve b key of
        Inl e \<Rightarrow> (Inl e, b)
      | Inr p \<Rightarrow>
          (case Remove p b of
             (Inl OtherErrno, b) \<Rightarrow> (Inl (ErrInternal ''delete blob''), b)
           | (_, b) \<Rightarrow> (Inr (), snd (Remove (Dir p) b))))"

text \<open>
  \<open>filepath.WalkDir\<close> visits the names of a directory in lexical order, a directory before its
  contents: the files below \<open>b.dir\<close> in the order of their paths.
\<close>

definition hidden :: "path \<Rightarrow> bool" where
  "hidden q \<longleftrightarrow> HasPrefix (last q) ''.tmp-''"

definition walk :: "path \<Rightarrow> (path \<times> node) list \<Rightarrow> path list" where
  "walk root ns =
     sort (map (drop (length root) \<circ> fst)
       (filter (\<lambda>(q, x). x \<noteq> Directory \<and> length root < length q \<and> take (length root) q = root \<and> \<not> hidden q) ns))"

definition sys_walk :: "path \<Rightarrow> (path \<times> node) list \<Rightarrow> (path \<times> node) list \<times> (errno + string list)" where
  "sys_walk root ns =
     (ns, case lookup ns root of
            None \<Rightarrow> Inl (missing ns root)
          | Some (File _) \<Rightarrow> Inr (if hidden root then [] else [''.''])
          | Some Directory \<Rightarrow> Inr (map (\<lambda>q. Join q ''/'') (walk root ns)))"

definition List_blobs :: "fsblob \<Rightarrow> string list result \<times> fsblob" where
  "List_blobs b = wrap_err ''list blobs'' (os_call (sys_walk (kpath (dir b))) b)"

end
