(* ===== verification/FsblobInv.thy ===== *)
theory FsblobInv
  imports Fsblob
begin

text \<open>
  The invariant of the files below the blob directory and what each system call does to them.
  \<open>fview\<close> is the content of the files by absolute path; \<open>ns_ok\<close> says that the tree is
  closed under parents, that names are plain, and that the root of the store is no file.
\<close>

section \<open>The tree\<close>

definition ns_ok :: "path \<Rightarrow> (path \<times> node) list \<Rightarrow> bool" where
  "ns_ok root ns \<longleftrightarrow>
     distinct (map fst ns)
     \<and> (\<forall>q \<in> fst ` set ns. q \<noteq> [] \<and> (\<forall>w \<in> set q. plain w) \<and> lookup ns (butlast q) = Some Directory)
     \<and> (\<forall>q w. root @ q \<in> fst ` set ns \<longrightarrow> w \<in> set q \<longrightarrow> \<not> Contains w ''..'')
     \<and> (\<forall>c. lookup ns root \<noteq> Some (File c))"

definition fview :: "(path \<times> node) list \<Rightarrow> path \<Rightarrow> string option" where
  "fview ns q = (case lookup ns q of Some (File c) \<Rightarrow> Some c | _ \<Rightarrow> None)"

lemma lookup_update: "q \<noteq> [] \<Longrightarrow> lookup (AList.update q x ns) q' = (if q' = q then Some x else lookup ns q')"
  by (auto simp: lookup_def update_conv)

lemma lookup_delete: "q \<noteq> [] \<Longrightarrow> lookup (AList.delete q ns) q' = (if q' = q then None else lookup ns q')"
  by (auto simp: lookup_def delete_conv)

lemma lookup_in: "q \<noteq> [] \<Longrightarrow> lookup ns q = Some x \<Longrightarrow> (q, x) \<in> set ns"
  by (auto simp: lookup_def dest: map_of_SomeD)

lemma lookup_None_iff: "q \<noteq> [] \<Longrightarrow> lookup ns q = None \<longleftrightarrow> q \<notin> fst ` set ns"
  by (simp add: lookup_def map_of_eq_None_iff)

lemma in_lookup: "ns_ok root ns \<Longrightarrow> (q, x) \<in> set ns \<Longrightarrow> lookup ns q = Some x"
  by (auto simp: ns_ok_def lookup_def)

lemma ns_ok_parent: "ns_ok root ns \<Longrightarrow> q \<in> fst ` set ns \<Longrightarrow> lookup ns (butlast q) = Some Directory"
  unfolding ns_ok_def by blast

lemma prefix_directory:
  assumes "ns_ok root ns" "q \<in> fst ` set ns" "n < length q"
  shows "lookup ns (take n q) = Some Directory"
  using assms(2,3)
proof (induction "length q" arbitrary: q)
  case (Suc k)
  have par: "lookup ns (butlast q) = Some Directory" using assms(1) Suc.prems(1) by (rule ns_ok_parent)
  show ?case
  proof (cases "n = length (butlast q)")
    case True
    then show ?thesis using par by (simp add: butlast_conv_take)
  next
    case False
    then have n: "n < length (butlast q)" using Suc.prems(2) by simp
    then have "butlast q \<noteq> []" by (intro notI) simp
    then have "butlast q \<in> fst ` set ns" using par lookup_in by force
    from Suc.hyps(1) [OF _ this n] Suc.hyps(2) have "lookup ns (take n (butlast q)) = Some Directory" by simp
    then show ?thesis using n by (simp add: take_butlast)
  qed
qed simp

lemma file_no_child:
  assumes "ns_ok root ns" "lookup ns q = Some (File c) \<or> lookup ns q = None"
  shows "\<not> has_child ns q"
proof
  assume "has_child ns q"
  then obtain x where x: "x \<in> set ns" "length q < length (fst x)" "take (length q) (fst x) = q"
    by (auto simp: has_child_def)
  then have "lookup ns (take (length q) (fst x)) = Some Directory"
    by (intro prefix_directory [OF assms(1)]) auto
  with x assms(2) show False by simp
qed

lemma ns_ok_update:
  assumes ok: "ns_ok root ns" and q: "q \<noteq> []" "\<forall>w \<in> set q. plain w" "lookup ns (butlast q) = Some Directory"
    and names: "\<And>q' w. q = root @ q' \<Longrightarrow> w \<in> set q' \<Longrightarrow> \<not> Contains w ''..''"
    and x: "x = Directory \<or> (q \<noteq> root \<and> lookup ns q \<noteq> Some Directory)"
  shows "ns_ok root (AList.update q x ns)"
proof -
  have nb: "butlast q \<noteq> q" using q(1) by (metis append_butlast_last_id append_self_conv list.distinct(1))
  have par: "lookup (AList.update q x ns) (butlast q') = Some Directory"
    if "q' \<in> fst ` set (AList.update q x ns)" for q'
  proof (cases "q' = q")
    case True
    with q nb show ?thesis by (simp add: lookup_update)
  next
    case False
    with that have "q' \<in> fst ` set ns" by (auto simp: dom_update)
    with ok have "lookup ns (butlast q') = Some Directory" by (rule ns_ok_parent)
    with x q(1) show ?thesis by (auto simp: lookup_update)
  qed
  show ?thesis
    unfolding ns_ok_def
  proof (intro conjI ballI allI impI)
    show "distinct (map fst (AList.update q x ns))" using ok by (simp add: ns_ok_def distinct_update)
  next
    fix q' assume q': "q' \<in> fst ` set (AList.update q x ns)"
    then have "q' = q \<or> q' \<in> fst ` set ns" by (simp add: dom_update)
    with ok q show "q' \<noteq> []" by (auto simp: ns_ok_def)
    from q' show "lookup (AList.update q x ns) (butlast q') = Some Directory" by (rule par)
    fix w assume "w \<in> set q'"
    with \<open>q' = q \<or> q' \<in> fst ` set ns\<close> ok q(2) show "plain w" unfolding ns_ok_def by blast
  next
    fix q' w assume "root @ q' \<in> fst ` set (AList.update q x ns)" "w \<in> set q'"
    then show "\<not> Contains w ''..''" using ok names [of q' w] unfolding dom_update ns_ok_def by auto
  next
    fix c show "lookup (AList.update q x ns) root \<noteq> Some (File c)"
      using ok x q(1) by (auto simp: lookup_update ns_ok_def)
  qed
qed

lemma ns_ok_delete:
  assumes ok: "ns_ok root ns" and q: "q \<noteq> []" "\<not> has_child ns q"
  shows "ns_ok root (AList.delete q ns)"
proof -
  have keys: "fst ` set (AList.delete q ns) = fst ` set ns - {q}"
    using delete_keys [of q ns] by (metis set_map set_removeAll)
  have "lookup (AList.delete q ns) (butlast q') = Some Directory" if "q' \<in> fst ` set ns" for q'
  proof -
    have "butlast q' \<noteq> q"
    proof
      assume "butlast q' = q"
      moreover have "q' \<noteq> []" using ok that by (auto simp: ns_ok_def)
      ultimately have "has_child ns q" using that q(1)
        by (auto simp: has_child_def butlast_conv_take intro!: bexI)
      with q(2) show False ..
    qed
    with ns_ok_parent [OF ok that] q(1) show ?thesis by (simp add: lookup_delete)
  qed
  then show ?thesis
    using ok q(1) unfolding ns_ok_def keys by (auto simp: distinct_delete lookup_delete)
qed

section \<open>System calls\<close>

lemma fview_update: "q \<noteq> [] \<Longrightarrow> fview (AList.update q (File c) ns) = (fview ns)(q \<mapsto> c)"
  by (auto simp: fview_def lookup_update)

lemma fview_delete: "q \<noteq> [] \<Longrightarrow> fview (AList.delete q ns) = (fview ns)(q := None)"
  by (auto simp: fview_def lookup_delete)

lemma fview_update_dir:
  "q \<noteq> [] \<Longrightarrow> lookup ns q = None \<Longrightarrow> fview (AList.update q Directory ns) = fview ns"
  by (auto simp: fview_def lookup_update)

lemma sys_mkdir_effect:
  assumes ok: "ns_ok root ns" and q: "\<forall>w \<in> set q. plain w"
    and names: "\<And>q' w. q = root @ q' \<Longrightarrow> w \<in> set q' \<Longrightarrow> \<not> Contains w ''..''"
    and c: "sys_mkdir q ns = (ns', r)"
  shows "ns_ok root ns' \<and> fview ns' = fview ns \<and> (r = Inr () \<longrightarrow> lookup ns' q = Some Directory)
     \<and> (\<forall>x y. lookup ns x = Some y \<longrightarrow> lookup ns' x = Some y)"
proof (cases "lookup ns q = None \<and> lookup ns (butlast q) = Some Directory")
  case True
  then have "q \<noteq> []" by (auto simp: lookup_def)
  with True c have "ns' = AList.update q Directory ns" "r = Inr ()" by (simp_all add: sys_mkdir_def)
  with True \<open>q \<noteq> []\<close> ns_ok_update [OF ok _ q _ names, where x = Directory] show ?thesis
    by (auto simp: fview_update_dir lookup_update)
next
  case False
  with c have "ns' = ns" "r = Inr () \<longrightarrow> lookup ns q = Some Directory"
    by (auto simp: sys_mkdir_def split: option.splits node.splits)
  with ok show ?thesis by simp
qed

lemma sys_create_effect:
  assumes ok: "ns_ok root ns" and q: "\<forall>w \<in> set q. plain w" "q \<noteq> root"
    and names: "\<And>q' w. q = root @ q' \<Longrightarrow> w \<in> set q' \<Longrightarrow> \<not> Contains w ''..''"
    and c: "sys_create_excl q ns = (ns', Inr ())"
  shows "ns_ok root ns' \<and> fview ns q = None \<and> fview ns' = (fview ns)(q \<mapsto> []) \<and> lookup ns' q = Some (File [])
     \<and> q \<noteq> [] \<and> lookup ns' (butlast q) = Some Directory"
proof -
  from c have l: "lookup ns q = None" "lookup ns (butlast q) = Some Directory" and ns': "ns' = AList.update q (File []) ns"
    by (auto simp: sys_create_excl_def split: if_splits)
  have "q \<noteq> []" using l by (auto simp: lookup_def)
  then have "butlast q \<noteq> q" by (metis append_butlast_last_id append_self_conv list.distinct(1))
  with l \<open>q \<noteq> []\<close> q(2) ns_ok_update [OF ok _ q(1) _ names, where x = "File []"] show ?thesis
    by (auto simp: ns' fview_update lookup_update) (simp add: fview_def)
qed

lemma sys_create_Inl: "sys_create_excl q ns = (ns', Inl e) \<Longrightarrow> ns' = ns"
  by (auto simp: sys_create_excl_def split: if_splits)

lemma sys_write_effect:
  assumes ok: "ns_ok root ns" and q: "lookup ns q = Some (File c)"
  shows "ns_ok root (AList.update q (File d) ns) \<and> fview (AList.update q (File d) ns) = (fview ns)(q \<mapsto> d)"
proof -
  have ne: "q \<noteq> []" using q by (auto simp: lookup_def)
  have mem: "q \<in> fst ` set ns" using lookup_in [OF ne q] by force
  have "q \<noteq> root" using ok q by (auto simp: ns_ok_def)
  with ok mem ne q have "ns_ok root (AList.update q (File d) ns)"
    by (intro ns_ok_update) (auto simp: ns_ok_def)
  with ne show ?thesis by (simp add: fview_update)
qed

lemma sys_remove_effect:
  assumes ok: "ns_ok root ns" and c: "sys_remove q ns = (ns', r)"
  shows "ns_ok root ns' \<and> fview ns' = (if r = Inr () then (fview ns)(q := None) else fview ns)
     \<and> (r = Inl NotExist \<longrightarrow> fview ns q = None)
     \<and> (\<forall>x. x \<noteq> q \<longrightarrow> lookup ns' x = lookup ns x)"
proof (cases "lookup ns q")
  case None
  with c ok show ?thesis by (auto simp: sys_remove_def fview_def)
next
  case (Some x)
  show ?thesis
  proof (cases x)
    case (File d)
    with Some have ne: "q \<noteq> []" by (auto simp: lookup_def)
    have "\<not> has_child ns q" using file_no_child [OF ok] Some File by blast
    with ns_ok_delete [OF ok ne] Some File c ne show ?thesis
      by (auto simp: sys_remove_def fview_delete lookup_delete)
  next
    case Directory
    with Some c ok ns_ok_delete [OF ok, of q] show ?thesis
      by (auto simp: sys_remove_def fview_delete fview_def lookup_delete split: if_splits)
  qed
qed

lemma sys_rename_effect:
  assumes ok: "ns_ok root ns" and t: "lookup ns t = Some (File c)" and q: "\<forall>w \<in> set q. plain w" "q \<noteq> root"
    and names: "\<And>q' w. q = root @ q' \<Longrightarrow> w \<in> set q' \<Longrightarrow> \<not> Contains w ''..''"
    and r: "sys_rename t q ns = (ns', r)"
  shows "ns_ok root ns' \<and> fview ns' = (if r = Inr () then (fview ns)(t := None, q \<mapsto> c) else fview ns)
     \<and> (r \<noteq> Inr () \<longrightarrow> ns' = ns)"
proof (cases "lookup ns q \<noteq> Some Directory \<and> lookup ns (butlast q) = Some Directory")
  case True
  with t r have ns': "ns' = AList.update q (File c) (AList.delete t ns)" and ri: "r = Inr ()"
    by (auto simp: sys_rename_def split: option.splits node.splits)
  have te: "t \<noteq> []" using t by (auto simp: lookup_def)
  have qe: "q \<noteq> []" using True by (auto simp: lookup_def)
  have del: "ns_ok root (AList.delete t ns)" using ok te file_no_child [OF ok] t by (intro ns_ok_delete) auto
  have "ns_ok root ns'" unfolding ns'
  proof (rule ns_ok_update [OF del qe q(1) _ names])
    show "lookup (AList.delete t ns) (butlast q) = Some Directory"
      using True t te by (auto simp: lookup_delete)
    show "File c = Directory \<or> q \<noteq> root \<and> lookup (AList.delete t ns) q \<noteq> Some Directory"
      using True q(2) te by (auto simp: lookup_delete)
  qed
  then show ?thesis by (simp add: ri ns' fview_update fview_delete te qe)
next
  case False
  with t r have "ns' = ns" "r = Inl OtherErrno"
    by (auto simp: sys_rename_def split: option.splits node.splits if_splits)
  with ok show ?thesis by simp
qed

section \<open>Paths of keys\<close>

abbreviation root :: "fsblob \<Rightarrow> path" where
  "root b \<equiv> kpath (dir b)"

definition blob_ok :: "fsblob \<Rightarrow> bool" where
  "blob_ok b \<longleftrightarrow>
     (\<exists>ds. dir b = rooted_path ds \<and> ds \<noteq> [] \<and> (\<forall>w \<in> set ds. plain w)) \<and> ns_ok (root b) (nodes b)"

lemma blob_ok_root:
  assumes "blob_ok b"
  shows "dir b = rooted_path (root b)" "root b \<noteq> []" "\<And>w. w \<in> set (root b) \<Longrightarrow> plain w"
    "ns_ok (root b) (nodes b)"
  using assms by (auto simp: blob_ok_def kpath_rooted)

definition valid_key :: "string \<Rightarrow> bool" where
  "valid_key key \<longleftrightarrow> key \<noteq> [] \<and> \<not> HasPrefix key ''/'' \<and> \<not> Contains key ''..''"

lemma Join_append: "xs \<noteq> [] \<Longrightarrow> ys \<noteq> [] \<Longrightarrow> Join (xs @ ys) sep = Join xs sep @ sep @ Join ys sep"
proof (induction xs sep rule: Join.induct)
  case (2 x sep)
  then show ?case by (cases ys) auto
qed auto

lemma rooted_append: "ds \<noteq> [] \<Longrightarrow> ws \<noteq> [] \<Longrightarrow> rooted_path (ds @ ws) = rooted_path ds @ rooted_path ws"
  by (simp add: rooted_path_def Join_append)

text \<open>
  The check that the path stays below the blob directory never fails: the checks on the key
  suffice.
\<close>

lemma resolve_ok:
  assumes ok: "blob_ok b"
  shows "resolve b key =
     (if valid_key key then Inr (rooted_path (root b @ names key)) else Inl (ErrInternal ''invalid storage key''))"
proof (cases "valid_key key")
  case True
  then have key: "key \<noteq> []" "\<not> HasPrefix key ''/''" "\<not> Contains key ''..''" by (auto simp: valid_key_def)
  note r = blob_ok_root [OF ok]
  have "Clean (''/'' @ key) = rooted_path (names key)"
    using Clean_rooted [OF names_plain(1) [OF key(3)]] by simp
  then have p: "FJoin [dir b, Clean (''/'' @ key)] = rooted_path (root b @ names key)"
    using FJoin_rooted [of "root b" "names key"] r names_plain(2) [OF key(3)] by auto
  have "rooted_path (root b @ names key) = dir b \<or> HasPrefix (rooted_path (root b @ names key)) (dir b @ ''/'')"
  proof (cases "names key = []")
    case False
    then have "rooted_path (root b @ names key) = (dir b @ ''/'') @ Join (names key) ''/''"
      using r(1,2) by (simp add: rooted_append) (simp add: rooted_path_def)
    then show ?thesis by (metis HasPrefix_append)
  qed (simp add: r(1) [symmetric])
  then show ?thesis using True key by (simp only: resolve_def p Let_def) auto
qed (auto simp: resolve_def valid_key_def)

lemma take_prefixes:
  assumes "\<forall>w \<in> set ps. plain w" "1 \<le> n"
  shows "rev (foldl (clean_step True) [] (take n (splitc CHR ''/'' (rooted_path ps)))) = take (n - 1) ps"
proof (cases "ps = []")
  case True
  have "''..'' \<notin> set (take n [[], []])" by (auto dest: in_set_takeD)
  then show ?thesis using True
    by (simp add: rooted_path_def clean_fold) (auto simp: filter_empty_conv dest: in_set_takeD)
next
  case False
  then have "splitc CHR ''/'' (rooted_path ps) = [] # ps"
    using assms(1) splitc_Join [of ps "CHR ''/''"] by (auto simp: rooted_path_def plain_def)
  moreover obtain m where "n = Suc m" using assms(2) by (cases n) auto
  moreover have "''..'' \<notin> set (take m ps)" "filter (\<lambda>w. w \<noteq> [] \<and> w \<noteq> ''.'') (take m ps) = take m ps"
    using assms(1) by (auto simp: plain_def filter_id_conv dest: in_set_takeD)
  ultimately show ?thesis by (simp add: clean_fold)
qed

lemma MkdirAll_rooted:
  assumes "\<forall>w \<in> set ps. plain w"
  shows "\<exists>qs. MkdirAll (rooted_path ps) b = mkdir_each qs b \<and> ps \<in> set qs \<and> (\<forall>q \<in> set qs. \<exists>n. q = take n ps)"
proof -
  let ?es = "splitc CHR ''/'' (rooted_path ps)"
  have qs: "map (\<lambda>n. rev (foldl (clean_step True) [] (take n ?es))) [1..<Suc (length ?es)]
      = map (\<lambda>n. take (n - 1) ps) [1..<Suc (length ?es)]"
    using take_prefixes [OF assms] by (intro map_cong) auto
  have "take (length ?es - 1) ps = ps"
    using assms splitc_Join [of ps "CHR ''/''"] by (cases "ps = []") (auto simp: rooted_path_def plain_def)
  moreover have "length ?es \<ge> 1" by (simp add: Suc_le_eq)
  ultimately have "ps \<in> (\<lambda>n. take (n - 1) ps) ` {1..<Suc (length ?es)}"
    by (intro image_eqI [of _ _ "length ?es"]) auto
  then show ?thesis unfolding MkdirAll_def Let_def qs
    by (intro exI [of _ "map (\<lambda>n. take (n - 1) ps) [1..<Suc (length ?es)]"]) auto
qed

section \<open>Calls\<close>

lemma os_call_Inr: "os_call f b = (Inr x, b') \<Longrightarrow> f (nodes b) = (nodes b', Inr x) \<and> dir b' = dir b"
  by (auto simp: os_call_def Let_def split: prod.splits if_splits)

lemma os_call_Inl:
  "os_call f b = (Inl e, b') \<Longrightarrow>
     dir b' = dir b \<and> (nodes b' = nodes b \<and> e = OtherErrno \<or> f (nodes b) = (nodes b', Inl e))"
  by (auto simp: os_call_def Let_def split: prod.splits if_splits)

lemma wrap_err_Inr: "wrap_err ctx m = (Inr x, b) \<longleftrightarrow> m = (Inr x, b)"
  by (auto simp: wrap_err_def split: prod.splits sum.splits)

lemma wrap_err_Inl: "wrap_err ctx m = (Inl e, b) \<longleftrightarrow> e = ErrInternal ctx \<and> (\<exists>x. m = (Inl x, b))"
  by (auto simp: wrap_err_def split: prod.splits sum.splits)

lemma on_ok_wrap: "on_ok (wrap_err ctx m) k = (Inr y, b') \<longleftrightarrow> (\<exists>x b. m = (Inr x, b) \<and> k x b = (Inr y, b'))"
  by (cases m; cases "fst m") (auto simp: wrap_err_def)

lemma noop_effect: "os_call sys_noop b = (r, b') \<Longrightarrow> nodes b' = nodes b \<and> dir b' = dir b"
  by (cases r) (auto dest!: os_call_Inr os_call_Inl simp: sys_noop_def)

lemma mkdir_each_effect:
  assumes "ns_ok rt (nodes b)"
    and "\<forall>q \<in> set qs. (\<forall>w \<in> set q. plain w) \<and> (\<forall>q' w. q = rt @ q' \<longrightarrow> w \<in> set q' \<longrightarrow> \<not> Contains w ''..'')"
    and "mkdir_each qs b = (r, b')"
  shows "ns_ok rt (nodes b') \<and> fview (nodes b') = fview (nodes b) \<and> dir b' = dir b
     \<and> (\<forall>x y. lookup (nodes b) x = Some y \<longrightarrow> lookup (nodes b') x = Some y)
     \<and> (r = Inr () \<longrightarrow> (\<forall>q \<in> set qs. lookup (nodes b') q = Some Directory))"
  using assms
proof (induction qs arbitrary: b)
  case (Cons q qs)
  show ?case
  proof (cases "lookup (nodes b) q = Some Directory")
    case True
    with Cons.IH [OF Cons.prems(1)] Cons.prems show ?thesis by simp
  next
    case False
    obtain r1 b1 where c: "os_call (sys_mkdir q) b = (r1, b1)" by force
    have e1: "ns_ok rt (nodes b1) \<and> fview (nodes b1) = fview (nodes b) \<and> dir b1 = dir b
       \<and> (\<forall>x y. lookup (nodes b) x = Some y \<longrightarrow> lookup (nodes b1) x = Some y)
       \<and> (r1 = Inr () \<longrightarrow> lookup (nodes b1) q = Some Directory)"
      using sys_mkdir_effect [OF Cons.prems(1), of q] Cons.prems(1,2) c
      by (cases r1) (auto dest!: os_call_Inr os_call_Inl)
    show ?thesis
    proof (cases r1)
      case (Inl e)
      with Cons.prems(3) False c e1 show ?thesis by auto
    next
      case (Inr u)
      then have "mkdir_each qs b1 = (r, b')" using Cons.prems(3) False c by simp
      from Cons.IH [OF _ _ this] e1 Inr Cons.prems(2) show ?thesis by auto
    qed
  qed
qed simp

end
