(* ===== verification/FsblobSpec.thy ===== *)
theory FsblobSpec
  imports FsblobInv
begin

text \<open>
  The blob store as a map from keys to contents. \<open>loc\<close> is the place a storage key names
  (the names of its path), \<open>view\<close> the visible blobs of a store by place; files whose name
  starts with \<open>.tmp-\<close> are uploads in progress and are not visible. Each operation is described
  by its effect on that map, whatever system calls fail.
\<close>

definition loc :: "string \<Rightarrow> path option" where
  "loc key =
     (if valid_key key \<and> names key \<noteq> [] \<and> \<not> hidden (names key) then Some (names key) else None)"

definition view :: "fsblob \<Rightarrow> path \<Rightarrow> string option" where
  "view b q = (if q = [] \<or> hidden q then None else fview (nodes b) (root b @ q))"

definition temp_suffix :: "string \<Rightarrow> bool" where
  "temp_suffix sfx \<longleftrightarrow> set sfx \<subseteq> set ''0123456789''"

lemma Contains_mid: "Contains w p \<Longrightarrow> Contains (a @ w @ c) p"
  by (auto simp: Contains_iff) (metis append.assoc)

lemma names_no_dots:
  assumes "valid_key key" "w \<in> set (names key)"
  shows "plain w" "\<not> Contains w ''..''"
proof -
  show "plain w" using assms names_plain(2) by (auto simp: valid_key_def)
  have "w \<in> set (splitc CHR ''/'' key)" using assms(2) by (simp add: names_def)
  then obtain a c where "key = a @ w @ c" using splitc_words_in by blast
  then show "\<not> Contains w ''..''" using assms(1) Contains_mid by (auto simp: valid_key_def)
qed

lemma root_good_prefix:
  assumes ok: "blob_ok b" and k: "valid_key key" and q: "q = take n (root b @ names key)"
  shows "\<forall>w \<in> set q. plain w" and "q = root b @ q' \<Longrightarrow> w \<in> set q' \<Longrightarrow> \<not> Contains w ''..''"
proof -
  show "\<forall>w \<in> set q. plain w"
    using q blob_ok_root(3) [OF ok] names_no_dots(1) [OF k] by (auto dest!: in_set_takeD)
  assume "q = root b @ q'" and w: "w \<in> set q'"
  then have "q' = drop (length (root b)) (take n (root b @ names key))" using q by simp
  then have "set q' \<subseteq> set (names key)" by (auto simp: drop_take dest: in_set_takeD in_set_dropD)
  with w names_no_dots(2) [OF k] show "\<not> Contains w ''..''" by blast
qed

section \<open>Temporary files\<close>

lemma temp_path:
  assumes d: "d \<noteq> []" "\<forall>w \<in> set d. plain w" and s: "temp_suffix sfx"
  shows "kpath (temp_name (rooted_path d) sfx) = d @ [''.tmp-'' @ sfx]"
    and "plain (''.tmp-'' @ sfx)" and "\<not> Contains (''.tmp-'' @ sfx) ''..''" and "hidden (d @ [''.tmp-'' @ sfx])"
proof -
  have nd: "CHR ''.'' \<notin> set sfx" "CHR ''/'' \<notin> set sfx" using s by (auto simp: temp_suffix_def)
  show pl: "plain (''.tmp-'' @ sfx)" using nd by (auto simp: plain_def)
  have "\<not> Contains sfx ''..''"
    using nd by (metis Contains_iff in_set_conv_decomp append_Cons)
  then show "\<not> Contains (''.tmp-'' @ sfx) ''..''" by (simp add: HasPrefix_def)
  show "hidden (d @ [''.tmp-'' @ sfx])" by (simp add: hidden_def HasPrefix_def)
  have "last (rooted_path d) = last (last d)"
  proof -
    have "last d \<noteq> []" using d by (simp add: plain_def)
    then show ?thesis
      using d(1) rooted_snoc [of "butlast d" "last d"] by simp
  qed
  moreover have "last (last d) \<noteq> CHR ''/''"
    using d by (metis last_in_set plain_def)
  ultimately have "temp_name (rooted_path d) sfx = rooted_path (d @ [''.tmp-'' @ sfx])"
    using d(1) by (simp add: temp_name_def rooted_snoc)
  then show "kpath (temp_name (rooted_path d) sfx) = d @ [''.tmp-'' @ sfx]"
    using d pl by (simp add: kpath_rooted)
qed

definition put_ok :: "reader \<Rightarrow> PartMeta \<Rightarrow> int \<Rightarrow> int \<Rightarrow> bool" where
  "put_ok r want limit n \<longleftrightarrow>
     (let src = limited (add64 limit 1) r in
        \<not> snd src \<and> n = int (length (fst src)) \<and> n \<le> limit \<and> n = EncryptedSize want
        \<and> sha256_hex (fst src) = SHA256 want)"

lemma put_temp_effect:
  assumes ok: "ns_ok rt (nodes b)" and t: "lookup (nodes b) (kpath tmp) = Some (File c)"
    and q: "\<forall>w \<in> set (kpath p). plain w" "kpath p \<noteq> rt"
    and names: "\<And>q' w. kpath p = rt @ q' \<Longrightarrow> w \<in> set q' \<Longrightarrow> \<not> Contains w ''..''"
    and put: "put_temp tmp p r want limit b = (res, b')"
  shows "dir b' = dir b \<and> ns_ok rt (nodes b')
     \<and> (\<forall>n. res = Inr n \<longrightarrow> put_ok r want limit n
          \<and> fview (nodes b') = (fview (nodes b))(kpath tmp := None, kpath p \<mapsto> fst (limited (add64 limit 1) r)))
     \<and> (\<forall>e. res = Inl e \<longrightarrow> (\<exists>d. fview (nodes b') = (fview (nodes b))(kpath tmp \<mapsto> d)))"
proof -
  let ?src = "limited (add64 limit 1) r" and ?t = "kpath tmp"
  have same: "fview (nodes b) = (fview (nodes b))(?t \<mapsto> c)" using t by (auto simp: fview_def fun_eq_iff)
  note wr = sys_write_effect [OF ok t, of "fst ?src"]
  obtain r1 b1 where cp: "copy_to tmp ?src b = (r1, b1)" by force
  obtain r0 b0 where w0: "os_call (sys_write ?t (fst ?src)) b = (r0, b0)" by force
  have c1: "dir b1 = dir b" and s1: "nodes b1 = nodes b \<or> nodes b1 = AList.update ?t (File (fst ?src)) (nodes b)"
    and r1: "r1 = Inr () \<longrightarrow> \<not> snd ?src \<and> nodes b1 = AList.update ?t (File (fst ?src)) (nodes b)"
    using cp w0 by (cases r0; auto simp: copy_to_def sys_write_def split: if_splits
        dest!: os_call_Inr os_call_Inl)+
  have ok1: "ns_ok rt (nodes b1)" and v1: "\<exists>d. fview (nodes b1) = (fview (nodes b))(?t \<mapsto> d)"
    using s1 wr ok same by (auto simp del: fun_upd_apply)
  have stop: ?thesis if "res = Inl e" "nodes b' = nodes b1" "dir b' = dir b" for e
    using that ok1 v1 by auto
  show ?thesis
  proof (cases r1)
    case (Inl e)
    then show ?thesis using put cp c1 by (intro stop) (auto simp: put_temp_def wrap_err_def Let_def)
  next
    case Inr1: (Inr u)
    show ?thesis
    proof (cases "int (length (fst ?src)) > limit \<or> int (length (fst ?src)) \<noteq> EncryptedSize want
        \<or> sha256_hex (fst ?src) \<noteq> SHA256 want")
      case True
      then show ?thesis using put cp c1 Inr1
        by (intro stop [of "if int (length (fst ?src)) > limit then ErrPartTooLarge else ErrIntegrity"])
           (auto simp: put_temp_def wrap_err_def Let_def split: if_splits)
    next
      case fits: False
      obtain r2 b2 where n2: "os_call sys_noop b1 = (r2, b2)" by force
      obtain r3 b3 where n3: "os_call sys_noop b2 = (r3, b3)" by force
      obtain r4 b4 where n4: "Rename tmp p b3 = (r4, b4)" by force
      have e3: "nodes b2 = nodes b1" "dir b2 = dir b" "nodes b3 = nodes b1" "dir b3 = dir b"
        using noop_effect [OF n2] noop_effect [OF n3] c1 by auto
      have put': "on_ok (wrap_err ''chmod temp'' (r2, b2)) (\<lambda>_ b.
            on_ok (wrap_err ''close temp'' (os_call sys_noop b)) (\<lambda>_ b.
            on_ok (wrap_err ''publish blob'' (Rename tmp p b)) (\<lambda>_ b. (Inr (int (length (fst ?src))), b))))
          = (res, b')"
        using put cp Inr1 fits by (auto simp: put_temp_def wrap_err_def Let_def n2)
      show ?thesis
      proof (cases "r2 = Inr () \<and> r3 = Inr ()")
        case False
        then show ?thesis using put' n3 e3
          by (intro stop [of "if r2 = Inr () then ErrInternal ''close temp'' else ErrInternal ''chmod temp''"])
             (cases r2; cases r3; auto simp: wrap_err_def)+
      next
        case True
        with put' n3 n4 have put4: "on_ok (wrap_err ''publish blob'' (r4, b4)) (\<lambda>_ b. (Inr (int (length (fst ?src))), b)) = (res, b')"
          by (simp add: wrap_err_def)
        have w: "ns_ok rt (nodes b3)" "lookup (nodes b3) ?t = Some (File (fst ?src))"
          "fview (nodes b3) = (fview (nodes b))(?t \<mapsto> fst ?src)"
          using r1 Inr1 e3 wr t by (auto simp: update_conv lookup_def split: if_splits)
        show ?thesis
        proof (cases r4)
          case (Inl e)
          then have "nodes b4 = nodes b3" "dir b4 = dir b3"
            using os_call_Inl [OF n4 [unfolded Rename_def Inl]] sys_rename_effect [OF w(1,2) q names]
            by auto
          then show ?thesis using put4 Inl e3 by (intro stop [of "ErrInternal ''publish blob''"]) (auto simp: wrap_err_def)
        next
          case (Inr u')
          with os_call_Inr [OF n4 [unfolded Rename_def Inr]] sys_rename_effect [OF w(1,2) q names]
          have "ns_ok rt (nodes b4)" "fview (nodes b4) = (fview (nodes b3))(?t := None, kpath p \<mapsto> fst ?src)" "dir b4 = dir b3"
            by auto
          with put4 Inr w(3) e3 r1 Inr1 fits show ?thesis
            by (auto simp: wrap_err_def put_ok_def Let_def)
        qed
      qed
    qed
  qed
qed

lemma CreateTemp_effect:
  assumes ok: "ns_ok rt (nodes b)" and t: "\<forall>w \<in> set (kpath (temp_name d sfx)). plain w" "kpath (temp_name d sfx) \<noteq> rt"
    and names: "\<And>q' w. kpath (temp_name d sfx) = rt @ q' \<Longrightarrow> w \<in> set q' \<Longrightarrow> \<not> Contains w ''..''"
    and c: "CreateTemp d sfx b = (res, b')"
  shows "dir b' = dir b \<and> ns_ok rt (nodes b')
     \<and> (\<forall>e. res = Inl e \<longrightarrow> nodes b' = nodes b)
     \<and> (\<forall>t. res = Inr t \<longrightarrow> t = temp_name d sfx \<and> fview (nodes b) (kpath t) = None
          \<and> fview (nodes b') = (fview (nodes b))(kpath t \<mapsto> []) \<and> lookup (nodes b') (kpath t) = Some (File []))"
proof -
  obtain r0 b0 where c00: "os_call (sys_create_excl (kpath (temp_name d sfx))) b = (r0, b0)" by force
  then have c0: "os_call (sys_create_excl (kpath (temp_name d sfx))) b = (r0, b')"
    using c by (cases r0) (auto simp: CreateTemp_def)
  show ?thesis
  proof (cases r0)
    case (Inl e)
    with c c0 ok show ?thesis
      by (auto simp: CreateTemp_def dest!: os_call_Inl sys_create_Inl)
  next
    case (Inr u)
    with c c0 have "res = Inr (temp_name d sfx)" by (simp add: CreateTemp_def)
    with os_call_Inr [OF c0 [unfolded Inr]] sys_create_effect [OF ok t names] show ?thesis by auto
  qed
qed

section \<open>The operations\<close>

lemma discard_effect:
  assumes ok: "ns_ok rt (nodes b)" and d: "discard tmp (res, b) = (res', b')"
  shows "res' = res \<and> dir b' = dir b \<and> ns_ok rt (nodes b') \<and> (\<forall>n. res = Inr n \<longrightarrow> b' = b)
     \<and> (\<forall>q. q \<noteq> kpath tmp \<longrightarrow> fview (nodes b') q = fview (nodes b) q)"
proof (cases res)
  case (Inl e)
  obtain r1 b1 where b1: "os_call sys_noop b = (r1, b1)" by force
  obtain r2 b2 where b2: "os_call (sys_remove (kpath tmp)) b1 = (r2, b2)" by force
  have s1: "nodes b1 = nodes b" "dir b1 = dir b" using noop_effect [OF b1] by auto
  have "ns_ok rt (nodes b2) \<and> (\<forall>q. q \<noteq> kpath tmp \<longrightarrow> fview (nodes b2) q = fview (nodes b) q) \<and> dir b2 = dir b"
  proof (cases "sys_remove (kpath tmp) (nodes b)")
    case (Pair ns' r)
    from sys_remove_effect [OF ok Pair] b2 s1 Pair ok show ?thesis
      by (cases r2) (auto dest!: os_call_Inr os_call_Inl split: if_splits)
  qed
  with d Inl b1 b2 show ?thesis by (auto simp: discard_def Remove_def)
qed (use d ok in \<open>auto simp: discard_def\<close>)

lemma view_upd_hidden:
  assumes "\<And>q. q \<noteq> t \<Longrightarrow> fview (nodes b') q = fview (nodes b) q" "dir b' = dir b" "hidden t" "t \<noteq> []" "t \<noteq> root b"
  shows "view b' = view b"
proof
  fix q show "view b' q = view b q"
  proof (cases "q = [] \<or> hidden q")
    case False
    then have "root b @ q \<noteq> t" using assms(3) by (auto simp: hidden_def)
    then show ?thesis using assms by (simp add: view_def)
  qed (simp add: view_def)
qed

lemma Put_effect:
  assumes ok: "blob_ok b" and ne: "names key \<noteq> []" and s: "temp_suffix sfx"
    and put: "Put key r want limit sfx b = (res, b')"
  shows "blob_ok b' \<and> dir b' = dir b
     \<and> (\<forall>n. res = Inr n \<longrightarrow> valid_key key \<and> put_ok r want limit n
          \<and> view b' = (case loc key of None \<Rightarrow> view b | Some q \<Rightarrow> (view b)(q \<mapsto> fst (limited (add64 limit 1) r))))
     \<and> (\<forall>e. res = Inl e \<longrightarrow> view b' = view b)"
proof (cases "valid_key key")
  case False
  with put have "res = Inl (ErrInternal ''invalid storage key'')" "b' = b"
    by (auto simp: Put_def resolve_ok [OF ok])
  with ok show ?thesis by simp
next
  case k: True
  note rt = blob_ok_root [OF ok]
  define q d x where "q = names key" and "d = root b @ butlast q" and "x = last q"
  have q: "q = butlast q @ [x]" "root b @ q = d @ [x]" using ne by (simp_all add: q_def d_def x_def)
  let ?p = "rooted_path (root b @ q)" and ?t = "d @ [''.tmp-'' @ sfx]"
  have pre: "\<forall>w \<in> set (root b @ q). plain w" "\<forall>w \<in> set d. plain w" "d \<noteq> []" "plain x"
    using rt(2,3) names_no_dots(1) [OF k] last_in_set [OF ne] by (auto simp: q_def d_def x_def dest: in_set_butlastD)
  have dots: "w \<in> set q' \<Longrightarrow> root b @ q = root b @ q' \<Longrightarrow> \<not> Contains w ''..''" for q' w
    using names_no_dots(2) [OF k] by (simp add: q_def)
  have kp: "kpath ?p = root b @ q" using pre(1) by (rule kpath_rooted)
  have Dp: "Dir ?p = rooted_path d"
    using Dir_rooted [of d x] pre(2,4) by (simp add: q(2) plain_def)
  note tp = temp_path [OF pre(3,2) s]
  have tn: "?t \<noteq> root b" by (simp add: d_def)
  have tdots: "\<not> Contains w ''..''" if "?t = root b @ q'" "w \<in> set q'" for q' w
  proof -
    from that(1) have "q' = butlast q @ [''.tmp-'' @ sfx]" by (simp add: d_def)
    with that(2) tp(3) dots [of w q] show ?thesis by (auto dest: in_set_butlastD)
  qed
  obtain r1 b1 where m: "MkdirAll (Dir ?p) b = (r1, b1)" by force
  obtain qs where qs: "MkdirAll (rooted_path d) b = mkdir_each qs b" "\<forall>q \<in> set qs. \<exists>n. q = take n d"
    using MkdirAll_rooted [OF pre(2)] by blast
  have "\<forall>q \<in> set qs. (\<forall>w \<in> set q. plain w) \<and> (\<forall>q' w. q = root b @ q' \<longrightarrow> w \<in> set q' \<longrightarrow> \<not> Contains w ''..'')"
  proof
    fix y assume "y \<in> set qs"
    with qs(2) obtain n where "y = take n d" by blast
    then have "y = take (min n (length d)) (root b @ names key)" using q(2) by (simp add: q_def min_def)
    then show "(\<forall>w \<in> set y. plain w) \<and> (\<forall>q' w. y = root b @ q' \<longrightarrow> w \<in> set q' \<longrightarrow> \<not> Contains w ''..'')"
      using root_good_prefix [OF ok k, of y] by blast
  qed
  with mkdir_each_effect [OF rt(4), of qs r1 b1] m qs(1)
  have e1: "ns_ok (root b) (nodes b1)" "fview (nodes b1) = fview (nodes b)" "dir b1 = dir b"
    by (auto simp: Dp)
  have putm: "on_ok (wrap_err ''mkdir blob parent'' (r1, b1)) (\<lambda>_ b.
          on_ok (wrap_err ''create temp'' (CreateTemp (Dir ?p) sfx b)) (\<lambda>tmp b.
            discard tmp (put_temp tmp ?p r want limit b))) = (res, b')"
    using put m k by (simp add: Put_def resolve_ok [OF ok] q_def)
  have quiet: ?thesis if "ns_ok (root b) (nodes b')" "fview (nodes b') = fview (nodes b)" "dir b' = dir b" "res = Inl e" for e
    using that ok by (auto simp: blob_ok_def view_def)
  show ?thesis
  proof (cases r1)
    case (Inl e)
    with putm e1 show ?thesis by (intro quiet) (auto simp: wrap_err_def)
  next
    case Inr1: (Inr u)
    obtain r2 b2 where ct: "CreateTemp (Dir ?p) sfx b1 = (r2, b2)" by force
    have ct': "CreateTemp (rooted_path d) sfx b1 = (r2, b2)" using ct by (simp add: Dp)
    have e2: "dir b2 = dir b1 \<and> ns_ok (root b) (nodes b2)
       \<and> (\<forall>e. r2 = Inl e \<longrightarrow> nodes b2 = nodes b1)
       \<and> (\<forall>t. r2 = Inr t \<longrightarrow> t = temp_name (rooted_path d) sfx \<and> fview (nodes b1) (kpath t) = None
          \<and> fview (nodes b2) = (fview (nodes b1))(kpath t \<mapsto> []) \<and> lookup (nodes b2) (kpath t) = Some (File []))"
    proof (rule CreateTemp_effect [OF e1(1) _ _ _ ct'])
      show "\<forall>w \<in> set (kpath (temp_name (rooted_path d) sfx)). plain w" unfolding tp(1) using pre(2) tp(2) by auto
      show "kpath (temp_name (rooted_path d) sfx) \<noteq> root b" unfolding tp(1) by (rule tn)
      show "\<not> Contains w ''..''" if "kpath (temp_name (rooted_path d) sfx) = root b @ q'" "w \<in> set q'" for q' w
        using that unfolding tp(1) by (rule tdots)
    qed
    show ?thesis
    proof (cases r2)
      case (Inl e)
      with putm Inr1 ct e1 e2 show ?thesis by (intro quiet) (auto simp: wrap_err_def)
    next
      case Inr2: (Inr t)
      have t: "t = temp_name (rooted_path d) sfx" "kpath t = ?t" using e2 Inr2 tp(1) by auto
      obtain r3 b3 where pt: "put_temp t ?p r want limit b2 = (r3, b3)" by force
      have fin: "discard t (r3, b3) = (res, b')" using putm Inr1 ct Inr2 pt by (simp add: wrap_err_def)
        have e3: "dir b3 = dir b2 \<and> ns_ok (root b) (nodes b3)
           \<and> (\<forall>n. r3 = Inr n \<longrightarrow> put_ok r want limit n
                \<and> fview (nodes b3) = (fview (nodes b2))(kpath t := None, kpath ?p \<mapsto> fst (limited (add64 limit 1) r)))
           \<and> (\<forall>e. r3 = Inl e \<longrightarrow> (\<exists>d. fview (nodes b3) = (fview (nodes b2))(kpath t \<mapsto> d)))"
        proof (rule put_temp_effect [OF _ _ _ _ _ pt])
          show "lookup (nodes b2) (kpath t) = Some (File [])" using e2 Inr2 by blast
        qed (use e2 pre(1) kp t ne dots in \<open>auto simp: q_def\<close>)
        have e4: "res = r3 \<and> dir b' = dir b3 \<and> ns_ok (root b) (nodes b') \<and> (\<forall>n. r3 = Inr n \<longrightarrow> b' = b3)
          \<and> (\<forall>q. q \<noteq> kpath t \<longrightarrow> fview (nodes b') q = fview (nodes b3) q)"
          using e3 by (intro discard_effect [OF _ fin]) simp
        have d': "dir b' = dir b" using e1 e2 e3 e4 by simp
        then have ok': "blob_ok b'" using ok e4 by (simp add: blob_ok_def)
        have f2: "fview (nodes b2) = (fview (nodes b))(?t \<mapsto> [])" "fview (nodes b) ?t = None"
          using e2 Inr2 t e1 by auto
        show ?thesis
        proof (cases r3)
          case (Inl e)
          have "view b' = view b"
          proof (rule view_upd_hidden [OF _ d' tp(4) _ tn])
            fix y assume "y \<noteq> ?t"
            with e4 e3 Inl f2 t show "fview (nodes b') y = fview (nodes b) y" by auto
          qed simp
          with ok' d' e4 Inl show ?thesis by simp
        next
          case (Inr n)
          have "fview (nodes b') = (fview (nodes b))(root b @ q \<mapsto> fst (limited (add64 limit 1) r))"
            using e3 e4 Inr f2 t kp by (auto simp: fun_eq_iff)
          then have "view b' = (case loc key of None \<Rightarrow> view b | Some q \<Rightarrow> (view b)(q \<mapsto> fst (limited (add64 limit 1) r)))"
            using k ne d' by (auto simp: view_def loc_def q_def fun_eq_iff)
          with ok' d' e3 e4 Inr k show ?thesis by auto
        qed
    qed
  qed
qed

section \<open>The blob directory\<close>

text \<open>No call moves the directory of the store.\<close>

lemma dir_os_call [simp]: "dir (snd (os_call f b)) = dir b"
  using os_call_Inr [of f b "projr (fst (os_call f b))" "snd (os_call f b)"] os_call_Inl [of f b "projl (fst (os_call f b))" "snd (os_call f b)"]
  by (cases "os_call f b"; cases "fst (os_call f b)") auto

lemma dir_wrap_err [simp]: "dir (snd (wrap_err m x)) = dir (snd x)"
  by (cases x; cases "fst x") (simp_all add: wrap_err_def)

lemma dir_on_ok: "(\<And>x b. dir b = d \<Longrightarrow> dir (snd (k x b)) = d) \<Longrightarrow> dir (snd m) = d \<Longrightarrow> dir (snd (on_ok m k)) = d"
  by (cases m; cases "fst m") simp_all

lemma dir_mkdir_each: "dir (snd (mkdir_each qs b)) = dir b"
  by (induction qs arbitrary: b) (auto intro!: dir_on_ok)

lemma dir_calls [simp]: "dir (snd (Put key r want limit sfx b)) = dir b" "dir (snd (Delete key b)) = dir b"
  "dir (snd (Open key b)) = dir b" "dir (snd (List_blobs b)) = dir b"
proof -
  have temp: "dir (snd (put_temp tmp p r want limit b)) = dir b" for tmp p b
    by (auto simp: put_temp_def Let_def copy_to_def Rename_def intro!: dir_on_ok)
  have disc: "dir (snd (discard tmp m)) = dir (snd m)" for tmp m
    by (auto simp: discard_def Remove_def split: prod.split sum.split)
  show "dir (snd (Put key r want limit sfx b)) = dir b"
    by (auto simp: Put_def MkdirAll_def Let_def dir_mkdir_each CreateTemp_def temp disc intro!: dir_on_ok split: sum.split)
  have os: "os_call f b = (x, b') \<Longrightarrow> dir b' = dir b" for f :: "(path \<times> node) list \<Rightarrow> (path \<times> node) list \<times> (errno + 'x)" and b x b'
    using dir_os_call [of f b] by simp
  show "dir (snd (Delete key b)) = dir b"
    by (auto simp: Delete_def Remove_def split: sum.split prod.split errno.split dest!: os)
  show "dir (snd (Open key b)) = dir b"
    by (auto simp: Open_def split: sum.split prod.split errno.split dest!: os)
  show "dir (snd (List_blobs b)) = dir b" by (simp add: List_blobs_def)
qed

end
