(* ===== verification/Interfaces.thy ===== *)
theory Interfaces
  imports FsblobSpec
begin

text \<open>
  The interfaces \<open>StateStore\<close> and \<open>BlobStore\<close> of \<open>server/internal/store/store.go\<close>: a Go
  interface value is a record of functions over the state of its implementation. What a call
  takes from its surroundings (clocks, random bytes, the random suffix of a temporary file) is
  an \<open>env\<close>. The locales state the laws their clients rely on; the components that implement
  them interpret the locales.
\<close>

record env =
  wall :: int
  clock :: int
  entropy :: "string option"
  tmp_suffix :: string

type_synonym handle = node

record 's state_ops =
  st_CreateSend :: "env \<Rightarrow> CreateSendInput \<Rightarrow> 's \<Rightarrow> SendRecord result \<times> 's"
  st_SendStatusOf :: "string \<Rightarrow> 's \<Rightarrow> SendStatus result \<times> 's"
  st_DeclaredPart :: "string \<Rightarrow> string \<Rightarrow> 's \<Rightarrow> (PartMeta \<times> bool) result \<times> 's"
  st_MarkUploaded :: "env \<Rightarrow> string \<Rightarrow> string \<Rightarrow> 's \<Rightarrow> unit result \<times> 's"
  st_FinalizeSend :: "env \<Rightarrow> string \<Rightarrow> 's \<Rightarrow> unit result \<times> 's"
  st_RedeemSend :: "env \<Rightarrow> string \<Rightarrow> 's \<Rightarrow> RedeemGrant result \<times> 's"
  st_ValidateGrant :: "env \<Rightarrow> string \<Rightarrow> string \<Rightarrow> 's \<Rightarrow> unit result \<times> 's"
  st_GetSendMeta :: "string \<Rightarrow> 's \<Rightarrow> SendMeta result \<times> 's"
  st_DeleteExpired :: "int \<Rightarrow> 's \<Rightarrow> (nat \<times> string list) result \<times> 's"
  st_LiveStorageKeys :: "'s \<Rightarrow> string list result \<times> 's"
  st_Close :: "'s \<Rightarrow> unit result \<times> 's"

record 'b blob_ops =
  bl_Put :: "env \<Rightarrow> string \<Rightarrow> reader \<Rightarrow> PartMeta \<Rightarrow> int \<Rightarrow> 'b \<Rightarrow> int result \<times> 'b"
  bl_Open :: "string \<Rightarrow> 'b \<Rightarrow> handle result \<times> 'b"
  bl_Delete :: "string \<Rightarrow> 'b \<Rightarrow> unit result \<times> 'b"
  bl_List :: "'b \<Rightarrow> string list result \<times> 'b"

definition genuine :: "PartMeta \<Rightarrow> string \<Rightarrow> bool" where
  "genuine m c \<longleftrightarrow> int (length c) = EncryptedSize m \<and> sha256_hex c = SHA256 m"

text \<open>The loops of the coordinator that delete blobs and ignore errors.\<close>

fun delete_each :: "'b blob_ops \<Rightarrow> string list \<Rightarrow> 'b \<Rightarrow> 'b" where
  "delete_each B [] b = b"
| "delete_each B (k # ks) b = delete_each B ks (snd (bl_Delete B k b))"

section \<open>Blob stores\<close>

locale blob_store =
  fixes B :: "'b blob_ops"
    and binv :: "'b \<Rightarrow> bool"
    and bview :: "'b \<Rightarrow> path \<Rightarrow> string option"
    and place :: "string \<Rightarrow> path option"
    and key_of :: "path \<Rightarrow> string"
    and keyok :: "string \<Rightarrow> bool"
  assumes put_inv: "binv b \<Longrightarrow> keyok key \<Longrightarrow> temp_suffix (tmp_suffix e) \<Longrightarrow> binv (snd (bl_Put B e key r want limit b))"
    and put_ok: "binv b \<Longrightarrow> keyok key \<Longrightarrow> temp_suffix (tmp_suffix e) \<Longrightarrow>
        bl_Put B e key r want limit b = (Inr n, b') \<Longrightarrow>
        \<exists>c. genuine want c \<and> n = int (length c) \<and> n \<le> limit
          \<and> bview b' = (case place key of None \<Rightarrow> bview b | Some q \<Rightarrow> (bview b)(q \<mapsto> c))"
    and put_err: "binv b \<Longrightarrow> keyok key \<Longrightarrow> temp_suffix (tmp_suffix e) \<Longrightarrow>
        bl_Put B e key r want limit b = (Inl x, b') \<Longrightarrow> bview b' = bview b"
    and del_inv: "binv b \<Longrightarrow> binv (snd (bl_Delete B key b))"
    and del_view: "binv b \<Longrightarrow> bview (snd (bl_Delete B key b)) = bview b
        \<or> (\<exists>q. place key = Some q \<and> bview (snd (bl_Delete B key b)) = (bview b)(q := None))"
    and open_keep: "binv b \<Longrightarrow> binv (snd (bl_Open B key b)) \<and> bview (snd (bl_Open B key b)) = bview b"
    and open_ok: "binv b \<Longrightarrow> place key = Some q \<Longrightarrow> bl_Open B key b = (Inr (File c), b') \<Longrightarrow> bview b q = Some c"
    and open_none: "binv b \<Longrightarrow> place key = Some q \<Longrightarrow>
        fst (bl_Open B key b) = Inr Directory \<or> fst (bl_Open B key b) = Inl ErrNotFound \<Longrightarrow> bview b q = None"
    and list_keep: "binv b \<Longrightarrow> binv (snd (bl_List B b)) \<and> bview (snd (bl_List B b)) = bview b"
    and list_ok: "binv b \<Longrightarrow> bl_List B b = (Inr ks, b') \<Longrightarrow> set ks = key_of ` dom (bview b) \<and> distinct ks"
    and key_of_place: "binv b \<Longrightarrow> bview b q \<noteq> None \<Longrightarrow> place (key_of q) = Some q"
begin

lemma delete_each_inv: "binv b \<Longrightarrow> binv (delete_each B ks b)"
  by (induction ks arbitrary: b) (simp_all add: del_inv)

text \<open>Deleting keys changes the view at most at their places.\<close>

lemma delete_each_view:
  assumes "binv b" "q \<notin> {p. \<exists>k \<in> set ks. place k = Some p}"
  shows "bview (delete_each B ks b) q = bview b q"
  using assms
proof (induction ks arbitrary: b)
  case (Cons k ks)
  have "bview (snd (bl_Delete B k b)) q = bview b q"
    using del_view [OF Cons.prems(1), of k] Cons.prems(2) by auto
  moreover have "bview (delete_each B (k # ks) b) q = bview (snd (bl_Delete B k b)) q"
    using Cons.IH [OF del_inv [OF Cons.prems(1)]] Cons.prems(2) by simp
  ultimately show ?case by simp
qed simp

lemma delete_each_subset:
  assumes "binv b" "bview (delete_each B ks b) q = Some c"
  shows "bview b q = Some c"
  using assms
proof (induction ks arbitrary: b)
  case (Cons k ks)
  then have "bview (snd (bl_Delete B k b)) q = Some c" using del_inv by simp
  with del_view [OF Cons.prems(1), of k] show ?case by (auto split: if_splits)
qed simp

lemma place_key_of_inj:
  assumes "binv b" "p \<in> dom (bview b)" "q \<in> dom (bview b)" "key_of p = key_of q"
  shows "p = q"
  using assms key_of_place by (metis domIff option.inject)

text \<open>A read after a successful write returns bytes that match what was asked for.\<close>

lemma put_then_open:
  assumes inv: "binv b" "keyok key" "temp_suffix (tmp_suffix e)" and q: "place key = Some q"
    and put: "bl_Put B e key r want limit b = (Inr n, b')"
    and op: "bl_Open B key b' = (Inr (File c), b'')"
  shows "genuine want c \<and> n = int (length c)"
proof -
  have "binv b'" using put_inv [OF inv, of r want limit] put by simp
  then have "bview b' q = Some c" using open_ok q op by blast
  with put_ok [OF inv put] q show ?thesis by auto
qed

end

text \<open>A blob store on a day when no system call fails.\<close>

locale quiet_blob_store = blob_store +
  fixes quiet :: "'a \<Rightarrow> bool"
  assumes del_quiet: "binv b \<Longrightarrow> quiet b \<Longrightarrow> place key = Some q \<Longrightarrow>
        quiet (snd (bl_Delete B key b)) \<and> bview (snd (bl_Delete B key b)) = (bview b)(q := None)"
    and open_quiet: "binv b \<Longrightarrow> quiet b \<Longrightarrow> place key = Some q \<Longrightarrow> bview b q = Some c \<Longrightarrow>
        bl_Open B key b = (Inr (File c), b)"
    and list_quiet: "quiet b \<Longrightarrow> quiet (snd (bl_List B b)) \<or> \<not> binv b"
begin

lemma delete_each_exact:
  assumes "binv b" "quiet b" "\<forall>k \<in> set ks. place k \<noteq> None"
  shows "bview (delete_each B ks b) q = (if \<exists>k \<in> set ks. place k = Some q then None else bview b q)
     \<and> quiet (delete_each B ks b)"
  using assms
proof (induction ks arbitrary: b)
  case (Cons k ks)
  then obtain p where p: "place k = Some p" by auto
  from del_quiet [OF Cons.prems(1,2) p] Cons.IH [OF del_inv [OF Cons.prems(1)]] Cons.prems(3) p
  show ?case by (auto split: if_splits)
qed simp

end

section \<open>State stores\<close>

text \<open>
  \<open>declared\<close> is what a state store knows about its parts: the declaration made at creation
  and whether the part was recorded as uploaded.
\<close>

type_synonym part_table = "string \<times> string \<Rightarrow> (PartMeta \<times> bool) option"

definition declare_parts :: "string \<Rightarrow> PartMeta list \<Rightarrow> part_table \<Rightarrow> part_table" where
  "declare_parts i ps t =
     (\<lambda>(j, p). if j = i then map_option (\<lambda>m. (m, False)) (List.find (\<lambda>m. PartID m = p) ps) else t (j, p))"

definition mark_part :: "string \<times> string \<Rightarrow> part_table \<Rightarrow> part_table" where
  "mark_part k t = t(k := map_option (\<lambda>(m, _). (m, True)) (t k))"

definition drop_sends :: "string set \<Rightarrow> part_table \<Rightarrow> part_table" where
  "drop_sends dead t = (\<lambda>(j, p). if j \<in> dead then None else t (j, p))"

definition storage_keys :: "part_table \<Rightarrow> string set" where
  "storage_keys t = {StorageKey i p |i p. t (i, p) \<noteq> None}"

locale state_store =
  fixes S :: "'s state_ops"
    and sinv :: "'s \<Rightarrow> bool"
    and declared :: "'s \<Rightarrow> part_table"
    and idok :: "string \<Rightarrow> bool"
  assumes idok_slash: "idok i \<Longrightarrow> CHR ''/'' \<notin> set i"
    and declared_idok: "sinv s \<Longrightarrow> declared s (i, p) \<noteq> None \<Longrightarrow> idok i"
    and status_keep: "sinv s \<Longrightarrow> sinv (snd (st_SendStatusOf S i s)) \<and> declared (snd (st_SendStatusOf S i s)) = declared s"
    and part_keep: "sinv s \<Longrightarrow> sinv (snd (st_DeclaredPart S i p s)) \<and> declared (snd (st_DeclaredPart S i p s)) = declared s"
    and part_ok: "sinv s \<Longrightarrow> st_DeclaredPart S i p s = (Inr (m, up), s') \<Longrightarrow> declared s (i, p) = Some (m, up)"
    and part_id: "sinv s \<Longrightarrow> declared s (i, p) = Some (m, up) \<Longrightarrow> PartID m = p"
    and validate_keep: "sinv s \<Longrightarrow> sinv (snd (st_ValidateGrant S e i h s)) \<and> declared (snd (st_ValidateGrant S e i h s)) = declared s"
    and meta_keep: "sinv s \<Longrightarrow> sinv (snd (st_GetSendMeta S i s)) \<and> declared (snd (st_GetSendMeta S i s)) = declared s"
    and finalize_keep: "sinv s \<Longrightarrow> sinv (snd (st_FinalizeSend S e i s)) \<and> declared (snd (st_FinalizeSend S e i s)) = declared s"
    and redeem_keep: "sinv s \<Longrightarrow> sinv (snd (st_RedeemSend S e i s)) \<and> declared (snd (st_RedeemSend S e i s)) = declared s"
    and live_keep: "sinv s \<Longrightarrow> sinv (snd (st_LiveStorageKeys S s)) \<and> declared (snd (st_LiveStorageKeys S s)) = declared s"
    and close_keep: "sinv s \<Longrightarrow> sinv (snd (st_Close S s)) \<and> declared (snd (st_Close S s)) = declared s"
    and live_ok: "sinv s \<Longrightarrow> st_LiveStorageKeys S s = (Inr ks, s') \<Longrightarrow> set ks = storage_keys (declared s)"
    and create_inv: "sinv s \<Longrightarrow> sinv (snd (st_CreateSend S e inp s))"
    and create_ok: "sinv s \<Longrightarrow> st_CreateSend S e inp s = (Inr r, s') \<Longrightarrow>
        idok (rec_ID r) \<and> (\<forall>p. declared s (rec_ID r, p) = None)
        \<and> declared s' = declare_parts (rec_ID r) (in_Parts inp) (declared s)"
    and create_err: "sinv s \<Longrightarrow> st_CreateSend S e inp s = (Inl x, s') \<Longrightarrow> declared s' = declared s"
    and mark_inv: "sinv s \<Longrightarrow> sinv (snd (st_MarkUploaded S e i p s))"
    and mark_view: "sinv s \<Longrightarrow> declared (snd (st_MarkUploaded S e i p s))
        = (if isl (fst (st_MarkUploaded S e i p s)) then declared s else mark_part (i, p) (declared s))"
    and delete_inv: "sinv s \<Longrightarrow> sinv (snd (st_DeleteExpired S now s))"
    and delete_ok: "sinv s \<Longrightarrow> st_DeleteExpired S now s = (Inr (n, keys), s') \<Longrightarrow>
        \<exists>dead. declared s' = drop_sends dead (declared s)
          \<and> set keys = {StorageKey i p |i p. i \<in> dead \<and> declared s (i, p) \<noteq> None}"
    and delete_err: "sinv s \<Longrightarrow> st_DeleteExpired S now s = (Inl x, s') \<Longrightarrow> declared s' = declared s"
    and granted_uploaded: "sinv s \<Longrightarrow> st_ValidateGrant S e i h s = (Inr u, s') \<Longrightarrow>
        declared s (i, p) = Some (m, up) \<Longrightarrow> up"
begin

lemma delete_live_disjoint:
  assumes inv: "sinv s" and ok: "st_DeleteExpired S now s = (Inr (n, keys), s')"
    and k: "k \<in> set keys"
  shows "k \<notin> storage_keys (declared s')"
proof
  assume live: "k \<in> storage_keys (declared s')"
  from delete_ok [OF inv ok] obtain dead where d: "declared s' = drop_sends dead (declared s)"
    and keys: "set keys = {StorageKey i p |i p. i \<in> dead \<and> declared s (i, p) \<noteq> None}" by blast
  from k keys obtain i p where i: "k = StorageKey i p" "i \<in> dead" "declared s (i, p) \<noteq> None" by blast
  from live obtain j q where jq: "k = StorageKey j q" "declared s' (j, q) \<noteq> None"
    unfolding storage_keys_def by blast
  then have j: "j \<notin> dead" "declared s (j, q) \<noteq> None" by (simp_all add: d drop_sends_def split: if_splits)
  have "i = j"
    using StorageKey_inj [OF idok_slash idok_slash] declared_idok [OF inv i(3)] declared_idok [OF inv j(2)]
      i(1) jq(1) by metis
  with i(2) j(1) show False by simp
qed

end

end
