(* ===== verification/Coordinator.thy ===== *)
theory Coordinator
  imports Interfaces
begin

text \<open>
  \<open>server/internal/store/coordinator.go\<close>: the composition of a state store and a blob store.
  The two stores are the interface values \<open>S\<close> and \<open>B\<close>. The step relation \<open>co_trans\<close> has a
  rule for every call and one for every point between two store calls at which the process
  may die.
\<close>

section \<open>The program\<close>

record ('s, 'b) coordinator =
  state :: 's
  blob :: 'b
  maxPartBytes :: int

definition NewCoordinator :: "'s \<Rightarrow> 'b \<Rightarrow> int \<Rightarrow> ('s, 'b) coordinator" where
  "NewCoordinator s b n = \<lparr>state = s, blob = b, maxPartBytes = n\<rparr>"

definition on_state :: "('s \<Rightarrow> 'a result \<times> 's) \<Rightarrow> ('s, 'b) coordinator \<Rightarrow> 'a result \<times> ('s, 'b) coordinator" where
  "on_state f c = (let (r, s) = f (state c) in (r, c\<lparr>state := s\<rparr>))"

definition on_blob :: "('b \<Rightarrow> 'a result \<times> 'b) \<Rightarrow> ('s, 'b) coordinator \<Rightarrow> 'a result \<times> ('s, 'b) coordinator" where
  "on_blob f c = (let (r, b) = f (blob c) in (r, c\<lparr>blob := b\<rparr>))"

definition co_CreateSend :: "'s state_ops \<Rightarrow> env \<Rightarrow> CreateSendInput \<Rightarrow> ('s, 'b) coordinator \<Rightarrow> SendRecord result \<times> ('s, 'b) coordinator" where
  "co_CreateSend S e inp c = on_state (st_CreateSend S e inp) c"

text \<open>\<open>upload_check\<close> is \<open>PutPart\<close> up to the call of \<open>blob.Put\<close>.\<close>

definition upload_check :: "'s state_ops \<Rightarrow> string \<Rightarrow> string \<Rightarrow> PartMeta \<Rightarrow> ('s, 'b) coordinator \<Rightarrow> PartMeta result \<times> ('s, 'b) coordinator" where
  "upload_check S sid pid declared c =
     on_ok (on_state (st_SendStatusOf S sid) c) (\<lambda>status c.
       if status \<noteq> SendStatusCreating then (Inl ErrConflict, c)
       else
         on_ok (on_state (st_DeclaredPart S sid pid) c) (\<lambda>(stored, _) c.
           if SHA256 declared \<noteq> [] \<and> SHA256 declared \<noteq> SHA256 stored then (Inl ErrIntegrity, c)
           else (Inr \<lparr>PartID = pid, EncryptedSize = EncryptedSize stored, SHA256 = SHA256 stored\<rparr>, c)))"

definition PutPart :: "'s state_ops \<Rightarrow> 'b blob_ops \<Rightarrow> env \<Rightarrow> string \<Rightarrow> string \<Rightarrow> reader \<Rightarrow> PartMeta \<Rightarrow> ('s, 'b) coordinator \<Rightarrow> int result \<times> ('s, 'b) coordinator" where
  "PutPart S B e sid pid r declared c =
     on_ok (upload_check S sid pid declared c) (\<lambda>want c.
     on_ok (on_blob (bl_Put B e (StorageKey sid pid) r want (maxPartBytes c)) c) (\<lambda>n c.
     on_ok (on_state (st_MarkUploaded S e sid pid) c) (\<lambda>_ c. (Inr n, c))))"

definition co_FinalizeSend :: "'s state_ops \<Rightarrow> env \<Rightarrow> string \<Rightarrow> ('s, 'b) coordinator \<Rightarrow> unit result \<times> ('s, 'b) coordinator" where
  "co_FinalizeSend S e sid c = on_state (st_FinalizeSend S e sid) c"

definition co_RedeemSend :: "'s state_ops \<Rightarrow> env \<Rightarrow> string \<Rightarrow> ('s, 'b) coordinator \<Rightarrow> RedeemGrant result \<times> ('s, 'b) coordinator" where
  "co_RedeemSend S e sid c = on_state (st_RedeemSend S e sid) c"

definition GetPart :: "'s state_ops \<Rightarrow> 'b blob_ops \<Rightarrow> env \<Rightarrow> string \<Rightarrow> string \<Rightarrow> string \<Rightarrow> ('s, 'b) coordinator \<Rightarrow> handle result \<times> ('s, 'b) coordinator" where
  "GetPart S B e sid pid redeemToken c =
     on_ok (on_state (st_ValidateGrant S e sid (HashToken redeemToken)) c) (\<lambda>_ c.
     on_ok (on_state (st_DeclaredPart S sid pid) c) (\<lambda>_ c.
     on_blob (bl_Open B (StorageKey sid pid)) c))"

definition co_GetSendMeta :: "'s state_ops \<Rightarrow> string \<Rightarrow> ('s, 'b) coordinator \<Rightarrow> SendMeta result \<times> ('s, 'b) coordinator" where
  "co_GetSendMeta S sid c = on_state (st_GetSendMeta S sid) c"

definition co_DeleteExpired :: "'s state_ops \<Rightarrow> 'b blob_ops \<Rightarrow> int \<Rightarrow> ('s, 'b) coordinator \<Rightarrow> nat result \<times> ('s, 'b) coordinator" where
  "co_DeleteExpired S B now c =
     on_ok (on_state (st_DeleteExpired S now) c) (\<lambda>(n, keys) c.
       (Inr n, c\<lparr>blob := delete_each B keys (blob c)\<rparr>))"

text \<open>\<open>orphans\<close> is the set difference that the sweep deletes, in the order of the listing.\<close>

definition orphans :: "string list \<Rightarrow> string list \<Rightarrow> string list" where
  "orphans live stored = filter (\<lambda>k. k \<notin> set live) stored"

definition OrphanSweep :: "'s state_ops \<Rightarrow> 'b blob_ops \<Rightarrow> ('s, 'b) coordinator \<Rightarrow> nat result \<times> ('s, 'b) coordinator" where
  "OrphanSweep S B c =
     on_ok (on_state (st_LiveStorageKeys S) c) (\<lambda>live c.
     on_ok (on_blob (bl_List B) c) (\<lambda>stored c.
       (Inr (length (orphans live stored)), c\<lparr>blob := delete_each B (orphans live stored) (blob c)\<rparr>)))"

definition co_Close :: "'s state_ops \<Rightarrow> ('s, 'b) coordinator \<Rightarrow> unit result \<times> ('s, 'b) coordinator" where
  "co_Close S c = on_state (st_Close S) c"

section \<open>Steps, crashes included\<close>

inductive co_trans :: "'s state_ops \<Rightarrow> 'b blob_ops \<Rightarrow> (string \<Rightarrow> bool) \<Rightarrow> ('s, 'b) coordinator \<Rightarrow> ('s, 'b) coordinator \<Rightarrow> bool"
  for S B partok where
  create: "\<forall>m \<in> set (in_Parts inp). partok (PartID m) \<Longrightarrow> co_trans S B partok c (snd (co_CreateSend S e inp c))"
| put: "temp_suffix (tmp_suffix e) \<Longrightarrow> co_trans S B partok c (snd (PutPart S B e sid pid r d c))"
| put_crash: "temp_suffix (tmp_suffix e) \<Longrightarrow> upload_check S sid pid d c = (Inr want, c1) \<Longrightarrow>
     co_trans S B partok c (snd (on_blob (bl_Put B e (StorageKey sid pid) r want (maxPartBytes c1)) c1))"
| finalize: "co_trans S B partok c (snd (co_FinalizeSend S e sid c))"
| redeem: "co_trans S B partok c (snd (co_RedeemSend S e sid c))"
| get: "co_trans S B partok c (snd (GetPart S B e sid pid token c))"
| meta: "co_trans S B partok c (snd (co_GetSendMeta S sid c))"
| delete: "co_trans S B partok c (snd (co_DeleteExpired S B now c))"
| delete_crash: "on_state (st_DeleteExpired S now) c = (Inr (n, keys), c1) \<Longrightarrow>
     co_trans S B partok c (c1\<lparr>blob := delete_each B (take k keys) (blob c1)\<rparr>)"
| sweep: "co_trans S B partok c (snd (OrphanSweep S B c))"
| sweep_crash: "on_state (st_LiveStorageKeys S) c = (Inr live, c1) \<Longrightarrow> on_blob (bl_List B) c1 = (Inr stored, c2) \<Longrightarrow>
     co_trans S B partok c (c2\<lparr>blob := delete_each B (take k (orphans live stored)) (blob c2)\<rparr>)"

text \<open>The states a coordinator reaches from \<open>c0\<close>.\<close>

inductive co_reach :: "'s state_ops \<Rightarrow> 'b blob_ops \<Rightarrow> (string \<Rightarrow> bool) \<Rightarrow> ('s, 'b) coordinator \<Rightarrow> ('s, 'b) coordinator \<Rightarrow> bool"
  for S B partok c0 where
  init: "co_reach S B partok c0 c0"
| step: "co_reach S B partok c0 c \<Longrightarrow> co_trans S B partok c c' \<Longrightarrow> co_reach S B partok c0 c'"

inductive_cases co_transE: "co_trans S B partok c c'"

lemma on_state_simps [simp]:
  "blob (snd (on_state f c)) = blob c" "maxPartBytes (snd (on_state f c)) = maxPartBytes c"
  "state (snd (on_state f c)) = snd (f (state c))" "fst (on_state f c) = fst (f (state c))"
  by (simp_all add: on_state_def split: prod.split)

lemma on_blob_simps [simp]:
  "state (snd (on_blob f c)) = state c" "maxPartBytes (snd (on_blob f c)) = maxPartBytes c"
  "blob (snd (on_blob f c)) = snd (f (blob c))" "fst (on_blob f c) = fst (f (blob c))"
  by (simp_all add: on_blob_def split: prod.split)

lemma on_state_eq: "on_state f c = (x, c') \<longleftrightarrow> fst (f (state c)) = x \<and> c' = c\<lparr>state := snd (f (state c))\<rparr>"
  by (auto simp: on_state_def split: prod.split)

lemma on_blob_eq: "on_blob f c = (x, c') \<longleftrightarrow> fst (f (blob c)) = x \<and> c' = c\<lparr>blob := snd (f (blob c))\<rparr>"
  by (auto simp: on_blob_def split: prod.split)

end
