(* ===== verification/CoordinatorLaws.thy ===== *)
theory CoordinatorLaws
  imports Coordinator
begin

text \<open>
  What a coordinator guarantees over any state store and blob store that obey the laws of
  their interfaces: \<open>coupled\<close> says that every part recorded as uploaded has its declared
  bytes in the blob store. It survives every call and every crash between two calls.
\<close>

text \<open>Two declared parts never share a place when keys are canonical: a place has one key.\<close>

definition parts_canonical :: "(string \<Rightarrow> path option) \<Rightarrow> (path \<Rightarrow> string) \<Rightarrow> part_table \<Rightarrow> bool" where
  "parts_canonical place key_of t \<longleftrightarrow>
     (\<forall>i p q. t (i, p) \<noteq> None \<longrightarrow> place (StorageKey i p) = Some q \<longrightarrow> key_of q = StorageKey i p)"

definition blobs_genuine :: "(string \<Rightarrow> path option) \<Rightarrow> part_table \<Rightarrow> (path \<Rightarrow> string option) \<Rightarrow> bool" where
  "blobs_genuine place t v \<longleftrightarrow>
     (\<forall>i p m q. t (i, p) = Some (m, True) \<longrightarrow> place (StorageKey i p) = Some q \<longrightarrow>
        (\<exists>c. v q = Some c \<and> genuine m c))"

lemma blobs_genuine_mark:
  assumes "blobs_genuine place t v"
    and "\<And>m up q. t (i, p) = Some (m, up) \<Longrightarrow> place (StorageKey i p) = Some q \<Longrightarrow> \<exists>c. v q = Some c \<and> genuine m c"
  shows "blobs_genuine place (mark_part (i, p) t) v"
  using assms unfolding blobs_genuine_def mark_part_def by (auto split: if_splits)

lemma parts_canonical_mark: "parts_canonical place key_of t \<Longrightarrow> parts_canonical place key_of (mark_part k t)"
  unfolding parts_canonical_def mark_part_def by (auto split: if_splits)

lemma parts_canonical_drop: "parts_canonical place key_of t \<Longrightarrow> parts_canonical place key_of (drop_sends I t)"
  unfolding parts_canonical_def drop_sends_def by auto

lemma blobs_genuine_drop: "blobs_genuine place t v \<Longrightarrow> blobs_genuine place (drop_sends I t) v"
  unfolding blobs_genuine_def drop_sends_def by auto

lemma blobs_genuine_declare:
  "blobs_genuine place t v \<Longrightarrow> (\<forall>p. t (i, p) = None) \<Longrightarrow> blobs_genuine place (declare_parts i ps t) v"
  unfolding blobs_genuine_def declare_parts_def by (auto split: if_splits)

lemma blobs_genuine_view:
  assumes "blobs_genuine place t v"
    and "\<And>i p q. t (i, p) \<noteq> None \<Longrightarrow> place (StorageKey i p) = Some q \<Longrightarrow> v' q = v q"
  shows "blobs_genuine place t v'"
  using assms unfolding blobs_genuine_def by (metis option.distinct(1))

locale coordinated_stores =
  state_store S sinv declared idok + blob_store B binv bview place key_of keyok
  for S :: "'s state_ops" and sinv declared idok
    and B :: "'b blob_ops" and binv bview place key_of keyok +
  fixes partok :: "string \<Rightarrow> bool"
  assumes id_keyok: "idok i \<Longrightarrow> keyok (StorageKey i p)"
    and partok_canonical: "idok i \<Longrightarrow> partok p \<Longrightarrow> place (StorageKey i p) = Some q \<Longrightarrow> key_of q = StorageKey i p"
begin

abbreviation coupled :: "('s, 'b) coordinator \<Rightarrow> bool" where
  "coupled c \<equiv> sinv (state c) \<and> binv (blob c) \<and> parts_canonical place key_of (declared (state c))
     \<and> blobs_genuine place (declared (state c)) (bview (blob c))"

lemma same_place:
  assumes s: "sinv s" and can: "parts_canonical place key_of (declared s)"
    and d: "declared s (i, p) \<noteq> None" "declared s (j, r) \<noteq> None"
    and q: "place (StorageKey i p) = Some q" "place (StorageKey j r) = Some q"
  shows "i = j \<and> p = r"
proof -
  have "StorageKey i p = StorageKey j r"
    using can d q unfolding parts_canonical_def by metis
  then show ?thesis
    using StorageKey_inj [OF idok_slash idok_slash] declared_idok [OF s d(1)] declared_idok [OF s d(2)] by metis
qed

section \<open>Uploads\<close>

lemma upload_check_effect:
  assumes s: "sinv (state c)" and u: "upload_check S sid pid d c = (r, c')"
  shows "sinv (state c') \<and> declared (state c') = declared (state c) \<and> blob c' = blob c \<and> maxPartBytes c' = maxPartBytes c
     \<and> (\<forall>want. r = Inr want \<longrightarrow> (\<exists>up. declared (state c) (sid, pid) = Some (want, up)))"
proof -
  let ?c1 = "snd (on_state (st_SendStatusOf S sid) c)"
  let ?c2 = "snd (on_state (st_DeclaredPart S sid pid) ?c1)"
  have k1: "sinv (state ?c1)" "declared (state ?c1) = declared (state c)"
    using status_keep [OF s, of sid] by simp_all
  have k2: "sinv (state ?c2)" "declared (state ?c2) = declared (state c)"
    using part_keep [OF k1(1), of sid pid] k1(2) by simp_all
  have d2: "declared (state c) (sid, pid) = Some (m, up)"
    if "st_DeclaredPart S sid pid (state ?c1) = (Inr (m, up), s')" for m up s'
    using part_ok [OF k1(1) that] k1(2) by simp
  have d3: "PartID m = pid" if "declared (state c) (sid, pid) = Some (m, up)" for m up
    using part_id [OF s that] .
  consider "c' = ?c1" "\<forall>want. r \<noteq> Inr want" | "c' = ?c2" "\<forall>want. r \<noteq> Inr want"
    | m up where "c' = ?c2" "fst (on_state (st_DeclaredPart S sid pid) ?c1) = Inr (m, up)"
        "r = Inr \<lparr>PartID = pid, EncryptedSize = EncryptedSize m, SHA256 = SHA256 m\<rparr>"
    using u unfolding upload_check_def on_ok_def by (auto split: sum.splits if_splits)
  then show ?thesis
  proof cases
    case (3 m up)
    then have "declared (state c) (sid, pid) = Some (m, up)"
      using d2 [of m up "snd (st_DeclaredPart S sid pid (state ?c1))"] by (simp add: prod_eq_iff)
    moreover from d3 [OF this] have "r = Inr m" using 3(3) by simp
    ultimately show ?thesis using k2 3(1) by simp
  qed (use k1 k2 in auto)
qed

lemma blob_put_coupled:
  assumes c: "coupled c" and sfx: "temp_suffix (tmp_suffix e)"
    and d: "declared (state c) (sid, pid) = Some (want, up)"
    and p: "on_blob (bl_Put B e (StorageKey sid pid) r want limit) c = (x, c')"
  shows "coupled c' \<and> state c' = state c
     \<and> (\<forall>n q. x = Inr n \<longrightarrow> place (StorageKey sid pid) = Some q \<longrightarrow>
          (\<exists>d. bview (blob c') q = Some d \<and> genuine want d))"
proof -
  obtain b' where b: "bl_Put B e (StorageKey sid pid) r want limit (blob c) = (x, b')" and c': "c' = c\<lparr>blob := b'\<rparr>"
    using p by (auto simp: on_blob_eq prod_eq_iff)
  have ko: "keyok (StorageKey sid pid)" using id_keyok declared_idok [of "state c" sid pid] c d by simp
  have binv': "binv b'" using put_inv [OF _ ko sfx, of "blob c" r want limit] c b by simp
  show ?thesis
  proof (cases x)
    case (Inl y)
    then have "bview b' = bview (blob c)" using put_err [OF _ ko sfx] b c by blast
    with Inl c binv' show ?thesis by (simp add: c')
  next
    case (Inr n)
    then obtain t where t: "genuine want t"
      and v: "bview b' = (case place (StorageKey sid pid) of None \<Rightarrow> bview (blob c) | Some q \<Rightarrow> (bview (blob c))(q \<mapsto> t))"
      using put_ok [OF _ ko sfx] b c by blast
    have "blobs_genuine place (declared (state c)) (bview b')"
    proof (cases "place (StorageKey sid pid)")
      case None
      with v c show ?thesis by simp
    next
      case (Some q)
      show ?thesis
        unfolding blobs_genuine_def
      proof (intro allI impI)
        fix i p' m q' assume a: "declared (state c) (i, p') = Some (m, True)" "place (StorageKey i p') = Some q'"
        show "\<exists>d. bview b' q' = Some d \<and> genuine m d"
        proof (cases "q' = q")
          case True
          with same_place [of "state c" i p' sid pid q] c a d Some have "i = sid \<and> p' = pid" by auto
          with a d have "m = want" by simp
          with True v Some t show ?thesis by simp
        next
          case False
          with v Some have "bview b' q' = bview (blob c) q'" by simp
          with c a show ?thesis unfolding blobs_genuine_def by metis
        qed
      qed
    qed
    with c binv' t v Inr show ?thesis by (simp add: c')
  qed
qed

lemma PutPart_coupled:
  assumes c: "coupled c" and sfx: "temp_suffix (tmp_suffix e)" and p: "PutPart S B e sid pid r d c = (x, c')"
  shows "coupled c'"
proof -
  obtain y c1 where u: "upload_check S sid pid d c = (y, c1)" by force
  have e1: "sinv (state c1) \<and> declared (state c1) = declared (state c) \<and> blob c1 = blob c
     \<and> (\<forall>want. y = Inr want \<longrightarrow> (\<exists>up. declared (state c) (sid, pid) = Some (want, up)))"
    using upload_check_effect [OF _ u] c by blast
  then have c1: "coupled c1" using c by simp
  show ?thesis
  proof (cases y)
    case (Inl e)
    with p u c1 show ?thesis by (auto simp: PutPart_def)
  next
    case (Inr want)
    with e1 obtain up where d1: "declared (state c1) (sid, pid) = Some (want, up)" by auto
    obtain z c2 where b: "on_blob (bl_Put B e (StorageKey sid pid) r want (maxPartBytes c1)) c1 = (z, c2)" by force
    note e2 = blob_put_coupled [OF c1 sfx d1 b]
    show ?thesis
    proof (cases z)
      case (Inl e)
      with p u Inr b e2 show ?thesis by (auto simp: PutPart_def)
    next
      case z: (Inr n)
      let ?c3 = "snd (on_state (st_MarkUploaded S e sid pid) c2)"
      have c3: "c' = ?c3"
        using p unfolding PutPart_def u Inr on_ok_Inr b z by (auto simp: on_ok_def split: sum.splits)
      have c2: "coupled c2" "state c2 = state c1" using e2 by blast+
      have mi: "sinv (snd (st_MarkUploaded S e sid pid (state c2)))"
        and mv: "declared (snd (st_MarkUploaded S e sid pid (state c2)))
          = (if isl (fst (st_MarkUploaded S e sid pid (state c2))) then declared (state c2)
             else mark_part (sid, pid) (declared (state c2)))"
        using c2(1) by (simp_all only: mark_inv mark_view)
      have "coupled ?c3"
      proof (cases "isl (fst (st_MarkUploaded S e sid pid (state c2)))")
        case True
        with mv mi c2(1) show ?thesis by simp
      next
        case False
        have "blobs_genuine place (mark_part (sid, pid) (declared (state c2))) (bview (blob c2))"
          using e2 z d1 by (intro blobs_genuine_mark) auto
        with False mv mi c2(1) show ?thesis by (simp add: parts_canonical_mark)
      qed
      then show ?thesis by (simp add: c3)
    qed
  qed
qed

section \<open>Sweeps\<close>

lemma delete_keys_coupled:
  assumes c: "coupled c"
    and away: "\<And>k i p q. k \<in> set ks \<Longrightarrow> declared (state c) (i, p) \<noteq> None \<Longrightarrow>
        place (StorageKey i p) = Some q \<Longrightarrow> place k \<noteq> Some q"
  shows "coupled (c\<lparr>blob := delete_each B ks (blob c)\<rparr>)"
proof -
  have "blobs_genuine place (declared (state c)) (bview (delete_each B ks (blob c)))"
  proof (rule blobs_genuine_view)
    fix i p q assume "declared (state c) (i, p) \<noteq> None" "place (StorageKey i p) = Some q"
    with away have "q \<notin> {p. \<exists>k \<in> set ks. place k = Some p}" by blast
    with c show "bview (delete_each B ks (blob c)) q = bview (blob c) q" by (intro delete_each_view) auto
  qed (use c in simp)
  with c delete_each_inv show ?thesis by simp
qed

lemma delete_coupled:
  assumes c: "coupled c" and d: "on_state (st_DeleteExpired S now) c = (Inr (n, keys), c1)" and ks: "set ks \<subseteq> set keys"
  shows "coupled (c1\<lparr>blob := delete_each B ks (blob c1)\<rparr>)"
proof -
  have st: "st_DeleteExpired S now (state c) = (Inr (n, keys), state c1)" and b1: "blob c1 = blob c"
    using d by (auto simp: on_state_eq prod_eq_iff)
  have s: "sinv (state c)" using c by simp
  from delete_ok [OF s st] obtain dead where t1: "declared (state c1) = drop_sends dead (declared (state c))"
    and keys: "set keys = {StorageKey i p |i p. i \<in> dead \<and> declared (state c) (i, p) \<noteq> None}" by blast
  have s1: "sinv (state c1)" using delete_inv [OF s, of now] st by simp
  have c1: "coupled c1"
    using c s1 by (simp add: t1 b1 parts_canonical_drop blobs_genuine_drop)
  then show ?thesis
  proof (rule delete_keys_coupled)
    fix k i p q assume k: "k \<in> set ks" and dp: "declared (state c1) (i, p) \<noteq> None" and q: "place (StorageKey i p) = Some q"
    show "place k \<noteq> Some q"
    proof
      assume kq: "place k = Some q"
      from k ks keys obtain j r where j: "k = StorageKey j r" "j \<in> dead" "declared (state c) (j, r) \<noteq> None" by blast
      from dp have i: "i \<notin> dead" "declared (state c) (i, p) \<noteq> None"
        by (simp_all add: t1 drop_sends_def split: if_splits)
      have can: "parts_canonical place key_of (declared (state c))" using c by simp
      have "i = j \<and> p = r" using same_place [OF s can i(2) j(3) q] kq j(1) by simp
      with i j show False by simp
    qed
  qed
qed

lemma sweep_away:
  assumes c: "coupled c" and st: "bl_List B (blob c) = (Inr stored, b')" and live: "storage_keys (declared (state c)) \<subseteq> set live"
    and k: "k \<in> set (orphans live stored)" and dp: "declared (state c) (i, p) \<noteq> None"
    and q: "place (StorageKey i p) = Some q"
  shows "place k \<noteq> Some q"
proof
  assume kq: "place k = Some q"
  have b: "binv (blob c)" using c by simp
  from k have "k \<in> set stored" "k \<notin> set live" by (auto simp: orphans_def)
  with list_ok [OF b st] obtain q' where q': "k = key_of q'" "q' \<in> dom (bview (blob c))" by auto
  have "place (key_of q') = Some q'" using key_of_place [OF b] q'(2) by (auto simp: dom_def)
  with kq q'(1) have "q' = q" by simp
  moreover have "key_of q = StorageKey i p" using c dp q unfolding parts_canonical_def by metis
  ultimately have "k = StorageKey i p" using q'(1) by simp
  then have "k \<in> set live" using live dp unfolding storage_keys_def by blast
  with \<open>k \<notin> set live\<close> show False ..
qed

lemma sweep_coupled:
  assumes c: "coupled c" and l: "on_state (st_LiveStorageKeys S) c = (Inr live, c1)"
    and st: "on_blob (bl_List B) c1 = (Inr stored, c2)" and ks: "set ks \<subseteq> set (orphans live stored)"
  shows "coupled c2 \<and> coupled (c2\<lparr>blob := delete_each B ks (blob c2)\<rparr>) \<and> declared (state c2) = declared (state c)
     \<and> bview (blob c2) = bview (blob c) \<and> set live = storage_keys (declared (state c))
     \<and> set stored = key_of ` dom (bview (blob c))"
proof -
  have s: "sinv (state c)" and b: "binv (blob c)" using c by auto
  have l': "st_LiveStorageKeys S (state c) = (Inr live, state c1)" and b1: "blob c1 = blob c"
    using l by (auto simp: on_state_eq prod_eq_iff)
  have s1: "sinv (state c1)" "declared (state c1) = declared (state c)" using live_keep [OF s] l' by simp_all
  have live: "set live = storage_keys (declared (state c))" using live_ok [OF s l'] .
  have st': "bl_List B (blob c) = (Inr stored, blob c2)" and s2: "state c2 = state c1"
    using st b1 by (auto simp: on_blob_eq prod_eq_iff)
  have b2: "binv (blob c2)" "bview (blob c2) = bview (blob c)" using list_keep [OF b] st' by simp_all
  have c2: "coupled c2" using c s1 b2 by (simp add: s2)
  have "coupled (c2\<lparr>blob := delete_each B ks (blob c2)\<rparr>)"
  proof (rule delete_keys_coupled [OF c2])
    fix k i p q assume a: "k \<in> set ks" "declared (state c2) (i, p) \<noteq> None" "place (StorageKey i p) = Some q"
    show "place k \<noteq> Some q"
      by (rule sweep_away [OF c st' _ _ _ a(3)]) (use a ks live s1 s2 in auto)
  qed
  with c2 s1 s2 b2 live list_ok [OF b st'] show ?thesis by simp
qed

section \<open>Every step\<close>

lemma state_call_coupled:
  assumes c: "coupled c" and f: "sinv (snd (f (state c)))" "declared (snd (f (state c))) = declared (state c)"
  shows "coupled (snd (on_state f c))"
  using assms by simp

lemma close_coupled: "coupled c \<Longrightarrow> coupled (snd (co_Close S c))"
  unfolding co_Close_def by (rule state_call_coupled) (auto dest: close_keep)

lemma create_coupled:
  assumes c: "coupled c" and ok: "\<forall>m \<in> set (in_Parts inp). partok (PartID m)"
  shows "coupled (snd (co_CreateSend S e inp c))"
proof (cases "st_CreateSend S e inp (state c)")
  case (Pair x s')
  have s: "sinv (state c)" using c by simp
  have s': "sinv s'" using create_inv [OF s, of e inp] Pair by simp
  show ?thesis
  proof (cases x)
    case (Inl y)
    with create_err [OF s] Pair s' c show ?thesis by (simp add: co_CreateSend_def)
  next
    case (Inr r)
    with create_ok [OF s] Pair have cr: "idok (rec_ID r)" "\<forall>p. declared (state c) (rec_ID r, p) = None"
      "declared s' = declare_parts (rec_ID r) (in_Parts inp) (declared (state c))" by auto
    have "parts_canonical place key_of (declared s')"
      unfolding parts_canonical_def
    proof (intro allI impI)
      fix i p q assume d: "declared s' (i, p) \<noteq> None" and q: "place (StorageKey i p) = Some q"
      show "key_of q = StorageKey i p"
      proof (cases "i = rec_ID r")
        case True
        with d cr(3) obtain m where "List.find (\<lambda>m. PartID m = p) (in_Parts inp) = Some m"
          by (auto simp: declare_parts_def)
        then have "partok p" using ok by (auto dest: find_SomeD)
        with True cr(1) q show ?thesis by (intro partok_canonical) auto
      next
        case False
        with d cr(3) have "declared (state c) (i, p) \<noteq> None" by (simp add: declare_parts_def)
        with c q show ?thesis unfolding parts_canonical_def by metis
      qed
    qed
    with c s' cr Pair show ?thesis by (simp add: co_CreateSend_def blobs_genuine_declare)
  qed
qed

lemma GetPart_run:
  assumes c: "coupled c" and g: "GetPart S B e sid pid token c = (x, c')"
  shows "coupled c' \<and> declared (state c') = declared (state c) \<and> bview (blob c') = bview (blob c)
     \<and> (\<forall>h. x = Inr h \<longrightarrow> (\<exists>m. declared (state c) (sid, pid) = Some (m, True)) \<and>
          (\<exists>b'. bl_Open B (StorageKey sid pid) (blob c) = (Inr h, b'))
          \<and> (\<exists>s'. st_ValidateGrant S e sid (HashToken token) (state c) = (Inr (), s')))"
proof -
  let ?v = "st_ValidateGrant S e sid (HashToken token)"
  let ?c1 = "snd (on_state ?v c)"
  let ?c2 = "snd (on_state (st_DeclaredPart S sid pid) ?c1)"
  let ?c3 = "snd (on_blob (bl_Open B (StorageKey sid pid)) ?c2)"
  have s: "sinv (state c)" and b: "binv (blob c)" using c by auto
  have k1: "sinv (state ?c1)" "declared (state ?c1) = declared (state c)"
    using validate_keep [OF s, of e sid "HashToken token"] by simp_all
  have k2: "sinv (state ?c2)" "declared (state ?c2) = declared (state c)"
    using part_keep [OF k1(1), of sid pid] k1(2) by simp_all
  have k3: "binv (blob ?c3)" "bview (blob ?c3) = bview (blob c)" using open_keep [OF b] by simp_all
  have cp: "coupled ?c1" "coupled ?c2" "coupled ?c3" using c k1 k2 k3 by simp_all
  consider "c' = ?c1" "\<forall>h. x \<noteq> Inr h" | "c' = ?c2" "\<forall>h. x \<noteq> Inr h"
    | m up where "c' = ?c3" "fst (on_state ?v c) = Inr ()"
        "fst (on_state (st_DeclaredPart S sid pid) ?c1) = Inr (m, up)"
        "x = fst (bl_Open B (StorageKey sid pid) (blob ?c2))"
  proof (cases "fst (on_state ?v c)")
    case (Inl y)
    with g that(1) show thesis by (auto simp: GetPart_def on_ok_def)
  next
    case Inr1: (Inr u)
    show thesis
    proof (cases "fst (on_state (st_DeclaredPart S sid pid) ?c1)")
      case (Inl y)
      with g Inr1 that(2) show thesis by (auto simp: GetPart_def on_ok_def)
    next
      case (Inr z)
      with g Inr1 have "(x, c') = on_blob (bl_Open B (StorageKey sid pid)) ?c2" by (simp add: GetPart_def on_ok_def)
      then have "c' = ?c3" "x = fst (bl_Open B (StorageKey sid pid) (blob ?c2))" by (simp_all add: prod_eq_iff)
      with Inr Inr1 that(3) [of "fst z" "snd z"] show thesis by simp
    qed
  qed
  then show ?thesis
  proof cases
    case (3 m up)
    have "declared (state c) (sid, pid) = Some (m, up)"
      using part_ok [OF k1(1), of sid pid m up "state ?c2"] 3(3) k1(2) by (simp add: prod_eq_iff)
    moreover have "st_ValidateGrant S e sid (HashToken token) (state c) = (Inr (), snd (?v (state c)))"
      using 3(2) by (simp add: prod_eq_iff)
    ultimately show ?thesis
      using granted_uploaded [OF s] cp k2 k3 3(1,4) by (auto simp: prod_eq_iff) blast+
  qed (use cp k1 k2 in auto)
qed

lemma trans_coupled:
  assumes "co_trans S B partok c c'" "coupled c"
  shows "coupled c'"
  using assms
proof (induction rule: co_trans.induct)
  case (create inp c e)
  then show ?case by (intro create_coupled)
next
  case (put e c sid pid r d)
  show ?case by (rule PutPart_coupled [OF put.prems put.hyps surjective_pairing])
next
  case (put_crash e sid pid d c want c1 r)
  from upload_check_effect [OF _ put_crash.hyps(2)] put_crash.prems
  obtain up where "coupled c1" "declared (state c1) (sid, pid) = Some (want, up)" by auto
  from blob_put_coupled [OF this(1) put_crash.hyps(1) this(2) surjective_pairing] show ?case by blast
next
  case (finalize c e sid)
  then show ?case unfolding co_FinalizeSend_def using finalize_keep by (intro state_call_coupled) auto
next
  case (redeem c e sid)
  then show ?case unfolding co_RedeemSend_def using redeem_keep by (intro state_call_coupled) auto
next
  case (get c e sid pid token)
  from GetPart_run [OF get.prems surjective_pairing] show ?case by blast
next
  case (meta c sid)
  then show ?case unfolding co_GetSendMeta_def using meta_keep by (intro state_call_coupled) auto
next
  case (delete c now)
  obtain x c1 where d: "on_state (st_DeleteExpired S now) c = (x, c1)" by force
  show ?case
  proof (cases x)
    case (Inl e)
    have c1: "c1 = c\<lparr>state := snd (st_DeleteExpired S now (state c))\<rparr>" using d by (simp add: on_state_eq)
    have "declared (state c1) = declared (state c)" "sinv (state c1)"
      using delete_err [of "state c" now e "state c1"] delete_inv [of "state c" now] delete.prems d Inl
      by (auto simp: on_state_eq prod_eq_iff)
    with delete.prems have "coupled c1" by (simp add: c1)
    then show ?thesis by (simp add: co_DeleteExpired_def d Inl)
  next
    case (Inr y)
    then obtain n keys where y: "x = Inr (n, keys)" by (cases y) auto
    show ?thesis using delete_coupled [OF delete.prems d [unfolded y], of keys] by (simp add: co_DeleteExpired_def d y)
  qed
next
  case (delete_crash now c n keys c1 k)
  then show ?case by (intro delete_coupled) (auto dest: in_set_takeD)
next
  case (sweep c)
  obtain x c1 where l: "on_state (st_LiveStorageKeys S) c = (x, c1)" by force
  have c1: "coupled c1"
    using sweep.prems live_keep [of "state c"] l by (auto simp: on_state_eq)
  show ?case
  proof (cases x)
    case (Inl e)
    with c1 show ?thesis by (simp add: OrphanSweep_def l)
  next
    case (Inr live)
    obtain y c2 where st: "on_blob (bl_List B) c1 = (y, c2)" by force
    show ?thesis
    proof (cases y)
      case (Inl e)
      have "coupled c2" using c1 list_keep [of "blob c1"] st by (auto simp: on_blob_eq)
      then show ?thesis by (simp add: OrphanSweep_def l Inr st Inl)
    next
      case y: (Inr stored)
      have "coupled (c2\<lparr>blob := delete_each B (orphans live stored) (blob c2)\<rparr>)"
        using sweep_coupled [OF sweep.prems l [unfolded Inr] st [unfolded y] subset_refl] by blast
      then show ?thesis by (simp add: OrphanSweep_def l Inr st y)
    qed
  qed
next
  case (sweep_crash c live c1 stored c2 k)
  then show ?case using sweep_coupled [of c live c1 stored c2 "take k (orphans live stored)"]
    by (auto dest: in_set_takeD)
qed

lemma reach_coupled: "co_reach S B partok c0 c \<Longrightarrow> coupled c0 \<Longrightarrow> coupled c"
proof (induction rule: co_reach.induct)
  case (step c c')
  then show ?case using trans_coupled [OF step.hyps(2)] by blast
qed

lemma GetPart_genuine:
  assumes c: "coupled c" and g: "GetPart S B e sid pid token c = (Inr h, c')" and q: "place (StorageKey sid pid) = Some q"
  shows "\<exists>m d. h = File d \<and> declared (state c) (sid, pid) = Some (m, True) \<and> genuine m d"
proof -
  from GetPart_run [OF c g] obtain m b' where d: "declared (state c) (sid, pid) = Some (m, True)"
    and o': "bl_Open B (StorageKey sid pid) (blob c) = (Inr h, b')" by blast
  have b: "binv (blob c)" using c by simp
  obtain t where t: "bview (blob c) q = Some t" "genuine m t" using c d q unfolding blobs_genuine_def by metis
  have "h \<noteq> Directory" using open_none [OF b q] o' t by auto
  then obtain u where u: "h = File u" by (cases h) auto
  then have "bview (blob c) q = Some u" using open_ok [OF b q] o' by blast
  with t u d show ?thesis by auto
qed

lemma OrphanSweep_safe:
  assumes c: "coupled c" and o': "OrphanSweep S B c = (Inr n, c')"
    and d: "declared (state c) (i, p) \<noteq> None" "place (StorageKey i p) = Some q"
  shows "bview (blob c') q = bview (blob c) q \<and> declared (state c') = declared (state c)"
proof -
  from o' obtain live c1 stored c2 where l: "on_state (st_LiveStorageKeys S) c = (Inr live, c1)"
    and st: "on_blob (bl_List B) c1 = (Inr stored, c2)"
    and c': "c' = c2\<lparr>blob := delete_each B (orphans live stored) (blob c2)\<rparr>"
    unfolding OrphanSweep_def by (auto elim!: on_ok_InrE)
  note sw = sweep_coupled [OF c l st subset_refl]
  have "bl_List B (blob c) = (Inr stored, blob c2)"
    using l st by (auto simp: on_state_eq on_blob_eq prod_eq_iff)
  then have "q \<notin> {p. \<exists>k \<in> set (orphans live stored). place k = Some p}"
    using sweep_away [OF c _ _ _ d] sw by blast
  moreover have "binv (blob c2)" using sw by simp
  ultimately have "bview (delete_each B (orphans live stored) (blob c2)) q = bview (blob c2) q"
    by (intro delete_each_view)
  with sw show ?thesis by (simp add: c')
qed

end

end
