(* ===== verification/Sqlite.thy ===== *)
theory Sqlite
  imports StoreTypes Filepath
begin

text \<open>
  \<open>server/internal/store/sqlite.go\<close>: the state store. The three tables are lists of
  rows in insertion order; each SQL statement of the source is a function on the tables that
  returns \<open>None\<close> where a PRIMARY KEY or a REFERENCES constraint rejects it, and \<open>stmt\<close>
  runs one statement, drawing from \<open>dbFaults\<close> whether the driver fails. With one open
  connection the statements are atomic; the transaction of \<open>CreateSend\<close> is the only
  group of statements that is atomic together, and its deferred rollback restores the tables.
  SQLite's limit on the bound variables of one statement is the field \<open>maxVars\<close>.
\<close>

section \<open>Tables\<close>

record send_row =
  s_id :: string
  s_status :: SendStatus
  s_one_time :: int
  s_created_at :: int
  s_finalized_at :: "int option"
  s_expires_at :: int
  s_consumed_at :: "int option"
  s_total_encrypted_size :: int
  s_part_count :: int

record part_row =
  p_send_id :: string
  p_part_id :: string
  p_storage_key :: string
  p_encrypted_size :: int
  p_sha256 :: string
  p_uploaded_at :: "int option"

record grant_row =
  g_token_hash :: string
  g_send_id :: string
  g_created_at :: int
  g_expires_at :: int
  g_client_ip_hash :: "string option"
  g_user_agent_hash :: "string option"

record tables =
  sends :: "send_row list"
  send_parts :: "part_row list"
  redeem_grants :: "grant_row list"

record sqlite =
  db :: tables
  grantTTL :: int
  maxVars :: nat
  dbFaults :: "bool list"

definition creatingMaxAge :: int where
  "creatingMaxAge = 15 * Minute"

definition boolToInt :: "bool \<Rightarrow> int" where
  "boolToInt b = (if b then 1 else 0)"

section \<open>Statements\<close>

definition stmt :: "string \<Rightarrow> (tables \<Rightarrow> (tables \<times> 'a) option) \<Rightarrow> sqlite \<Rightarrow> 'a result \<times> sqlite" where
  "stmt ctx f s =
     (let (failed, rest) = next_fault (dbFaults s);
          s' = s\<lparr>dbFaults := rest\<rparr>
      in if failed then (Inl (ErrInternal ctx), s')
         else (case f (db s) of
                 None \<Rightarrow> (Inl (ErrInternal ctx), s')
               | Some (d, x) \<Rightarrow> (Inr x, s'\<lparr>db := d\<rparr>)))"

definition query :: "string \<Rightarrow> (tables \<Rightarrow> 'a) \<Rightarrow> sqlite \<Rightarrow> 'a result \<times> sqlite" where
  "query ctx f s = stmt ctx (\<lambda>d. Some (d, f d)) s"

definition find_send :: "string \<Rightarrow> tables \<Rightarrow> send_row option" where
  "find_send sid d = List.find (\<lambda>r. s_id r = sid) (sends d)"

definition find_part :: "string \<Rightarrow> string \<Rightarrow> tables \<Rightarrow> part_row option" where
  "find_part sid pid d = List.find (\<lambda>p. (p_send_id p, p_part_id p) = (sid, pid)) (send_parts d)"

definition parts_of :: "string \<Rightarrow> tables \<Rightarrow> part_row list" where
  "parts_of sid d = filter (\<lambda>p. p_send_id p = sid) (send_parts d)"

definition insert_send :: "send_row \<Rightarrow> tables \<Rightarrow> (tables \<times> unit) option" where
  "insert_send r d =
     (if s_id r \<in> s_id ` set (sends d) then None else Some (d\<lparr>sends := sends d @ [r]\<rparr>, ()))"

definition insert_part :: "part_row \<Rightarrow> tables \<Rightarrow> (tables \<times> unit) option" where
  "insert_part p d =
     (if (p_send_id p, p_part_id p) \<in> (\<lambda>q. (p_send_id q, p_part_id q)) ` set (send_parts d)
         \<or> p_send_id p \<notin> s_id ` set (sends d)
      then None else Some (d\<lparr>send_parts := send_parts d @ [p]\<rparr>, ()))"

definition insert_grant :: "grant_row \<Rightarrow> tables \<Rightarrow> (tables \<times> unit) option" where
  "insert_grant g d =
     (if g_token_hash g \<in> g_token_hash ` set (redeem_grants d)
         \<or> g_send_id g \<notin> s_id ` set (sends d)
      then None else Some (d\<lparr>redeem_grants := redeem_grants d @ [g]\<rparr>, ()))"

text \<open>An UPDATE returns the number of rows it changed.\<close>

definition update_sends :: "(send_row \<Rightarrow> bool) \<Rightarrow> (send_row \<Rightarrow> send_row) \<Rightarrow> tables \<Rightarrow> (tables \<times> nat) option" where
  "update_sends c f d =
     Some (d\<lparr>sends := map (\<lambda>r. if c r then f r else r) (sends d)\<rparr>, length (filter c (sends d)))"

definition update_parts :: "(part_row \<Rightarrow> bool) \<Rightarrow> (part_row \<Rightarrow> part_row) \<Rightarrow> tables \<Rightarrow> (tables \<times> nat) option" where
  "update_parts c f d =
     Some (d\<lparr>send_parts := map (\<lambda>p. if c p then f p else p) (send_parts d)\<rparr>,
           length (filter c (send_parts d)))"

text \<open>A DELETE from \<open>sends\<close> takes the parts and the grants with it (ON DELETE CASCADE).\<close>

definition delete_sends :: "string list \<Rightarrow> tables \<Rightarrow> (tables \<times> unit) option" where
  "delete_sends ids d =
     Some (\<lparr>sends = filter (\<lambda>r. s_id r \<notin> set ids) (sends d),
            send_parts = filter (\<lambda>p. p_send_id p \<notin> set ids) (send_parts d),
            redeem_grants = filter (\<lambda>g. g_send_id g \<notin> set ids) (redeem_grants d)\<rparr>, ())"

section \<open>Opening\<close>

definition empty_tables :: tables where
  "empty_tables = \<lparr>sends = [], send_parts = [], redeem_grants = []\<rparr>"

fun run_all :: "string list \<Rightarrow> sqlite \<Rightarrow> unit result \<times> sqlite" where
  "run_all [] s = (Inr (), s)"
| "run_all (ctx # ctxs) s = on_ok (query ctx (\<lambda>_. ()) s) (\<lambda>_ s. run_all ctxs s)"

definition migrate :: "sqlite \<Rightarrow> unit result \<times> sqlite" where
  "migrate s = run_all (replicate 5 ''migrate'') s"

text \<open>
  The directory of the database path is created when the path has one. The CREATE statements
  are all IF NOT EXISTS, so they leave the tables \<open>d\<close> already on disk alone.
\<close>

definition OpenSQLiteState :: "string \<Rightarrow> int \<Rightarrow> nat \<Rightarrow> tables \<Rightarrow> bool list \<Rightarrow> unit result \<times> sqlite" where
  "OpenSQLiteState path ttl vars d faults =
     (let s = \<lparr>db = d, grantTTL = ttl, maxVars = vars, dbFaults = faults\<rparr>;
          needDir = (Dir path \<noteq> [] \<and> Dir path \<noteq> ''.'')
      in on_ok (run_all (if needDir then [''create db dir''] else []) s) (\<lambda>_ s.
         on_ok (run_all [''open sqlite''] s) (\<lambda>_ s.
         on_ok (run_all (replicate 3 ''pragma'') s) (\<lambda>_ s. migrate s))))"

section \<open>Operations\<close>

definition part_row_of :: "string \<Rightarrow> PartMeta \<Rightarrow> part_row" where
  "part_row_of sid p =
     \<lparr>p_send_id = sid, p_part_id = PartID p, p_storage_key = StorageKey sid (PartID p),
      p_encrypted_size = EncryptedSize p, p_sha256 = SHA256 p, p_uploaded_at = None\<rparr>"

fun insert_parts :: "string \<Rightarrow> PartMeta list \<Rightarrow> sqlite \<Rightarrow> unit result \<times> sqlite" where
  "insert_parts sid [] s = (Inr (), s)"
| "insert_parts sid (p # ps) s =
     on_ok (stmt ''insert part'' (insert_part (part_row_of sid p)) s) (\<lambda>_ s. insert_parts sid ps s)"

definition total_size :: "PartMeta list \<Rightarrow> int" where
  "total_size ps = foldl (\<lambda>t p. add64 t (EncryptedSize p)) 0 ps"

definition send_row_of :: "string \<Rightarrow> int \<Rightarrow> CreateSendInput \<Rightarrow> send_row" where
  "send_row_of sid now inp =
     \<lparr>s_id = sid, s_status = SendStatusCreating, s_one_time = boolToInt (in_OneTime inp),
      s_created_at = Unix now, s_finalized_at = None, s_expires_at = Unix (now + in_TTL inp),
      s_consumed_at = None, s_total_encrypted_size = total_size (in_Parts inp),
      s_part_count = int (length (in_Parts inp))\<rparr>"

text \<open>
  \<open>ms\<close> is the wall clock that \<open>NewSendID\<close> reads, \<open>src\<close> its random bytes, \<open>now\<close>
  the injected clock of the store.
\<close>

definition CreateSend :: "int \<Rightarrow> string option \<Rightarrow> int \<Rightarrow> CreateSendInput \<Rightarrow> sqlite \<Rightarrow> SendRecord result \<times> sqlite" where
  "CreateSend ms src now inp s =
     (case NewSendID ms src of
        None \<Rightarrow> (Inl (Panicked ''archcore-send: crypto/rand failed''), s)
      | Some sid \<Rightarrow>
          on_ok (query ''begin'' (\<lambda>_. ()) s) (\<lambda>_ tx.
            (case on_ok (stmt ''insert send'' (insert_send (send_row_of sid now inp)) tx) (\<lambda>_ s.
                  on_ok (insert_parts sid (in_Parts inp) s) (\<lambda>_ s.
                  query ''commit'' (\<lambda>_. ()) s)) of
               (Inl e, s') \<Rightarrow> (Inl e, s'\<lparr>db := db tx\<rparr>)
             | (Inr _, s') \<Rightarrow>
                 (Inr \<lparr>rec_ID = sid, rec_OneTime = in_OneTime inp, rec_ExpiresAt = now + in_TTL inp,
                       rec_Parts = in_Parts inp\<rparr>, s'))))"

definition SendStatusOf :: "string \<Rightarrow> sqlite \<Rightarrow> SendStatus result \<times> sqlite" where
  "SendStatusOf sid s =
     on_ok (query ''status'' (find_send sid) s) (\<lambda>row s.
       (case row of None \<Rightarrow> (Inl ErrNotFound, s) | Some r \<Rightarrow> (Inr (s_status r), s)))"

definition DeclaredPart :: "string \<Rightarrow> string \<Rightarrow> sqlite \<Rightarrow> (PartMeta \<times> bool) result \<times> sqlite" where
  "DeclaredPart sid pid s =
     on_ok (query ''declared part'' (find_part sid pid) s) (\<lambda>row s.
       (case row of
          None \<Rightarrow> (Inl ErrUnknownPart, s)
        | Some p \<Rightarrow>
            (Inr (\<lparr>PartID = pid, EncryptedSize = p_encrypted_size p, SHA256 = p_sha256 p\<rparr>,
                  p_uploaded_at p \<noteq> None), s)))"

definition MarkUploaded :: "int \<Rightarrow> string \<Rightarrow> string \<Rightarrow> sqlite \<Rightarrow> unit result \<times> sqlite" where
  "MarkUploaded now sid pid s =
     on_ok (stmt ''mark uploaded''
              (update_parts (\<lambda>p. p_send_id p = sid \<and> p_part_id p = pid)
                            (\<lambda>p. p\<lparr>p_uploaded_at := Some (Unix now)\<rparr>)) s)
           (\<lambda>_ s. (Inr (), s))"

definition FinalizeSend :: "int \<Rightarrow> string \<Rightarrow> sqlite \<Rightarrow> unit result \<times> sqlite" where
  "FinalizeSend now sid s =
     on_ok (SendStatusOf sid s) (\<lambda>status s.
       if status = SendStatusFinalized then (Inr (), s)
       else if status \<noteq> SendStatusCreating then (Inl ErrConflict, s)
       else
         on_ok (query ''count missing''
                  (\<lambda>d. length (filter (\<lambda>p. p_send_id p = sid \<and> p_uploaded_at p = None) (send_parts d))) s)
         (\<lambda>missing s.
           if missing > 0 then (Inl ErrIncomplete, s)
           else
             on_ok (stmt ''finalize''
                      (update_sends (\<lambda>r. s_id r = sid \<and> s_status r = SendStatusCreating)
                         (\<lambda>r. r\<lparr>s_status := SendStatusFinalized, s_finalized_at := Some (Unix now)\<rparr>)) s)
             (\<lambda>n s. if n = 0 then (Inl ErrConflict, s) else (Inr (), s))))"

definition partsBrief :: "string \<Rightarrow> sqlite \<Rightarrow> PartMeta list result \<times> sqlite" where
  "partsBrief sid s =
     query ''parts brief''
       (\<lambda>d. map (\<lambda>p. \<lparr>PartID = p_part_id p, EncryptedSize = p_encrypted_size p, SHA256 = ''''\<rparr>)
              (sort_key p_part_id (parts_of sid d))) s"

definition partsFull :: "string \<Rightarrow> sqlite \<Rightarrow> PartMeta list result \<times> sqlite" where
  "partsFull sid s =
     query ''parts full''
       (\<lambda>d. map (\<lambda>p. \<lparr>PartID = p_part_id p, EncryptedSize = p_encrypted_size p, SHA256 = p_sha256 p\<rparr>)
              (sort_key p_part_id (parts_of sid d))) s"

text \<open>
  \<open>consume\<close> is the conditional UPDATE that takes a one-time send, \<open>open_grant\<close> the rest
  of \<open>RedeemSend\<close>: token, grant row, list of parts.
\<close>

definition consume :: "int \<Rightarrow> string \<Rightarrow> sqlite \<Rightarrow> nat result \<times> sqlite" where
  "consume now sid s =
     stmt ''consume''
       (update_sends (\<lambda>r. s_id r = sid \<and> s_one_time r = 1 \<and> s_consumed_at r = None
                          \<and> s_status r = SendStatusFinalized \<and> s_expires_at r > Unix now)
                     (\<lambda>r. r\<lparr>s_consumed_at := Some (Unix now)\<rparr>)) s"

definition open_grant :: "string option \<Rightarrow> int \<Rightarrow> string \<Rightarrow> sqlite \<Rightarrow> RedeemGrant result \<times> sqlite" where
  "open_grant src now sid s =
     (case NewRedeemToken src of
        None \<Rightarrow> (Inl (Panicked ''archcore-send: crypto/rand failed''), s)
      | Some token \<Rightarrow>
          on_ok (stmt ''insert grant''
                   (insert_grant \<lparr>g_token_hash = HashToken token, g_send_id = sid,
                      g_created_at = Unix now, g_expires_at = Unix (now + grantTTL s),
                      g_client_ip_hash = None, g_user_agent_hash = None\<rparr>) s) (\<lambda>_ s.
          on_ok (partsBrief sid s) (\<lambda>parts s.
            (Inr \<lparr>gr_Token = token, gr_ExpiresAt = now + grantTTL s, gr_Parts = parts\<rparr>, s))))"

definition RedeemSend :: "string option \<Rightarrow> int \<Rightarrow> string \<Rightarrow> sqlite \<Rightarrow> RedeemGrant result \<times> sqlite" where
  "RedeemSend src now sid s =
     on_ok (query ''load send'' (find_send sid) s) (\<lambda>row s.
       (case row of
          None \<Rightarrow> (Inl ErrNotFound, s)
        | Some r \<Rightarrow>
            if s_status r \<noteq> SendStatusFinalized then (Inl ErrNotFinalized, s)
            else if s_expires_at r \<le> Unix now then (Inl ErrExpired, s)
            else if s_one_time r = 1 then
              on_ok (consume now sid s) (\<lambda>n s.
                if n = 0 then (Inl ErrAlreadyRedeemed, s) else open_grant src now sid s)
            else open_grant src now sid s))"

definition ValidateGrant :: "int \<Rightarrow> string \<Rightarrow> string \<Rightarrow> sqlite \<Rightarrow> unit result \<times> sqlite" where
  "ValidateGrant now sid tokenHash s =
     on_ok (query ''validate grant''
              (\<lambda>d. List.find (\<lambda>g. g_token_hash g = tokenHash \<and> g_send_id g = sid) (redeem_grants d)) s)
     (\<lambda>row s.
       (case row of
          None \<Rightarrow> (Inl ErrInvalidGrant, s)
        | Some g \<Rightarrow> if g_expires_at g \<le> Unix now then (Inl ErrInvalidGrant, s) else (Inr (), s)))"

definition GetSendMeta :: "string \<Rightarrow> sqlite \<Rightarrow> SendMeta result \<times> sqlite" where
  "GetSendMeta sid s =
     on_ok (query ''meta'' (find_send sid) s) (\<lambda>row s.
       (case row of
          None \<Rightarrow> (Inl ErrNotFound, s)
        | Some r \<Rightarrow>
            on_ok (partsFull sid s) (\<lambda>parts s.
              (Inr \<lparr>meta_ID = sid, meta_Status = s_status r, meta_OneTime = (s_one_time r = 1),
                    meta_ExpiresAt = s_expires_at r * Second, meta_PartCount = s_part_count r,
                    meta_TotalEncryptedSize = s_total_encrypted_size r, meta_Parts = parts\<rparr>, s))))"

text \<open>A statement with one placeholder per id fails where the ids outnumber \<open>maxVars\<close>.\<close>

definition inClause :: "string list \<Rightarrow> string \<times> string list" where
  "inClause vals = (Join (map (\<lambda>v. ''?'') vals) '','', vals)"

lemma inClause_args [simp]: "snd (inClause vals) = vals"
  by (simp add: inClause_def)

lemma inClause_placeholders: "count_list (fst (inClause vals)) CHR ''?'' = length vals"
  by (induction vals "'',''" rule: Join.induct) (simp_all add: inClause_def)

text \<open>A statement takes at most \<open>maxVars\<close> arguments.\<close>

definition storageKeysFor :: "string list \<Rightarrow> sqlite \<Rightarrow> string list result \<times> sqlite" where
  "storageKeysFor ids s =
     stmt ''storage keys''
       (\<lambda>d. if length (snd (inClause ids)) > maxVars s then None
            else Some (d, map p_storage_key (filter (\<lambda>p. p_send_id p \<in> set ids) (send_parts d)))) s"

definition dead_send :: "int \<Rightarrow> int \<Rightarrow> send_row \<Rightarrow> bool" where
  "dead_send ttl now r \<longleftrightarrow>
     s_expires_at r \<le> Unix now
     \<or> (s_one_time r = 1 \<and> (case s_consumed_at r of None \<Rightarrow> False | Some c \<Rightarrow> c \<le> Unix (now - ttl)))
     \<or> (s_status r = SendStatusCreating \<and> s_created_at r \<le> Unix (now - creatingMaxAge))"

definition DeleteExpired :: "int \<Rightarrow> sqlite \<Rightarrow> (nat \<times> string list) result \<times> sqlite" where
  "DeleteExpired now s =
     on_ok (query ''select expired''
              (\<lambda>d. map s_id (filter (dead_send (grantTTL s) now) (sends d))) s) (\<lambda>ids s.
       if ids = [] then (Inr (0, []), s)
       else
         on_ok (storageKeysFor ids s) (\<lambda>keys s.
         on_ok (stmt ''delete sends''
                  (\<lambda>d. if length (snd (inClause ids)) > maxVars s then None else delete_sends ids d) s) (\<lambda>_ s.
           (Inr (length ids, keys), s))))"

definition LiveStorageKeys :: "sqlite \<Rightarrow> string list result \<times> sqlite" where
  "LiveStorageKeys s = query ''live keys'' (\<lambda>d. map p_storage_key (send_parts d)) s"

text \<open>\<open>Close\<close> checkpoints the write-ahead log, whatever comes of it, and closes the handle.\<close>

definition Close :: "sqlite \<Rightarrow> unit result \<times> sqlite" where
  "Close s =
     (let (_, s') = query ''wal checkpoint'' (\<lambda>_. ()) s
      in query ''close'' (\<lambda>_. ()) s')"

end
