(* ===== verification/SqliteSpec.thy ===== *)
theory SqliteSpec
  imports Sqlite
begin

text \<open>
  What each operation of the state store does to the tables, on success and on every error:
  the effect on success is a pure function on the tables, an error leaves them alone (but for
  \<open>RedeemSend\<close>, whose consumption is committed before the grant is inserted).
\<close>

section \<open>Statements\<close>

definition same_cfg :: "sqlite \<Rightarrow> sqlite \<Rightarrow> bool" where
  "same_cfg s s' \<longleftrightarrow> grantTTL s' = grantTTL s \<and> maxVars s' = maxVars s"

lemma same_cfg_refl [simp]: "same_cfg s s"
  by (simp add: same_cfg_def)

lemma same_cfg_trans [trans]: "same_cfg a b \<Longrightarrow> same_cfg b c \<Longrightarrow> same_cfg a c"
  by (simp add: same_cfg_def)

lemma stmt_Inr:
  "stmt ctx f s = (Inr x, s') \<Longrightarrow> f (db s) = Some (db s', x) \<and> same_cfg s s'"
  by (auto simp: stmt_def same_cfg_def Let_def split: prod.splits if_splits option.splits)

lemma stmt_Inl:
  "stmt ctx f s = (Inl e, s') \<Longrightarrow> e = ErrInternal ctx \<and> db s' = db s \<and> same_cfg s s'"
  by (auto simp: stmt_def same_cfg_def Let_def split: prod.splits if_splits option.splits)

lemma query_Inr:
  "query ctx f s = (Inr x, s') \<Longrightarrow> f (db s) = x \<and> db s' = db s \<and> same_cfg s s'"
  by (auto simp: query_def dest: stmt_Inr)

lemma query_db: "db (snd (query ctx f s)) = db s"
  by (simp add: query_def stmt_def Let_def split: prod.split)

lemma Close_db: "db (snd (Close s)) = db s"
  by (simp add: Close_def query_db case_prod_beta)

lemma query_Inl:
  "query ctx f s = (Inl e, s') \<Longrightarrow> e = ErrInternal ctx \<and> db s' = db s \<and> same_cfg s s'"
  by (auto simp: query_def dest: stmt_Inl)

text \<open>Without faults a query answers and a statement whose constraints hold succeeds.\<close>

lemma query_no_fault: "dbFaults s = [] \<Longrightarrow> query ctx f s = (Inr (f (db s)), s)"
  by (simp add: query_def stmt_def)

lemma stmt_no_fault:
  "dbFaults s = [] \<Longrightarrow> f (db s) = Some (d, x) \<Longrightarrow> stmt ctx f s = (Inr x, s\<lparr>db := d\<rparr>)"
  by (simp add: stmt_def)

lemmas run_dests = stmt_Inr stmt_Inl query_Inr query_Inl
lemmas run_elims = on_ok_InrE on_ok_InlE

section \<open>Effects\<close>

definition eff_create :: "string \<Rightarrow> int \<Rightarrow> CreateSendInput \<Rightarrow> tables \<Rightarrow> tables" where
  "eff_create sid now inp d =
     d\<lparr>sends := sends d @ [send_row_of sid now inp],
       send_parts := send_parts d @ map (part_row_of sid) (in_Parts inp)\<rparr>"

definition eff_mark :: "int \<Rightarrow> string \<Rightarrow> string \<Rightarrow> tables \<Rightarrow> tables" where
  "eff_mark now sid pid d =
     d\<lparr>send_parts := map (\<lambda>p. if p_send_id p = sid \<and> p_part_id p = pid
                              then p\<lparr>p_uploaded_at := Some (Unix now)\<rparr> else p) (send_parts d)\<rparr>"

definition eff_finalize :: "int \<Rightarrow> string \<Rightarrow> tables \<Rightarrow> tables" where
  "eff_finalize now sid d =
     d\<lparr>sends := map (\<lambda>r. if s_id r = sid \<and> s_status r = SendStatusCreating
                         then r\<lparr>s_status := SendStatusFinalized, s_finalized_at := Some (Unix now)\<rparr>
                         else r) (sends d)\<rparr>"

definition consumable :: "int \<Rightarrow> string \<Rightarrow> send_row \<Rightarrow> bool" where
  "consumable now sid r \<longleftrightarrow>
     s_id r = sid \<and> s_one_time r = 1 \<and> s_consumed_at r = None
     \<and> s_status r = SendStatusFinalized \<and> s_expires_at r > Unix now"

definition eff_consume :: "int \<Rightarrow> string \<Rightarrow> tables \<Rightarrow> tables" where
  "eff_consume now sid d =
     d\<lparr>sends := map (\<lambda>r. if consumable now sid r then r\<lparr>s_consumed_at := Some (Unix now)\<rparr> else r)
                 (sends d)\<rparr>"

definition new_grant :: "string \<Rightarrow> int \<Rightarrow> int \<Rightarrow> string \<Rightarrow> grant_row" where
  "new_grant token now ttl sid =
     \<lparr>g_token_hash = HashToken token, g_send_id = sid, g_created_at = Unix now,
      g_expires_at = Unix (now + ttl), g_client_ip_hash = None, g_user_agent_hash = None\<rparr>"

definition eff_grant :: "grant_row \<Rightarrow> tables \<Rightarrow> tables" where
  "eff_grant g d = d\<lparr>redeem_grants := redeem_grants d @ [g]\<rparr>"

definition eff_delete :: "string set \<Rightarrow> tables \<Rightarrow> tables" where
  "eff_delete ids d =
     \<lparr>sends = filter (\<lambda>r. s_id r \<notin> ids) (sends d),
      send_parts = filter (\<lambda>p. p_send_id p \<notin> ids) (send_parts d),
      redeem_grants = filter (\<lambda>g. g_send_id g \<notin> ids) (redeem_grants d)\<rparr>"

section \<open>Operations\<close>

lemma insert_parts_Inr:
  "insert_parts sid ps s = (Inr (), s') \<Longrightarrow>
     db s' = db s\<lparr>send_parts := send_parts (db s) @ map (part_row_of sid) ps\<rparr>
     \<and> distinct (map PartID ps)
     \<and> (\<forall>p \<in> set ps. (sid, PartID p) \<notin> (\<lambda>q. (p_send_id q, p_part_id q)) ` set (send_parts (db s)))
     \<and> (ps \<noteq> [] \<longrightarrow> sid \<in> s_id ` set (sends (db s)))
     \<and> same_cfg s s'"
proof (induction ps arbitrary: s)
  case (Cons p ps)
  from Cons.prems obtain s1 where s1: "stmt ''insert part'' (insert_part (part_row_of sid p)) s = (Inr (), s1)"
    and rest: "insert_parts sid ps s1 = (Inr (), s')"
    by (auto elim!: on_ok_InrE)
  from stmt_Inr [OF s1] have d1: "db s1 = db s\<lparr>send_parts := send_parts (db s) @ [part_row_of sid p]\<rparr>"
    and new: "(sid, PartID p) \<notin> (\<lambda>q. (p_send_id q, p_part_id q)) ` set (send_parts (db s))"
    and fk: "sid \<in> s_id ` set (sends (db s))" and c: "same_cfg s s1"
    by (auto simp: insert_part_def part_row_of_def split: if_splits)
  have k: "(p_send_id (part_row_of sid p), p_part_id (part_row_of sid p)) = (sid, PartID p)"
    by (simp add: part_row_of_def)
  note IH = Cons.IH [OF rest]
  have "PartID p \<notin> PartID ` set ps"
    using IH d1 k by (auto simp: part_row_of_def)
  with IH d1 new fk c show ?case
    by (auto simp: same_cfg_def)
qed simp

lemma insert_parts_Inl:
  "insert_parts sid ps s = (Inl e, s') \<Longrightarrow> e = ErrInternal ''insert part'' \<and> same_cfg s s'"
  by (induction ps arbitrary: s)
     (auto elim!: run_elims dest!: run_dests simp: same_cfg_def)

lemma CreateSend_Inr:
  assumes "CreateSend ms src now inp s = (Inr r, s')"
  shows "\<exists>sid. NewSendID ms src = Some sid \<and> db s' = eff_create sid now inp (db s)
     \<and> sid \<notin> s_id ` set (sends (db s)) \<and> distinct (map PartID (in_Parts inp))
     \<and> (\<forall>p \<in> set (in_Parts inp). (sid, PartID p) \<notin> (\<lambda>q. (p_send_id q, p_part_id q)) ` set (send_parts (db s)))
     \<and> r = \<lparr>rec_ID = sid, rec_OneTime = in_OneTime inp, rec_ExpiresAt = now + in_TTL inp,
            rec_Parts = in_Parts inp\<rparr>
     \<and> same_cfg s s'"
proof -
  from assms obtain sid tx where sid: "NewSendID ms src = Some sid"
    and tx: "query ''begin'' (\<lambda>_. ()) s = (Inr (), tx)"
    and m: "(case on_ok (stmt ''insert send'' (insert_send (send_row_of sid now inp)) tx) (\<lambda>_ s.
                  on_ok (insert_parts sid (in_Parts inp) s) (\<lambda>_ s. query ''commit'' (\<lambda>_. ()) s)) of
               (Inl e, s') \<Rightarrow> (Inl e, s'\<lparr>db := db tx\<rparr>)
             | (Inr _, s') \<Rightarrow>
                 (Inr \<lparr>rec_ID = sid, rec_OneTime = in_OneTime inp, rec_ExpiresAt = now + in_TTL inp,
                       rec_Parts = in_Parts inp\<rparr>, s')) = (Inr r, s')"
    by (auto simp: CreateSend_def split: option.splits elim!: on_ok_InrE)
  from m obtain a b where a: "stmt ''insert send'' (insert_send (send_row_of sid now inp)) tx = (Inr (), a)"
    and b: "insert_parts sid (in_Parts inp) a = (Inr (), b)"
    and c: "query ''commit'' (\<lambda>_. ()) b = (Inr (), s')"
    and r: "r = \<lparr>rec_ID = sid, rec_OneTime = in_OneTime inp, rec_ExpiresAt = now + in_TTL inp,
                 rec_Parts = in_Parts inp\<rparr>"
    by (auto split: prod.splits sum.splits elim!: on_ok_InrE)
  from stmt_Inr [OF a] query_Inr [OF tx]
  have a': "db a = db s\<lparr>sends := sends (db s) @ [send_row_of sid now inp]\<rparr>"
    "sid \<notin> s_id ` set (sends (db s))" "same_cfg s a"
    by (auto simp: insert_send_def send_row_of_def same_cfg_def split: if_splits)
  with insert_parts_Inr [OF b] query_Inr [OF c] sid r show ?thesis
    by (auto simp: eff_create_def same_cfg_def)
qed

lemma CreateSend_Inl:
  assumes "CreateSend ms src now inp s = (Inl e, s')"
  shows "db s' = db s \<and> same_cfg s s'
     \<and> (e = Panicked ''archcore-send: crypto/rand failed'' \<or> (\<exists>ctx. e = ErrInternal ctx))"
  using assms
  by (auto simp: CreateSend_def same_cfg_def
      split: option.splits prod.splits sum.splits elim!: run_elims
      dest!: run_dests insert_parts_Inl insert_parts_Inr)

lemma SendStatusOf_Inr:
  "SendStatusOf sid s = (Inr st, s') \<Longrightarrow>
     (\<exists>r. find_send sid (db s) = Some r \<and> st = s_status r) \<and> db s' = db s \<and> same_cfg s s'"
  by (auto simp: SendStatusOf_def elim!: on_ok_InrE dest!: query_Inr split: option.splits)

lemma SendStatusOf_Inl:
  "SendStatusOf sid s = (Inl e, s') \<Longrightarrow>
     (e = ErrNotFound \<and> find_send sid (db s) = None \<or> e = ErrInternal ''status'')
     \<and> db s' = db s \<and> same_cfg s s'"
  by (auto simp: SendStatusOf_def elim!: on_ok_InlE dest!: run_dests split: option.splits)

lemma DeclaredPart_Inr:
  "DeclaredPart sid pid s = (Inr (m, up), s') \<Longrightarrow>
     (\<exists>p. find_part sid pid (db s) = Some p
        \<and> m = \<lparr>PartID = pid, EncryptedSize = p_encrypted_size p, SHA256 = p_sha256 p\<rparr>
        \<and> up = (p_uploaded_at p \<noteq> None))
     \<and> db s' = db s \<and> same_cfg s s'"
  by (auto simp: DeclaredPart_def elim!: on_ok_InrE dest!: query_Inr split: option.splits)

lemma DeclaredPart_Inl:
  "DeclaredPart sid pid s = (Inl e, s') \<Longrightarrow>
     (e = ErrUnknownPart \<and> find_part sid pid (db s) = None \<or> e = ErrInternal ''declared part'')
     \<and> db s' = db s \<and> same_cfg s s'"
  by (auto simp: DeclaredPart_def elim!: on_ok_InlE dest!: run_dests split: option.splits)

lemma MarkUploaded_Inr:
  "MarkUploaded now sid pid s = (Inr u, s') \<Longrightarrow>
     db s' = eff_mark now sid pid (db s) \<and> same_cfg s s'"
  by (auto simp: MarkUploaded_def update_parts_def eff_mark_def elim!: on_ok_InrE dest!: stmt_Inr)

lemma MarkUploaded_Inl:
  "MarkUploaded now sid pid s = (Inl e, s') \<Longrightarrow>
     e = ErrInternal ''mark uploaded'' \<and> db s' = db s \<and> same_cfg s s'"
  by (auto simp: MarkUploaded_def elim!: on_ok_InlE dest!: stmt_Inl)

lemma FinalizeSend_Inr:
  assumes "FinalizeSend now sid s = (Inr u, s')"
  shows "(\<exists>r. find_send sid (db s) = Some r \<and>
      (s_status r = SendStatusFinalized \<and> db s' = db s
       \<or> s_status r = SendStatusCreating \<and> (\<forall>p \<in> set (parts_of sid (db s)). p_uploaded_at p \<noteq> None)
         \<and> db s' = eff_finalize now sid (db s)))
     \<and> same_cfg s s'"
  using assms
  by (auto simp: FinalizeSend_def update_sends_def eff_finalize_def parts_of_def filter_empty_conv same_cfg_def
      split: if_splits elim!: on_ok_InrE dest!: query_Inr stmt_Inr SendStatusOf_Inr)

lemma map_cond_none: "(\<forall>x \<in> set xs. \<not> c x) \<Longrightarrow> map (\<lambda>x. if c x then f x else x) xs = xs"
  by (induction xs) auto

lemma tables_sends_same: "d\<lparr>sends := sends d\<rparr> = d"
  by simp

lemma FinalizeSend_Inl:
  assumes "FinalizeSend now sid s = (Inl e, s')"
  shows "db s' = db s \<and> same_cfg s s' \<and>
     (e = ErrNotFound \<and> find_send sid (db s) = None
      \<or> e = ErrIncomplete \<and> (\<exists>p \<in> set (parts_of sid (db s)). p_uploaded_at p = None)
         \<and> (\<exists>r. find_send sid (db s) = Some r \<and> s_status r = SendStatusCreating)
      \<or> e = ErrConflict \<and> (\<exists>r. find_send sid (db s) = Some r \<and> s_status r \<noteq> SendStatusFinalized
           \<and> (s_status r = SendStatusCreating \<longrightarrow>
                (\<forall>r \<in> set (sends (db s)). \<not> (s_id r = sid \<and> s_status r = SendStatusCreating))))
      \<or> (\<exists>ctx. e = ErrInternal ctx))"
proof -
  let ?missing = "\<lambda>d. length (filter (\<lambda>p. p_send_id p = sid \<and> p_uploaded_at p = None) (send_parts d))"
  let ?fin = "update_sends (\<lambda>r. s_id r = sid \<and> s_status r = SendStatusCreating)
                (\<lambda>r. r\<lparr>s_status := SendStatusFinalized, s_finalized_at := Some (Unix now)\<rparr>)"
  from assms consider "SendStatusOf sid s = (Inl e, s')"
    | st where "SendStatusOf sid s = (Inr st, s')" "e = ErrConflict"
        "st \<noteq> SendStatusFinalized" "st \<noteq> SendStatusCreating"
    | s1 where "SendStatusOf sid s = (Inr SendStatusCreating, s1)" "query ''count missing'' ?missing s1 = (Inl e, s')"
    | s1 m where "SendStatusOf sid s = (Inr SendStatusCreating, s1)"
        "query ''count missing'' ?missing s1 = (Inr m, s')" "m > 0" "e = ErrIncomplete"
    | s1 s2 where "SendStatusOf sid s = (Inr SendStatusCreating, s1)" "query ''count missing'' ?missing s1 = (Inr 0, s2)"
        "stmt ''finalize'' ?fin s2 = (Inl e, s')"
    | s1 s2 where "SendStatusOf sid s = (Inr SendStatusCreating, s1)" "query ''count missing'' ?missing s1 = (Inr 0, s2)"
        "stmt ''finalize'' ?fin s2 = (Inr 0, s')" "e = ErrConflict"
    unfolding FinalizeSend_def by (auto split: if_splits elim!: on_ok_InlE)
  then show ?thesis
  proof cases
    case 4
    from 4(3) query_Inr [OF 4(2)]
    have "filter (\<lambda>p. p_send_id p = sid \<and> p_uploaded_at p = None) (send_parts (db s1)) \<noteq> []"
      by auto
    with SendStatusOf_Inr [OF 4(1)] have "\<exists>p \<in> set (parts_of sid (db s)). p_uploaded_at p = None"
      by (auto simp: parts_of_def filter_empty_conv)
    with 4 SendStatusOf_Inr [OF 4(1)] query_Inr [OF 4(2)] show ?thesis
      by (auto simp: same_cfg_def)
  next
    case 6
    with SendStatusOf_Inr [OF 6(1)] query_Inr [OF 6(2)] stmt_Inr [OF 6(3)] show ?thesis
      by (auto simp: update_sends_def filter_empty_conv map_cond_none same_cfg_def)
  qed (auto dest!: SendStatusOf_Inl SendStatusOf_Inr query_Inl query_Inr stmt_Inl simp: same_cfg_def)
qed

lemma find_send_SomeD:
  "find_send sid d = Some r \<Longrightarrow> r \<in> set (sends d) \<and> s_id r = sid"
  by (auto simp: find_send_def dest: find_SomeD)

text \<open>A send that the status query saw as creating has a row for the final UPDATE.\<close>

lemma FinalizeSend_ErrConflict:
  assumes "FinalizeSend now sid s = (Inl ErrConflict, s')"
  shows "\<exists>r. find_send sid (db s) = Some r \<and> s_status r \<notin> {SendStatusFinalized, SendStatusCreating}"
  using FinalizeSend_Inl [OF assms] find_send_SomeD by fastforce

definition grant_parts :: "string \<Rightarrow> tables \<Rightarrow> PartMeta list" where
  "grant_parts sid d =
     map (\<lambda>p. \<lparr>PartID = p_part_id p, EncryptedSize = p_encrypted_size p, SHA256 = ''''\<rparr>)
       (sort_key p_part_id (parts_of sid d))"

lemma partsBrief_Inr:
  "partsBrief sid s = (Inr ps, s') \<Longrightarrow> ps = grant_parts sid (db s) \<and> db s' = db s \<and> same_cfg s s'"
  by (auto simp: partsBrief_def grant_parts_def dest!: query_Inr)

lemma partsBrief_Inl:
  "partsBrief sid s = (Inl e, s') \<Longrightarrow> e = ErrInternal ''parts brief'' \<and> db s' = db s \<and> same_cfg s s'"
  by (auto simp: partsBrief_def dest!: query_Inl)

lemma insert_grant_Some:
  "insert_grant g d = Some (d', u) \<longleftrightarrow>
     d' = eff_grant g d \<and> g_token_hash g \<notin> g_token_hash ` set (redeem_grants d)
     \<and> g_send_id g \<in> s_id ` set (sends d)"
  by (auto simp: insert_grant_def eff_grant_def)

lemma open_grant_alt:
  "open_grant src now sid s =
     (case NewRedeemToken src of
        None \<Rightarrow> (Inl (Panicked ''archcore-send: crypto/rand failed''), s)
      | Some token \<Rightarrow>
          on_ok (stmt ''insert grant'' (insert_grant (new_grant token now (grantTTL s) sid)) s) (\<lambda>_ s.
          on_ok (partsBrief sid s) (\<lambda>parts s.
            (Inr \<lparr>gr_Token = token, gr_ExpiresAt = now + grantTTL s, gr_Parts = parts\<rparr>, s))))"
  unfolding open_grant_def new_grant_def by (rule refl)

lemma grant_parts_eff_grant [simp]: "grant_parts sid (eff_grant g d) = grant_parts sid d"
  by (simp add: grant_parts_def parts_of_def eff_grant_def)

lemma open_grant_Inr:
  assumes "open_grant src now sid s = (Inr g, s')"
  shows "\<exists>token. NewRedeemToken src = Some token
     \<and> insert_grant (new_grant token now (grantTTL s) sid) (db s) = Some (db s', ())
     \<and> db s' = eff_grant (new_grant token now (grantTTL s) sid) (db s)
     \<and> g = \<lparr>gr_Token = token, gr_ExpiresAt = now + grantTTL s, gr_Parts = grant_parts sid (db s)\<rparr>
     \<and> same_cfg s s'"
proof -
  from assms obtain token s1 ps where t: "NewRedeemToken src = Some token"
    and i: "stmt ''insert grant'' (insert_grant (new_grant token now (grantTTL s) sid)) s = (Inr (), s1)"
    and ps: "partsBrief sid s1 = (Inr ps, s')"
    and g: "g = \<lparr>gr_Token = token, gr_ExpiresAt = now + grantTTL s', gr_Parts = ps\<rparr>"
    by (auto simp: open_grant_alt split: option.splits elim!: on_ok_InrE)
  from stmt_Inr [OF i] partsBrief_Inr [OF ps] t g show ?thesis
    by (intro exI [of _ token]) (auto simp: same_cfg_def insert_grant_Some)
qed

lemma open_grant_Inl:
  assumes "open_grant src now sid s = (Inl e, s')"
  shows "same_cfg s s' \<and>
     (e = Panicked ''archcore-send: crypto/rand failed'' \<and> NewRedeemToken src = None \<and> db s' = db s
      \<or> e = ErrInternal ''insert grant'' \<and> db s' = db s
      \<or> e = ErrInternal ''parts brief'' \<and>
          (\<exists>token. NewRedeemToken src = Some token
            \<and> insert_grant (new_grant token now (grantTTL s) sid) (db s) = Some (db s', ())
            \<and> db s' = eff_grant (new_grant token now (grantTTL s) sid) (db s)))"
proof -
  from assms consider "NewRedeemToken src = None" "e = Panicked ''archcore-send: crypto/rand failed''" "s' = s"
    | token where "NewRedeemToken src = Some token"
        "stmt ''insert grant'' (insert_grant (new_grant token now (grantTTL s) sid)) s = (Inl e, s')"
    | token s1 where "NewRedeemToken src = Some token"
        "stmt ''insert grant'' (insert_grant (new_grant token now (grantTTL s) sid)) s = (Inr (), s1)"
        "partsBrief sid s1 = (Inl e, s')"
    by (auto simp: open_grant_alt split: option.splits elim!: on_ok_InlE)
  then show ?thesis
  proof cases
    case 3
    with stmt_Inr [OF 3(2)] partsBrief_Inl [OF 3(3)] show ?thesis
      by (auto simp: same_cfg_def insert_grant_Some)
  qed (auto dest: stmt_Inl)
qed

lemma consume_Inr:
  "consume now sid s = (Inr n, s') \<Longrightarrow>
     db s' = eff_consume now sid (db s) \<and> n = length (filter (consumable now sid) (sends (db s)))
     \<and> same_cfg s s'"
  by (auto simp: consume_def update_sends_def eff_consume_def consumable_def [abs_def] dest!: stmt_Inr)

lemma consume_Inl:
  "consume now sid s = (Inl e, s') \<Longrightarrow> e = ErrInternal ''consume'' \<and> db s' = db s \<and> same_cfg s s'"
  by (auto simp: consume_def dest!: stmt_Inl)

lemma eff_consume_none:
  "filter (consumable now sid) (sends d) = [] \<Longrightarrow> eff_consume now sid d = d"
  by (simp add: eff_consume_def map_cond_none filter_empty_conv)

definition eff_redeem :: "int \<Rightarrow> string \<Rightarrow> send_row \<Rightarrow> tables \<Rightarrow> tables" where
  "eff_redeem now sid r d = (if s_one_time r = 1 then eff_consume now sid d else d)"

lemma RedeemSend_Inr:
  assumes "RedeemSend src now sid s = (Inr g, s')"
  shows "\<exists>r token. find_send sid (db s) = Some r
     \<and> s_status r = SendStatusFinalized \<and> Unix now < s_expires_at r
     \<and> (s_one_time r = 1 \<longrightarrow> (\<exists>q \<in> set (sends (db s)). consumable now sid q))
     \<and> NewRedeemToken src = Some token
     \<and> insert_grant (new_grant token now (grantTTL s) sid) (eff_redeem now sid r (db s)) = Some (db s', ())
     \<and> db s' = eff_grant (new_grant token now (grantTTL s) sid) (eff_redeem now sid r (db s))
     \<and> g = \<lparr>gr_Token = token, gr_ExpiresAt = now + grantTTL s, gr_Parts = grant_parts sid (db s)\<rparr>
     \<and> same_cfg s s'"
proof -
  from assms obtain r s1 where q: "find_send sid (db s) = Some r" "db s1 = db s" "same_cfg s s1"
    and st: "s_status r = SendStatusFinalized" "Unix now < s_expires_at r"
    and rest: "(if s_one_time r = 1 then
              on_ok (consume now sid s1) (\<lambda>n s.
                if n = 0 then (Inl ErrAlreadyRedeemed, s) else open_grant src now sid s)
            else open_grant src now sid s1) = (Inr g, s')"
    by (auto simp: RedeemSend_def split: option.splits if_splits elim!: on_ok_InrE dest!: query_Inr)
  show ?thesis
  proof (cases "s_one_time r = 1")
    case True
    with rest obtain n s2 where c: "consume now sid s1 = (Inr n, s2)" "n \<noteq> 0"
      and og: "open_grant src now sid s2 = (Inr g, s')"
      by (auto split: if_splits elim!: on_ok_InrE)
    have "grant_parts sid (eff_consume now sid (db s)) = grant_parts sid (db s)"
      by (simp add: grant_parts_def parts_of_def eff_consume_def)
    moreover have "\<exists>q \<in> set (sends (db s)). consumable now sid q"
      using consume_Inr [OF c(1)] c(2) q by (auto simp: filter_empty_conv)
    ultimately show ?thesis
      using open_grant_Inr [OF og] consume_Inr [OF c(1)] q st True
      by (auto simp: eff_redeem_def same_cfg_def)
  next
    case False
    with rest have og: "open_grant src now sid s1 = (Inr g, s')" by simp
    show ?thesis
      using open_grant_Inr [OF og] q st False by (auto simp: eff_redeem_def same_cfg_def)
  qed
qed

lemma RedeemSend_Inl:
  assumes "RedeemSend src now sid s = (Inl e, s')"
  shows "same_cfg s s' \<and>
    (e = ErrNotFound \<and> find_send sid (db s) = None \<and> db s' = db s
     \<or> (\<exists>ctx. e = ErrInternal ctx) \<and> db s' = db s
     \<or> (\<exists>r. find_send sid (db s) = Some r \<and>
         (e = ErrNotFinalized \<and> s_status r \<noteq> SendStatusFinalized \<and> db s' = db s
          \<or> s_status r = SendStatusFinalized \<and>
            (e = ErrExpired \<and> s_expires_at r \<le> Unix now \<and> db s' = db s
             \<or> Unix now < s_expires_at r \<and>
               (e = ErrAlreadyRedeemed \<and> s_one_time r = 1 \<and> db s' = db s
                  \<and> (\<forall>q \<in> set (sends (db s)). \<not> consumable now sid q)
                \<or> (s_one_time r = 1 \<longrightarrow> (\<exists>q \<in> set (sends (db s)). consumable now sid q)) \<and>
                  ((e = Panicked ''archcore-send: crypto/rand failed'' \<or> e = ErrInternal ''insert grant'')
                    \<and> db s' = eff_redeem now sid r (db s)
                  \<or> e = ErrInternal ''parts brief'' \<and>
                    (\<exists>token. NewRedeemToken src = Some token
                     \<and> insert_grant (new_grant token now (grantTTL s) sid) (eff_redeem now sid r (db s)) = Some (db s', ())
                     \<and> db s' = eff_grant (new_grant token now (grantTTL s) sid) (eff_redeem now sid r (db s)))))))))"
proof -
  consider s1 where "query ''load send'' (find_send sid) s = (Inl e, s1)" "s1 = s'"
    | s1 where "query ''load send'' (find_send sid) s = (Inr None, s1)" "e = ErrNotFound" "s1 = s'"
    | r s1 where "query ''load send'' (find_send sid) s = (Inr (Some r), s1)"
        "s_status r \<noteq> SendStatusFinalized" "e = ErrNotFinalized" "s1 = s'"
    | r s1 where "query ''load send'' (find_send sid) s = (Inr (Some r), s1)"
        "s_status r = SendStatusFinalized" "s_expires_at r \<le> Unix now" "e = ErrExpired" "s1 = s'"
    | r s1 where "query ''load send'' (find_send sid) s = (Inr (Some r), s1)"
        "s_status r = SendStatusFinalized" "\<not> s_expires_at r \<le> Unix now"
        "(if s_one_time r = 1 then
              on_ok (consume now sid s1) (\<lambda>n s.
                if n = 0 then (Inl ErrAlreadyRedeemed, s) else open_grant src now sid s)
            else open_grant src now sid s1) = (Inl e, s')"
    using assms by (auto simp: RedeemSend_def split: option.splits if_splits elim!: on_ok_InlE)
  then show ?thesis
  proof cases
    case (5 r s1)
    from query_Inr [OF 5(1)] have q: "find_send sid (db s) = Some r" "db s1 = db s" "same_cfg s s1" by auto
    show ?thesis
    proof (cases "s_one_time r = 1")
      case False
      with 5(4) have og: "open_grant src now sid s1 = (Inl e, s')" by simp
      show ?thesis using open_grant_Inl [OF og] q 5(2,3) False by (auto simp: eff_redeem_def same_cfg_def)
    next
      case True
      with 5(4) consider "consume now sid s1 = (Inl e, s')"
        | s2 where "consume now sid s1 = (Inr 0, s2)" "e = ErrAlreadyRedeemed" "s2 = s'"
        | n s2 where "consume now sid s1 = (Inr n, s2)" "n \<noteq> 0" "open_grant src now sid s2 = (Inl e, s')"
        by (auto split: if_splits elim!: on_ok_InlE)
      then show ?thesis
      proof cases
        case 1
        then show ?thesis using consume_Inl [OF 1] q by (auto simp: same_cfg_def)
      next
        case 2
        then show ?thesis using consume_Inr [OF 2(1)] q 5(2,3) True eff_consume_none [of now sid "db s"]
          by (auto simp: same_cfg_def filter_empty_conv)
      next
        case 3
        have "\<exists>q \<in> set (sends (db s)). consumable now sid q"
          using consume_Inr [OF 3(1)] 3(2) q by (auto simp: filter_empty_conv)
        then show ?thesis using consume_Inr [OF 3(1)] open_grant_Inl [OF 3(3)] q 5(2,3) True
          by (auto simp: eff_redeem_def same_cfg_def)
      qed
    qed
  qed (auto dest!: query_Inr query_Inl)
qed

lemma ValidateGrant_Inr:
  "ValidateGrant now sid h s = (Inr u, s') \<Longrightarrow>
     (\<exists>g \<in> set (redeem_grants (db s)). g_token_hash g = h \<and> g_send_id g = sid \<and> Unix now < g_expires_at g)
     \<and> db s' = db s \<and> same_cfg s s'"
  by (auto simp: ValidateGrant_def not_le split: option.splits if_splits
      elim!: on_ok_InrE dest!: query_Inr find_SomeD)

lemma ValidateGrant_Inl:
  "ValidateGrant now sid h s = (Inl e, s') \<Longrightarrow>
     (e = ErrInvalidGrant \<or> e = ErrInternal ''validate grant'') \<and> db s' = db s \<and> same_cfg s s'"
  by (auto simp: ValidateGrant_def split: option.splits if_splits elim!: on_ok_InlE dest!: run_dests)

lemma partsFull_Inr:
  "partsFull sid s = (Inr ps, s') \<Longrightarrow>
     ps = map (\<lambda>p. \<lparr>PartID = p_part_id p, EncryptedSize = p_encrypted_size p, SHA256 = p_sha256 p\<rparr>)
              (sort_key p_part_id (parts_of sid (db s)))
     \<and> db s' = db s \<and> same_cfg s s'"
  by (auto simp: partsFull_def dest!: query_Inr)

lemma GetSendMeta_Inr:
  "GetSendMeta sid s = (Inr m, s') \<Longrightarrow>
     (\<exists>r. find_send sid (db s) = Some r
        \<and> m = \<lparr>meta_ID = sid, meta_Status = s_status r, meta_OneTime = (s_one_time r = 1),
               meta_ExpiresAt = s_expires_at r * Second, meta_PartCount = s_part_count r,
               meta_TotalEncryptedSize = s_total_encrypted_size r,
               meta_Parts = map (\<lambda>p. \<lparr>PartID = p_part_id p, EncryptedSize = p_encrypted_size p, SHA256 = p_sha256 p\<rparr>)
                  (sort_key p_part_id (parts_of sid (db s)))\<rparr>)
     \<and> db s' = db s \<and> same_cfg s s'"
  by (auto simp: GetSendMeta_def same_cfg_def split: option.splits elim!: on_ok_InrE dest!: query_Inr partsFull_Inr)

lemma GetSendMeta_Inl:
  "GetSendMeta sid s = (Inl e, s') \<Longrightarrow>
     (e = ErrNotFound \<and> find_send sid (db s) = None \<or> (\<exists>ctx. e = ErrInternal ctx))
     \<and> db s' = db s \<and> same_cfg s s'"
  by (auto simp: GetSendMeta_def partsFull_def same_cfg_def split: option.splits
      elim!: on_ok_InlE dest!: run_dests)

definition dead_ids :: "int \<Rightarrow> int \<Rightarrow> tables \<Rightarrow> string list" where
  "dead_ids ttl now d = map s_id (filter (dead_send ttl now) (sends d))"

lemma delete_sends_eff: "delete_sends ids d = Some (eff_delete (set ids) d, ())"
  by (simp add: delete_sends_def eff_delete_def)

lemma eff_delete_none: "eff_delete {} d = d"
  by (simp add: eff_delete_def)

lemma DeleteExpired_Inr:
  assumes "DeleteExpired now s = (Inr (n, keys), s')"
  shows "n = length (dead_ids (grantTTL s) now (db s))
    \<and> keys = map p_storage_key (filter (\<lambda>p. p_send_id p \<in> set (dead_ids (grantTTL s) now (db s))) (send_parts (db s)))
    \<and> db s' = eff_delete (set (dead_ids (grantTTL s) now (db s))) (db s) \<and> same_cfg s s'
    \<and> n \<le> maxVars s"
proof -
  let ?ids = "dead_ids (grantTTL s) now (db s)"
  from assms obtain ids s1 where
    q: "query ''select expired'' (\<lambda>d. map s_id (filter (dead_send (grantTTL s) now) (sends d))) s
        = (Inr ids, s1)"
    and m: "(if ids = [] then (Inr (0, []), s1)
       else on_ok (storageKeysFor ids s1) (\<lambda>keys s.
         on_ok (stmt ''delete sends''
                  (\<lambda>d. if length ids > maxVars s then None else delete_sends ids d) s) (\<lambda>_ s.
           (Inr (length ids, keys), s)))) = (Inr (n, keys), s')"
    unfolding DeleteExpired_def inClause_args by (elim on_ok_InrE)
  from query_Inr [OF q] have ids: "ids = ?ids" and s1: "db s1 = db s" "same_cfg s s1"
    by (simp_all add: dead_ids_def)
  note m = m [unfolded ids]
  show ?thesis
  proof (cases "?ids = []")
    case True
    with m s1 show ?thesis by (simp add: eff_delete_none)
  next
    case False
    with m s1 show ?thesis
      by (auto simp: storageKeysFor_def same_cfg_def delete_sends_eff
          split: if_splits elim!: on_ok_InrE dest!: stmt_Inr)
  qed
qed

lemma DeleteExpired_Inl:
  assumes "DeleteExpired now s = (Inl e, s')"
  shows "db s' = db s \<and> same_cfg s s' \<and> (\<exists>ctx. e = ErrInternal ctx)"
  using assms
  by (auto simp: DeleteExpired_def storageKeysFor_def same_cfg_def
      split: if_splits elim!: run_elims dest!: run_dests)

lemma LiveStorageKeys_Inr:
  "LiveStorageKeys s = (Inr ks, s') \<Longrightarrow>
     ks = map p_storage_key (send_parts (db s)) \<and> db s' = db s \<and> same_cfg s s'"
  by (auto simp: LiveStorageKeys_def dest!: query_Inr)

lemma LiveStorageKeys_Inl:
  "LiveStorageKeys s = (Inl e, s') \<Longrightarrow> e = ErrInternal ''live keys'' \<and> db s' = db s \<and> same_cfg s s'"
  by (auto simp: LiveStorageKeys_def dest!: query_Inl)

end
