(* ===== verification/SqliteInv.thy ===== *)
theory SqliteInv
  imports SqliteSpec
begin

text \<open>
  The invariant of the tables and its preservation by every operation of the state store,
  whatever the driver does: unique keys, no dangling references, the storage key of every
  part, and the life of a send (creating, then finalized with all its parts uploaded, then
  consumed at most once).
\<close>

section \<open>The invariant\<close>

definition grants_of :: "string \<Rightarrow> tables \<Rightarrow> grant_row list" where
  "grants_of sid d = filter (\<lambda>g. g_send_id g = sid) (redeem_grants d)"

definition part_key :: "part_row \<Rightarrow> string \<times> string" where
  "part_key p = (p_send_id p, p_part_id p)"

definition keys_unique :: "tables \<Rightarrow> bool" where
  "keys_unique d \<longleftrightarrow> distinct (map s_id (sends d)) \<and> distinct (map part_key (send_parts d))
     \<and> distinct (map g_token_hash (redeem_grants d))"

definition refs_ok :: "tables \<Rightarrow> bool" where
  "refs_ok d \<longleftrightarrow> p_send_id ` set (send_parts d) \<subseteq> s_id ` set (sends d)
     \<and> g_send_id ` set (redeem_grants d) \<subseteq> s_id ` set (sends d)"

definition storage_keys_ok :: "tables \<Rightarrow> bool" where
  "storage_keys_ok d \<longleftrightarrow>
     (\<forall>p \<in> set (send_parts d). p_storage_key p = StorageKey (p_send_id p) (p_part_id p))"

definition parts_total :: "part_row list \<Rightarrow> int" where
  "parts_total ps = foldl (\<lambda>t p. add64 t (p_encrypted_size p)) 0 ps"

definition row_ok :: "part_row list \<Rightarrow> grant_row list \<Rightarrow> send_row \<Rightarrow> bool" where
  "row_ok ps gs r \<longleftrightarrow>
     s_status r \<in> {SendStatusCreating, SendStatusFinalized}
     \<and> s_one_time r \<in> {0, 1}
     \<and> (s_status r = SendStatusFinalized \<longrightarrow> (\<forall>p \<in> set ps. p_uploaded_at p \<noteq> None))
     \<and> (s_consumed_at r \<noteq> None \<longrightarrow> s_one_time r = 1 \<and> s_status r = SendStatusFinalized)
     \<and> (gs \<noteq> [] \<longrightarrow> s_status r = SendStatusFinalized)
     \<and> (s_one_time r = 1 \<longrightarrow> length gs \<le> (if s_consumed_at r = None then 0 else 1))
     \<and> s_part_count r = int (length ps) \<and> s_total_encrypted_size r = parts_total ps"

definition life_ok :: "tables \<Rightarrow> bool" where
  "life_ok d \<longleftrightarrow> (\<forall>r \<in> set (sends d). row_ok (parts_of (s_id r) d) (grants_of (s_id r) d) r)"

definition tables_inv :: "tables \<Rightarrow> bool" where
  "tables_inv d \<longleftrightarrow> keys_unique d \<and> refs_ok d \<and> storage_keys_ok d \<and> life_ok d"

lemmas tables_inv_defs =
  tables_inv_def keys_unique_def refs_ok_def storage_keys_ok_def life_ok_def

lemma tables_inv_empty: "tables_inv empty_tables"
  by (simp add: tables_inv_defs empty_tables_def)

section \<open>Effects keep the invariant\<close>

lemma part_row_of_simps [simp]:
  "p_send_id (part_row_of sid p) = sid" "p_part_id (part_row_of sid p) = PartID p"
  "p_storage_key (part_row_of sid p) = StorageKey sid (PartID p)"
  "p_encrypted_size (part_row_of sid p) = EncryptedSize p" "p_sha256 (part_row_of sid p) = SHA256 p"
  "p_uploaded_at (part_row_of sid p) = None"
  by (simp_all add: part_row_of_def)

lemma send_row_of_simps [simp]:
  "s_id (send_row_of sid now inp) = sid" "s_status (send_row_of sid now inp) = SendStatusCreating"
  "s_consumed_at (send_row_of sid now inp) = None"
  "s_one_time (send_row_of sid now inp) = boolToInt (in_OneTime inp)"
  by (simp_all add: send_row_of_def)

lemma parts_total_map: "parts_total (map (part_row_of sid) ps) = total_size ps"
proof -
  have "foldl (\<lambda>t p. add64 t (p_encrypted_size p)) a (map (part_row_of sid) ps)
      = foldl (\<lambda>t p. add64 t (EncryptedSize p)) a ps" for a
    by (induction ps arbitrary: a) simp_all
  then show ?thesis by (simp add: parts_total_def total_size_def)
qed

lemma parts_of_create:
  "parts_of x (eff_create sid now inp d) =
     parts_of x d @ (if x = sid then map (part_row_of sid) (in_Parts inp) else [])"
  by (auto simp: parts_of_def eff_create_def filter_empty_conv filter_map comp_def)

lemma no_rows_no_parts: "refs_ok d \<Longrightarrow> sid \<notin> s_id ` set (sends d) \<Longrightarrow> parts_of sid d = [] \<and> grants_of sid d = []"
  by (auto simp: refs_ok_def parts_of_def grants_of_def filter_empty_conv)

lemma tables_inv_create [inv_rules]:
  assumes inv: "tables_inv d" and fresh: "sid \<notin> s_id ` set (sends d)"
    and dist: "distinct (map PartID (in_Parts inp))"
  shows "tables_inv (eff_create sid now inp d)"
proof -
  have refs: "refs_ok d" and uniq: "keys_unique d" and life: "life_ok d" and sk: "storage_keys_ok d"
    using inv by (simp_all add: tables_inv_def)
  have "sid \<notin> p_send_id ` set (send_parts d)" using refs fresh by (auto simp: refs_ok_def)
  then have "keys_unique (eff_create sid now inp d)"
    using uniq fresh dist
    by (auto simp: keys_unique_def eff_create_def part_key_def distinct_map inj_on_def)
  moreover have "refs_ok (eff_create sid now inp d)"
    using refs by (auto simp: refs_ok_def eff_create_def)
  moreover have "storage_keys_ok (eff_create sid now inp d)"
    using sk by (auto simp: storage_keys_ok_def eff_create_def)
  moreover have "row_ok (parts_of (s_id r) (eff_create sid now inp d))
        (grants_of (s_id r) (eff_create sid now inp d)) r"
    if r: "r \<in> set (sends (eff_create sid now inp d))" for r
  proof (cases "s_id r = sid")
    case True
    with r fresh have "r = send_row_of sid now inp" by (auto simp: eff_create_def)
    moreover have "grants_of sid (eff_create sid now inp d) = grants_of sid d"
      by (simp add: grants_of_def eff_create_def)
    ultimately show ?thesis
      using no_rows_no_parts [OF refs fresh]
      by (simp add: row_ok_def parts_of_create parts_total_map)
         (simp add: send_row_of_def boolToInt_def)
  next
    case False
    then have "r \<in> set (sends d)" using r by (auto simp: eff_create_def)
    moreover have "grants_of (s_id r) (eff_create sid now inp d) = grants_of (s_id r) d"
      by (simp add: grants_of_def eff_create_def)
    ultimately show ?thesis using life False by (simp add: life_ok_def parts_of_create)
  qed
  ultimately show ?thesis by (simp add: tables_inv_def life_ok_def)
qed

lemma tables_inv_map_parts:
  assumes inv: "tables_inv d"
    and f: "\<And>p. part_key (f p) = part_key p" "\<And>p. p_storage_key (f p) = p_storage_key p"
      "\<And>p. p_encrypted_size (f p) = p_encrypted_size p"
      "\<And>p. p_uploaded_at p \<noteq> None \<Longrightarrow> p_uploaded_at (f p) \<noteq> None"
  shows "tables_inv (d\<lparr>send_parts := map f (send_parts d)\<rparr>)"
proof -
  have key: "p_send_id (f p) = p_send_id p" "p_part_id (f p) = p_part_id p" for p
    using f(1) [of p] by (simp_all add: part_key_def)
  have po: "parts_of x (d\<lparr>send_parts := map f (send_parts d)\<rparr>) = map f (parts_of x d)" for x
    by (simp add: parts_of_def filter_map comp_def key)
  have tot: "parts_total (map f ps) = parts_total ps" for ps
  proof -
    have "foldl (\<lambda>t p. add64 t (p_encrypted_size p)) a (map f ps)
        = foldl (\<lambda>t p. add64 t (p_encrypted_size p)) a ps" for a
      by (induction ps arbitrary: a) (simp_all add: f(3))
    then show ?thesis by (simp add: parts_total_def)
  qed
  have go: "grants_of x (d\<lparr>send_parts := z\<rparr>) = grants_of x d" for x z
    by (simp add: grants_of_def)
  have "map (part_key \<circ> f) (send_parts d) = map part_key (send_parts d)"
    by (simp add: f(1))
  then have "keys_unique (d\<lparr>send_parts := map f (send_parts d)\<rparr>)"
    using inv by (simp add: tables_inv_def keys_unique_def del: map_eq_conv)
  moreover have "refs_ok (d\<lparr>send_parts := map f (send_parts d)\<rparr>)"
    using inv by (auto simp: tables_inv_defs key)
  moreover have "storage_keys_ok (d\<lparr>send_parts := map f (send_parts d)\<rparr>)"
    using inv by (auto simp: tables_inv_defs key f(2))
  moreover have "row_ok (map f (parts_of x d)) gs r" if "row_ok (parts_of x d) gs r" for x gs r
    using that f(4) by (auto simp: row_ok_def tot)
  ultimately show ?thesis
    using inv by (simp add: tables_inv_def life_ok_def po go)
qed

lemma tables_inv_mark [inv_rules]: "tables_inv d \<Longrightarrow> tables_inv (eff_mark now sid pid d)"
  unfolding eff_mark_def by (rule tables_inv_map_parts) (auto simp: part_key_def)

lemma tables_inv_map_sends:
  assumes inv: "tables_inv d" and id: "\<And>r. s_id (f r) = s_id r"
    and ok: "\<And>r. r \<in> set (sends d) \<Longrightarrow> row_ok (parts_of (s_id r) d) (grants_of (s_id r) d) r \<Longrightarrow>
        row_ok (parts_of (s_id r) d) (grants_of (s_id r) d) (f r)"
  shows "tables_inv (d\<lparr>sends := map f (sends d)\<rparr>)"
proof -
  have m: "map (s_id \<circ> f) (sends d) = map s_id (sends d)" by (simp add: id)
  then have "s_id ` f ` set (sends d) = s_id ` set (sends d)"
    by (metis set_map image_image image_set map_map)
  with m inv ok show ?thesis
    by (auto simp: tables_inv_defs parts_of_def grants_of_def id simp del: map_eq_conv)
qed

lemma tables_inv_finalize [inv_rules]:
  assumes "tables_inv d" and "\<forall>p \<in> set (parts_of sid d). p_uploaded_at p \<noteq> None"
  shows "tables_inv (eff_finalize now sid d)"
  unfolding eff_finalize_def
  using assms by (intro tables_inv_map_sends) (auto simp: row_ok_def)

lemma tables_inv_consume [inv_rules]: "tables_inv d \<Longrightarrow> tables_inv (eff_consume now sid d)"
  unfolding eff_consume_def
  by (rule tables_inv_map_sends) (auto simp: row_ok_def consumable_def)

lemma unique_row:
  "tables_inv d \<Longrightarrow> r \<in> set (sends d) \<Longrightarrow> q \<in> set (sends d) \<Longrightarrow> s_id r = s_id q \<Longrightarrow> r = q"
  by (auto simp: tables_inv_def keys_unique_def distinct_map inj_on_def)

lemma find_send_iff:
  "tables_inv d \<Longrightarrow> find_send sid d = Some r \<longleftrightarrow> r \<in> set (sends d) \<and> s_id r = sid"
  by (simp add: find_send_def find_distinct_Some tables_inv_def keys_unique_def)

lemma find_part_iff:
  "tables_inv d \<Longrightarrow> find_part sid pid d = Some p \<longleftrightarrow>
     p \<in> set (send_parts d) \<and> p_send_id p = sid \<and> p_part_id p = pid"
  using find_distinct_Some [of part_key "send_parts d" "(sid, pid)" p]
  by (auto simp: find_part_def part_key_def tables_inv_def keys_unique_def)

text \<open>A grant may be inserted for a finalized send that has none yet, or that is not one-time.\<close>

lemma tables_inv_grant [inv_rules]:
  assumes inv: "tables_inv d" and ins: "insert_grant g d = Some (d', u)"
    and ok: "\<forall>r \<in> set (sends d). s_id r = g_send_id g \<longrightarrow> s_status r = SendStatusFinalized
        \<and> (s_one_time r = 1 \<longrightarrow> s_consumed_at r \<noteq> None \<and> grants_of (s_id r) d = [])"
  shows "tables_inv d'"
proof -
  have d': "d' = eff_grant g d" and new: "g_token_hash g \<notin> g_token_hash ` set (redeem_grants d)"
    and fk: "g_send_id g \<in> s_id ` set (sends d)"
    using ins by (simp_all add: insert_grant_Some)
  have go: "grants_of x (eff_grant g d) = grants_of x d @ (if g_send_id g = x then [g] else [])" for x
    by (simp add: grants_of_def eff_grant_def)
  have po: "parts_of x (eff_grant g d) = parts_of x d" for x
    by (simp add: parts_of_def eff_grant_def)
  have s: "sends (eff_grant g d) = sends d" by (simp add: eff_grant_def)
  have "keys_unique (eff_grant g d)" "refs_ok (eff_grant g d)" "storage_keys_ok (eff_grant g d)"
    using inv new fk by (auto simp: tables_inv_defs eff_grant_def)
  moreover have "row_ok (parts_of (s_id r) (eff_grant g d)) (grants_of (s_id r) (eff_grant g d)) r"
    if r: "r \<in> set (sends d)" for r
  proof -
    have "row_ok (parts_of (s_id r) d) (grants_of (s_id r) d) r"
      using inv r by (simp add: tables_inv_def life_ok_def)
    then show ?thesis using ok r by (auto simp: row_ok_def go po split: if_splits)
  qed
  ultimately show ?thesis by (simp add: d' tables_inv_def life_ok_def s)
qed

lemma tables_inv_delete [inv_rules]:
  assumes "tables_inv d"
  shows "tables_inv (eff_delete ids d)"
proof -
  have "parts_of x (eff_delete ids d) = parts_of x d" "grants_of x (eff_delete ids d) = grants_of x d"
    if "x \<notin> ids" for x
    using that by (auto simp: parts_of_def grants_of_def eff_delete_def intro!: filter_cong)
  then show ?thesis
    using assms
    by (auto simp: tables_inv_defs eff_delete_def distinct_map_filterI)
qed

section \<open>Operations keep the invariant\<close>

text \<open>
  \<open>sql_op\<close> names a call of the state store with its arguments: the clock, the random bytes
  and the ids of the caller. \<open>sql_step\<close> is the state after the call, successful or not.
\<close>

datatype sql_op =
    OpCreate int "string option" int CreateSendInput
  | OpMark int string string
  | OpFinalize int string
  | OpRedeem "string option" int string
  | OpDelete int
  | OpStatus string
  | OpDeclared string string
  | OpValidate int string string
  | OpMeta string
  | OpLive

fun sql_step :: "sql_op \<Rightarrow> sqlite \<Rightarrow> sqlite" where
  "sql_step (OpCreate ms src now inp) s = snd (CreateSend ms src now inp s)"
| "sql_step (OpMark now sid pid) s = snd (MarkUploaded now sid pid s)"
| "sql_step (OpFinalize now sid) s = snd (FinalizeSend now sid s)"
| "sql_step (OpRedeem src now sid) s = snd (RedeemSend src now sid s)"
| "sql_step (OpDelete now) s = snd (DeleteExpired now s)"
| "sql_step (OpStatus sid) s = snd (SendStatusOf sid s)"
| "sql_step (OpDeclared sid pid) s = snd (DeclaredPart sid pid s)"
| "sql_step (OpValidate now sid h) s = snd (ValidateGrant now sid h s)"
| "sql_step (OpMeta sid) s = snd (GetSendMeta sid s)"
| "sql_step OpLive s = snd (LiveStorageKeys s)"

fun sql_run :: "sql_op list \<Rightarrow> sqlite \<Rightarrow> sqlite" where
  "sql_run [] s = s"
| "sql_run (x # xs) s = sql_run xs (sql_step x s)"

lemma result_cases:
  obtains (ok) x s' where "m = (Inr x, s')" "snd m = s'" | (err) e s' where "m = (Inl e, s')" "snd m = s'"
  by (cases m; cases "fst m") auto

lemma eff_consume_rowD:
  assumes "x \<in> set (sends (eff_consume now sid d))"
  obtains p where "p \<in> set (sends d)"
    "x = (if consumable now sid p then p\<lparr>s_consumed_at := Some (Unix now)\<rparr> else p)"
proof -
  from assms have "x \<in> set (map (\<lambda>r. if consumable now sid r
      then r\<lparr>s_consumed_at := Some (Unix now)\<rparr> else r) (sends d))"
    unfolding eff_consume_def by simp
  then show ?thesis unfolding set_map by (rule imageE) (rule that)
qed

text \<open>After the conditional UPDATE took a send, its row is the old one, marked consumed.\<close>

lemma consumed_row:
  assumes inv: "tables_inv d" and r: "r \<in> set (sends d)" "consumable now sid r"
    and x: "x \<in> set (sends (eff_consume now sid d))" "s_id x = sid"
  shows "x = r\<lparr>s_consumed_at := Some (Unix now)\<rparr>"
proof -
  obtain p where p: "p \<in> set (sends d)"
    "x = (if consumable now sid p then p\<lparr>s_consumed_at := Some (Unix now)\<rparr> else p)"
    using x(1) by (rule eff_consume_rowD)
  then have "p = r"
    using x(2) r unique_row [OF inv p(1) r(1)] by (auto simp: consumable_def split: if_splits)
  with p(2) r(2) show ?thesis by simp
qed

lemma inv_redeemed:
  assumes inv: "tables_inv d" and r: "find_send sid d = Some r" "s_status r = SendStatusFinalized"
    and ot: "s_one_time r = 1 \<longrightarrow> (\<exists>q \<in> set (sends d). consumable now sid q)"
    and ins: "insert_grant (new_grant token now ttl sid) (eff_redeem now sid r d) = Some (d', ())"
  shows "tables_inv d'"
proof -
  have mem: "r \<in> set (sends d)" "s_id r = sid" using r inv by (simp_all add: find_send_iff)
  have inv': "tables_inv (eff_redeem now sid r d)"
    using inv by (simp add: eff_redeem_def tables_inv_consume)
  have "s_status q = SendStatusFinalized
      \<and> (s_one_time q = 1 \<longrightarrow> s_consumed_at q \<noteq> None \<and> grants_of (s_id q) (eff_redeem now sid r d) = [])"
    if q: "q \<in> set (sends (eff_redeem now sid r d))" "s_id q = sid" for q
  proof (cases "s_one_time r = 1")
    case True
    with ot obtain c where c: "c \<in> set (sends d)" "consumable now sid c" by blast
    with mem inv have "c = r" by (auto simp: consumable_def dest: unique_row)
    have "row_ok (parts_of sid d) (grants_of sid d) r"
      using inv mem by (auto simp: tables_inv_def life_ok_def)
    then have "grants_of sid d = []" using True c \<open>c = r\<close> by (auto simp: row_ok_def consumable_def)
    moreover have "q \<in> set (sends (eff_consume now sid d))" using q(1) True by (simp add: eff_redeem_def)
    then have "q = r\<lparr>s_consumed_at := Some (Unix now)\<rparr>"
      using consumed_row [OF inv c] q(2) \<open>c = r\<close> by simp
    ultimately show ?thesis using True r mem
      by (simp add: eff_redeem_def eff_consume_def grants_of_def)
  next
    case False
    then have "q = r" using q mem unique_row [OF inv] by (simp add: eff_redeem_def)
    with False r show ?thesis by (simp add: eff_redeem_def)
  qed
  then have "\<forall>q \<in> set (sends (eff_redeem now sid r d)). s_id q = g_send_id (new_grant token now ttl sid) \<longrightarrow>
      s_status q = SendStatusFinalized
      \<and> (s_one_time q = 1 \<longrightarrow> s_consumed_at q \<noteq> None \<and> grants_of (s_id q) (eff_redeem now sid r d) = [])"
    by (simp add: new_grant_def)
  from tables_inv_grant [OF inv' ins this] show ?thesis .
qed

lemma tables_inv_RedeemSend:
  assumes inv: "tables_inv (db s)"
  shows "tables_inv (db (snd (RedeemSend src now sid s)))"
proof (cases rule: result_cases [of "RedeemSend src now sid s"])
  case (ok g s')
  with RedeemSend_Inr [OF ok(1)] inv show ?thesis by (auto intro: inv_redeemed)
next
  case (err e s')
  show ?thesis using RedeemSend_Inl [OF err(1)] inv err(2)
    by (auto simp: eff_redeem_def tables_inv_consume intro: inv_redeemed)
qed

lemma read_only_step:
  "db (sql_step (OpStatus sid) s) = db s" "db (sql_step (OpDeclared sid pid) s) = db s"
  "db (sql_step (OpValidate now sid h) s) = db s" "db (sql_step (OpMeta sid) s) = db s"
  "db (sql_step OpLive s) = db s"
proof -
  show "db (sql_step (OpStatus sid) s) = db s"
    by (cases rule: result_cases [of "SendStatusOf sid s"]) (auto dest!: SendStatusOf_Inr SendStatusOf_Inl)
  show "db (sql_step (OpDeclared sid pid) s) = db s"
    by (cases rule: result_cases [of "DeclaredPart sid pid s"]) (auto dest!: DeclaredPart_Inr DeclaredPart_Inl)
  show "db (sql_step (OpValidate now sid h) s) = db s"
    by (cases rule: result_cases [of "ValidateGrant now sid h s"]) (auto dest!: ValidateGrant_Inr ValidateGrant_Inl)
  show "db (sql_step (OpMeta sid) s) = db s"
    by (cases rule: result_cases [of "GetSendMeta sid s"]) (auto dest!: GetSendMeta_Inr GetSendMeta_Inl)
  show "db (sql_step OpLive s) = db s"
    by (cases rule: result_cases [of "LiveStorageKeys s"]) (auto dest!: LiveStorageKeys_Inr LiveStorageKeys_Inl)
qed

lemma tables_inv_step:
  assumes inv: "tables_inv (db s)"
  shows "tables_inv (db (sql_step x s))"
proof (cases x)
  case (OpCreate ms src now inp)
  show ?thesis
  proof (cases rule: result_cases [of "CreateSend ms src now inp s"])
    case (ok r s')
    with CreateSend_Inr [OF ok(1)] inv OpCreate show ?thesis
      by (auto intro: tables_inv_create)
  next
    case (err e s')
    with CreateSend_Inl [OF err(1)] inv OpCreate show ?thesis by simp
  qed
next
  case (OpMark now sid pid)
  show ?thesis
    by (cases rule: result_cases [of "MarkUploaded now sid pid s"])
       (use inv OpMark in \<open>auto dest!: MarkUploaded_Inr MarkUploaded_Inl intro: tables_inv_mark\<close>)
next
  case (OpFinalize now sid)
  show ?thesis
    by (cases rule: result_cases [of "FinalizeSend now sid s"])
       (use inv OpFinalize in \<open>auto dest!: FinalizeSend_Inr FinalizeSend_Inl intro!: tables_inv_finalize\<close>)
next
  case (OpRedeem src now sid)
  then show ?thesis using inv by (simp add: tables_inv_RedeemSend)
next
  case (OpDelete now)
  show ?thesis
    by (cases rule: result_cases [of "DeleteExpired now s"])
       (use inv OpDelete in \<open>auto dest!: DeleteExpired_Inr DeleteExpired_Inl intro: tables_inv_delete\<close>)
qed (use inv in \<open>simp_all only: read_only_step\<close>)

lemma tables_inv_run: "tables_inv (db s) \<Longrightarrow> tables_inv (db (sql_run xs s))"
  by (induction xs arbitrary: s) (simp_all add: tables_inv_step)

section \<open>How rows evolve\<close>

text \<open>
  Apart from creation, no operation adds a row, changes its one-time flag or forgets that it
  was consumed.
\<close>

definition evolves :: "tables \<Rightarrow> tables \<Rightarrow> bool" where
  "evolves d d' \<longleftrightarrow>
     (\<forall>r' \<in> set (sends d'). \<exists>r \<in> set (sends d). s_id r' = s_id r \<and> s_one_time r' = s_one_time r
        \<and> (s_consumed_at r \<noteq> None \<longrightarrow> s_consumed_at r' \<noteq> None))"

lemma evolves_refl [simp]: "evolves d d"
  by (auto simp: evolves_def)

lemma evolves_trans: "evolves a b \<Longrightarrow> evolves b c \<Longrightarrow> evolves a c"
  unfolding evolves_def by metis

lemma evolves_mark [simp]: "evolves d (eff_mark now sid pid d)"
  by (auto simp: evolves_def eff_mark_def)

lemma evolves_finalize [simp]: "evolves d (eff_finalize now sid d)"
  unfolding evolves_def eff_finalize_def by fastforce

lemma evolves_consume [simp]: "evolves d (eff_consume now sid d)"
  unfolding evolves_def eff_consume_def by fastforce

lemma evolves_grant [simp]: "evolves d (eff_grant g d)"
  by (auto simp: evolves_def eff_grant_def)

lemma evolves_redeem [simp]: "evolves d (eff_redeem now sid r d)"
  by (simp add: eff_redeem_def)

lemma evolves_redeem_grant [simp]: "evolves d (eff_grant g (eff_redeem now sid r d))"
  by (rule evolves_trans [of _ "eff_redeem now sid r d"]) simp_all

lemma evolves_delete [simp]: "evolves d (eff_delete ids d)"
  by (auto simp: evolves_def eff_delete_def)

definition creates :: "string \<Rightarrow> sql_op \<Rightarrow> bool" where
  "creates sid x \<longleftrightarrow> (case x of OpCreate ms src _ _ \<Rightarrow> NewSendID ms src = Some sid | _ \<Rightarrow> False)"

lemma evolves_FinalizeSend: "evolves (db s) (db (snd (FinalizeSend now sid s)))"
  by (cases rule: result_cases [of "FinalizeSend now sid s"])
     (auto dest!: FinalizeSend_Inr FinalizeSend_Inl)

lemma evolves_RedeemSend: "evolves (db s) (db (snd (RedeemSend src now sid s)))"
  by (cases rule: result_cases [of "RedeemSend src now sid s"])
     (auto dest!: RedeemSend_Inr RedeemSend_Inl)

definition spent :: "string \<Rightarrow> tables \<Rightarrow> bool" where
  "spent sid d \<longleftrightarrow> (\<forall>r \<in> set (sends d). s_id r = sid \<longrightarrow> s_one_time r = 1 \<and> s_consumed_at r \<noteq> None)"

definition one_time_only :: "string \<Rightarrow> tables \<Rightarrow> bool" where
  "one_time_only sid d \<longleftrightarrow> (\<forall>r \<in> set (sends d). s_id r = sid \<longrightarrow> s_one_time r = 1)"

lemma spent_evolves: "spent sid d \<Longrightarrow> evolves d d' \<Longrightarrow> spent sid d'"
  unfolding spent_def evolves_def by metis

lemma one_time_only_evolves: "one_time_only sid d \<Longrightarrow> evolves d d' \<Longrightarrow> one_time_only sid d'"
  unfolding one_time_only_def evolves_def by metis

lemma evolves_step:
  assumes False: "\<nexists>ms src now inp. x = OpCreate ms src now inp"
  shows "evolves (db s) (db (sql_step x s))"
proof (cases x)
  case (OpMark now sid pid)
  then show ?thesis
    by (cases rule: result_cases [of "MarkUploaded now sid pid s"])
       (auto dest!: MarkUploaded_Inr MarkUploaded_Inl)
next
  case (OpDelete now)
  then show ?thesis
    by (cases rule: result_cases [of "DeleteExpired now s"])
       (auto dest!: DeleteExpired_Inr DeleteExpired_Inl)
qed (use False in \<open>auto simp: evolves_FinalizeSend evolves_RedeemSend read_only_step simp del: sql_step.simps(6-10)\<close>)

lemma no_creation_step:
  assumes "\<not> creates sid x"
  shows "(spent sid (db s) \<longrightarrow> spent sid (db (sql_step x s)))
       \<and> (one_time_only sid (db s) \<longrightarrow> one_time_only sid (db (sql_step x s)))"
proof (cases "\<exists>ms src now inp. x = OpCreate ms src now inp")
  case False
  then have "evolves (db s) (db (sql_step x s))" by (rule evolves_step)
  then show ?thesis by (blast intro: spent_evolves one_time_only_evolves)
next
  case True
  then obtain ms src now inp where x: "x = OpCreate ms src now inp" by blast
  with assms have other: "NewSendID ms src \<noteq> Some sid" by (simp add: creates_def)
  show ?thesis
    by (cases rule: result_cases [of "CreateSend ms src now inp s"])
       (use x other in \<open>auto dest!: CreateSend_Inr CreateSend_Inl
          simp: spent_def one_time_only_def eff_create_def\<close>)
qed

fun redeems :: "string \<Rightarrow> sql_op list \<Rightarrow> sqlite \<Rightarrow> nat" where
  "redeems sid [] s = 0"
| "redeems sid (x # xs) s =
     (case x of
        OpRedeem src now i \<Rightarrow> if i = sid \<and> \<not> isl (fst (RedeemSend src now i s)) then 1 else 0
      | _ \<Rightarrow> 0) + redeems sid xs (sql_step x s)"

lemma consumed_spent:
  assumes inv: "tables_inv d" and r: "r \<in> set (sends d)" "consumable now sid r"
  shows "spent sid (eff_consume now sid d)"
  unfolding spent_def
proof (intro ballI impI)
  fix x assume "x \<in> set (sends (eff_consume now sid d))" "s_id x = sid"
  then have "x = r\<lparr>s_consumed_at := Some (Unix now)\<rparr>" by (rule consumed_row [OF inv r])
  with r(2) show "s_one_time x = 1 \<and> s_consumed_at x \<noteq> None" by (simp add: consumable_def)
qed

lemma redeem_spends:
  assumes ok: "RedeemSend src now sid s = (Inr g, s')" and ot: "one_time_only sid (db s)"
    and inv: "tables_inv (db s)"
  shows "\<not> spent sid (db s) \<and> spent sid (db s')"
proof -
  from RedeemSend_Inr [OF ok] obtain r t where r: "find_send sid (db s) = Some r"
    and c: "s_one_time r = 1 \<longrightarrow> (\<exists>q \<in> set (sends (db s)). consumable now sid q)"
    and s': "db s' = eff_grant (new_grant t now (grantTTL s) sid) (eff_redeem now sid r (db s))"
    by blast
  have mem: "r \<in> set (sends (db s))" "s_id r = sid" using r inv by (simp_all add: find_send_iff)
  with ot have one: "s_one_time r = 1" by (auto simp: one_time_only_def)
  with c obtain q where q: "q \<in> set (sends (db s))" "consumable now sid q" by blast
  then have "q = r" using unique_row [OF inv, of q r] mem by (auto simp: consumable_def)
  with q mem have "\<not> spent sid (db s)" by (auto simp: spent_def consumable_def)
  moreover have "spent sid (eff_consume now sid (db s))" using inv q one \<open>q = r\<close> by (intro consumed_spent)
  then have "spent sid (db s')" using one by (simp add: s' eff_redeem_def spent_def eff_grant_def)
  ultimately show ?thesis ..
qed

lemma redeems_bound:
  assumes "tables_inv (db s)" "one_time_only sid (db s)" "\<forall>x \<in> set xs. \<not> creates sid x"
  shows "redeems sid xs s \<le> (if spent sid (db s) then 0 else 1)"
  using assms
proof (induction xs arbitrary: s)
  case (Cons x xs)
  have next_inv: "tables_inv (db (sql_step x s))" using Cons.prems by (simp add: tables_inv_step)
  have nc: "\<not> creates sid x" using Cons.prems by simp
  note keep = no_creation_step [OF nc, of s]
  have IH: "redeems sid xs (sql_step x s) \<le> (if spent sid (db (sql_step x s)) then 0 else 1)"
    using Cons.IH [OF next_inv] keep Cons.prems by simp
  show ?case
  proof (cases "\<exists>src now. x = OpRedeem src now sid \<and> \<not> isl (fst (RedeemSend src now sid s))")
    case True
    then obtain src now g where x: "x = OpRedeem src now sid"
      and g: "fst (RedeemSend src now sid s) = Inr g"
      by (auto simp: isl_def) (metis sum.exhaust)
    have "RedeemSend src now sid s = (Inr g, sql_step x s)" using x g by (simp add: prod_eq_iff)
    from redeem_spends [OF this Cons.prems(2,1)] IH x g show ?thesis by simp
  next
    case False
    then have "redeems sid (x # xs) s = redeems sid xs (sql_step x s)"
      by (cases x) auto
    with IH keep show ?thesis by (auto split: if_splits)
  qed
qed simp

lemma redeems_append: "redeems sid (xs @ ys) s = redeems sid xs s + redeems sid ys (sql_run xs s)"
  by (induction xs arbitrary: s) simp_all

lemma redeems_creation: "creates sid x \<Longrightarrow> redeems sid (x # xs) s = redeems sid xs (sql_step x s)"
  by (cases x) (simp_all add: creates_def)

lemma no_creation_run:
  "\<forall>x \<in> set xs. \<not> creates sid x \<Longrightarrow> sid \<notin> s_id ` set (sends (db s)) \<Longrightarrow>
     sid \<notin> s_id ` set (sends (db (sql_run xs s)))"
proof (induction xs arbitrary: s)
  case (Cons x xs)
  have "sid \<notin> s_id ` set (sends (db (sql_step x s)))"
  proof (cases "\<exists>ms src now inp. x = OpCreate ms src now inp")
    case True
    then obtain ms src now inp where x: "x = OpCreate ms src now inp" by blast
    with Cons.prems(1) have "NewSendID ms src \<noteq> Some sid" by (simp add: creates_def)
    then show ?thesis using x Cons.prems(2)
      by (cases rule: result_cases [of "CreateSend ms src now inp s"])
         (auto dest!: CreateSend_Inr CreateSend_Inl simp: eff_create_def)
  next
    case False
    then have "evolves (db s) (db (sql_step x s))" by (rule evolves_step)
    with Cons.prems(2) show ?thesis by (auto simp: evolves_def)
  qed
  with Cons show ?case by simp
qed simp

lemma one_time_only_create:
  assumes "sid \<notin> s_id ` set (sends d)" "in_OneTime inp"
  shows "one_time_only sid (eff_create sid now inp d)"
  unfolding one_time_only_def
proof (intro ballI impI)
  fix r assume r: "r \<in> set (sends (eff_create sid now inp d))" "s_id r = sid"
  then consider "r \<in> set (sends d)" | "r = send_row_of sid now inp"
    by (auto simp: eff_create_def)
  then show "s_one_time r = 1"
    using r(2) assms by cases (blast, simp add: boolToInt_def)
qed

end
