(* ===== verification/SqliteStore.thy ===== *)
theory SqliteStore
  imports Interfaces SqliteInv
begin

text \<open>
  \<open>SQLiteState\<close> as a value of the interface \<open>StateStore\<close>, and its laws.
\<close>

definition sqlite_state :: "sqlite state_ops" where
  "sqlite_state =
     \<lparr>st_CreateSend = (\<lambda>e inp s. CreateSend (UnixMilli (wall e)) (entropy e) (clock e) inp s),
      st_SendStatusOf = SendStatusOf,
      st_DeclaredPart = DeclaredPart,
      st_MarkUploaded = (\<lambda>e sid pid s. MarkUploaded (clock e) sid pid s),
      st_FinalizeSend = (\<lambda>e sid s. FinalizeSend (clock e) sid s),
      st_RedeemSend = (\<lambda>e sid s. RedeemSend (entropy e) (clock e) sid s),
      st_ValidateGrant = (\<lambda>e sid h s. ValidateGrant (clock e) sid h s),
      st_GetSendMeta = GetSendMeta,
      st_DeleteExpired = DeleteExpired,
      st_LiveStorageKeys = LiveStorageKeys,
      st_Close = Close\<rparr>"

lemma sqlite_state_simps [simp]:
  "st_CreateSend sqlite_state e inp s = CreateSend (UnixMilli (wall e)) (entropy e) (clock e) inp s"
  "st_SendStatusOf sqlite_state = SendStatusOf" "st_DeclaredPart sqlite_state = DeclaredPart"
  "st_MarkUploaded sqlite_state e sid pid s = MarkUploaded (clock e) sid pid s"
  "st_FinalizeSend sqlite_state e sid s = FinalizeSend (clock e) sid s"
  "st_RedeemSend sqlite_state e sid s = RedeemSend (entropy e) (clock e) sid s"
  "st_ValidateGrant sqlite_state e sid h s = ValidateGrant (clock e) sid h s"
  "st_GetSendMeta sqlite_state = GetSendMeta" "st_DeleteExpired sqlite_state = DeleteExpired"
  "st_LiveStorageKeys sqlite_state = LiveStorageKeys" "st_Close sqlite_state = Close"
  by (simp_all add: sqlite_state_def)

definition sid_ok :: "string \<Rightarrow> bool" where
  "sid_ok sid \<longleftrightarrow> plain sid \<and> \<not> Contains sid ''..''"

definition ids_ok :: "tables \<Rightarrow> bool" where
  "ids_ok d \<longleftrightarrow> (\<forall>r \<in> set (sends d). sid_ok (s_id r))"

definition sql_ok :: "sqlite \<Rightarrow> bool" where
  "sql_ok s \<longleftrightarrow> tables_inv (db s) \<and> ids_ok (db s)"

definition part_info :: "part_row \<Rightarrow> PartMeta \<times> bool" where
  "part_info p = (\<lparr>PartID = p_part_id p, EncryptedSize = p_encrypted_size p, SHA256 = p_sha256 p\<rparr>,
                  p_uploaded_at p \<noteq> None)"

definition declared_in :: "tables \<Rightarrow> part_table" where
  "declared_in d = (\<lambda>(i, p). map_option part_info (find_part i p d))"

section \<open>Identifiers\<close>

lemma no_dots: "CHR ''.'' \<notin> set w \<Longrightarrow> \<not> Contains w ''..''"
  by (auto simp: Contains_iff)

lemma NewSendID_ok: "NewSendID ms src = Some sid \<Longrightarrow> sid_ok sid"
proof -
  assume "NewSendID ms src = Some sid"
  from send_id_shape [OF this] have s: "sid \<noteq> []" "set sid \<subseteq> set (''snd_'' @ b32_lower)" by auto
  then have "CHR ''.'' \<notin> set sid" "CHR ''/'' \<notin> set sid" by (auto simp: b32_lower_def)
  with s(1) no_dots [of sid] show "sid_ok sid" by (auto simp: sid_ok_def plain_def)
qed

lemma ids_ok_evolves: "ids_ok d \<Longrightarrow> evolves d d' \<Longrightarrow> ids_ok d'"
  unfolding ids_ok_def evolves_def by metis

lemma sql_ok_step: "sql_ok s \<Longrightarrow> sql_ok (sql_step x s)"
proof (cases "\<exists>ms src now inp. x = OpCreate ms src now inp")
  case True
  then obtain ms src now inp where x: "x = OpCreate ms src now inp" by blast
  assume ok: "sql_ok s"
  then have "ids_ok (db (sql_step x s))"
    by (cases rule: result_cases [of "CreateSend ms src now inp s"])
       (auto dest!: CreateSend_Inr CreateSend_Inl simp: x sql_ok_def ids_ok_def eff_create_def NewSendID_ok)
  with ok show ?thesis by (simp add: sql_ok_def tables_inv_step)
next
  case False
  assume "sql_ok s"
  then show ?thesis
    using ids_ok_evolves [OF _ evolves_step [OF False, of s]] by (simp add: sql_ok_def tables_inv_step)
qed

section \<open>What is declared\<close>

lemma declared_same_parts: "send_parts d' = send_parts d \<Longrightarrow> declared_in d' = declared_in d"
  by (simp add: declared_in_def find_part_def fun_eq_iff)

lemma declared_finalize: "send_parts (db (snd (FinalizeSend now sid s))) = send_parts (db s)"
  by (cases rule: result_cases [of "FinalizeSend now sid s"])
     (auto dest!: FinalizeSend_Inr FinalizeSend_Inl simp: eff_finalize_def)

lemma declared_redeem: "send_parts (db (snd (RedeemSend src now sid s))) = send_parts (db s)"
  by (cases rule: result_cases [of "RedeemSend src now sid s"])
     (auto dest!: RedeemSend_Inr RedeemSend_Inl simp: eff_redeem_def eff_consume_def eff_grant_def)

lemma declared_iff:
  "tables_inv d \<Longrightarrow> declared_in d (i, p) = Some x \<longleftrightarrow>
     (\<exists>r \<in> set (send_parts d). p_send_id r = i \<and> p_part_id r = p \<and> x = part_info r)"
  by (auto simp: declared_in_def find_part_iff)

lemma part_info_new [simp]: "part_info (part_row_of i m) = (m, False)"
  by (simp add: part_info_def part_row_of_def)

lemma find_append: "List.find P (xs @ ys) = (case List.find P xs of None \<Rightarrow> List.find P ys | Some x \<Rightarrow> Some x)"
  by (induction xs) auto

lemma find_map: "List.find P (map f xs) = map_option f (List.find (P \<circ> f) xs)"
  by (induction xs) auto

lemma find_none: "(\<And>x. x \<in> set xs \<Longrightarrow> \<not> P x) \<Longrightarrow> List.find P xs = None"
  by (induction xs) auto

lemma find_filter: "(\<And>x. P x \<Longrightarrow> Q x) \<Longrightarrow> List.find P (filter Q xs) = List.find P xs"
  by (induction xs) auto

lemma declared_create:
  assumes refs: "refs_ok d" and new: "i \<notin> s_id ` set (sends d)"
  shows "declared_in (eff_create i now inp d) = declare_parts i (in_Parts inp) (declared_in d)"
proof (rule ext, clarify)
  fix j p
  let ?P = "\<lambda>r. (p_send_id r, p_part_id r) = (j, p)"
  have fresh: "List.find ?P (map (part_row_of i) ps) =
      (if j = i then map_option (part_row_of i) (List.find (\<lambda>m. PartID m = p) ps) else None)" for ps
    by (auto simp: find_map comp_def intro: find_none)
  have none: "List.find ?P (send_parts d) = None" if "j = i"
    using that new refs by (intro find_none) (auto simp: refs_ok_def)
  have "find_part j p (eff_create i now inp d) =
      (if j = i then map_option (part_row_of i) (List.find (\<lambda>m. PartID m = p) (in_Parts inp)) else find_part j p d)"
  proof (cases "j = i")
    case True
    then show ?thesis using none fresh [of "in_Parts inp"] by (simp add: find_part_def eff_create_def find_append del: prod.inject)
  next
    case False
    then show ?thesis using fresh [of "in_Parts inp"]
      by (simp add: find_part_def eff_create_def find_append del: prod.inject split: option.split)
  qed
  then show "declared_in (eff_create i now inp d) (j, p) = declare_parts i (in_Parts inp) (declared_in d) (j, p)"
    by (simp add: declared_in_def declare_parts_def option.map_comp comp_def)
qed

lemma declared_mark: "declared_in (eff_mark now i p d) = mark_part (i, p) (declared_in d)"
proof (rule ext, clarify)
  fix j q
  let ?P = "\<lambda>r. (p_send_id r, p_part_id r) = (j, q)"
    and ?f = "\<lambda>r. if p_send_id r = i \<and> p_part_id r = p then r\<lparr>p_uploaded_at := Some (Unix now)\<rparr> else r"
  have c: "?P \<circ> ?f = ?P" by (rule ext) auto
  have m: "send_parts (eff_mark now i p d) = map ?f (send_parts d)" by (simp add: eff_mark_def)
  have f: "find_part j q (eff_mark now i p d) = map_option ?f (find_part j q d)"
    by (simp only: find_part_def m find_map c)
  show "declared_in (eff_mark now i p d) (j, q) = mark_part (i, p) (declared_in d) (j, q)"
  proof (cases "find_part j q d")
    case (Some r)
    then have "p_send_id r = j" "p_part_id r = q" by (auto simp: find_part_def dest: find_SomeD)
    then show ?thesis
      by (cases "j = i \<and> q = p") (use Some f in \<open>auto simp: declared_in_def mark_part_def part_info_def\<close>)
  qed (auto simp: declared_in_def mark_part_def f)
qed

lemma declared_delete: "declared_in (eff_delete ids d) = drop_sends ids (declared_in d)"
proof (rule ext, clarify)
  fix j q
  have "find_part j q (eff_delete ids d) = (if j \<in> ids then None else find_part j q d)"
    by (auto simp: find_part_def eff_delete_def intro!: find_none find_filter)
  then show "declared_in (eff_delete ids d) (j, q) = drop_sends ids (declared_in d) (j, q)"
    by (simp add: declared_in_def drop_sends_def)
qed

lemma part_keys_declared:
  assumes inv: "tables_inv d"
  shows "p_storage_key ` {r \<in> set (send_parts d). p_send_id r \<in> I} =
     {StorageKey i p |i p. i \<in> I \<and> declared_in d (i, p) \<noteq> None}"
proof (intro equalityI subsetI)
  fix k assume "k \<in> p_storage_key ` {r \<in> set (send_parts d). p_send_id r \<in> I}"
  then obtain r where r: "r \<in> set (send_parts d)" "p_send_id r \<in> I" "k = p_storage_key r" by blast
  then have "k = StorageKey (p_send_id r) (p_part_id r)" using inv by (simp add: tables_inv_def storage_keys_ok_def)
  moreover have "declared_in d (p_send_id r, p_part_id r) = Some (part_info r)"
    using r(1) by (auto simp: declared_iff [OF inv])
  ultimately show "k \<in> {StorageKey i p |i p. i \<in> I \<and> declared_in d (i, p) \<noteq> None}" using r(2) by blast
next
  fix k assume "k \<in> {StorageKey i p |i p. i \<in> I \<and> declared_in d (i, p) \<noteq> None}"
  then obtain i p x where k: "k = StorageKey i p" "i \<in> I" "declared_in d (i, p) = Some x" by blast
  then obtain r where r: "r \<in> set (send_parts d)" "p_send_id r = i" "p_part_id r = p"
    by (auto simp: declared_iff [OF inv])
  moreover have "p_storage_key r = StorageKey i p" using r inv by (simp add: tables_inv_def storage_keys_ok_def)
  ultimately show "k \<in> p_storage_key ` {r \<in> set (send_parts d). p_send_id r \<in> I}"
    using k by (intro image_eqI [of _ _ r]) auto
qed

section \<open>The laws\<close>

abbreviation declared_parts :: "sqlite \<Rightarrow> part_table" where
  "declared_parts s \<equiv> declared_in (db s)"

lemma read_only_declared:
  "db s' = db s \<Longrightarrow> sql_ok s \<Longrightarrow> sql_ok s' \<and> declared_parts s' = declared_parts s"
  by (simp add: sql_ok_def)

lemma granted_parts_uploaded:
  assumes ok: "sql_ok s" and v: "ValidateGrant now i h s = (Inr u, s')"
    and d: "declared_parts s (i, p) = Some (m, up)"
  shows up
proof -
  have inv: "tables_inv (db s)" using ok by (simp add: sql_ok_def)
  from ValidateGrant_Inr [OF v] obtain g where g: "g \<in> set (redeem_grants (db s))" "g_send_id g = i" by blast
  then obtain r where r: "r \<in> set (sends (db s))" "s_id r = i"
    using inv by (force simp: tables_inv_def refs_ok_def)
  have row: "row_ok (parts_of i (db s)) (grants_of i (db s)) r"
    using inv r by (auto simp: tables_inv_def life_ok_def)
  moreover have "grants_of i (db s) \<noteq> []" using g by (auto simp: grants_of_def filter_empty_conv)
  ultimately have "\<forall>q \<in> set (parts_of i (db s)). p_uploaded_at q \<noteq> None" by (auto simp: row_ok_def)
  then show ?thesis using d by (auto simp: declared_iff [OF inv] part_info_def parts_of_def)
qed

lemma sql_ok_parts: "sql_ok s \<Longrightarrow> sql_ok s' \<Longrightarrow> send_parts (db s') = send_parts (db s) \<Longrightarrow>
    sql_ok s' \<and> declared_parts s' = declared_parts s"
  using declared_same_parts by blast

interpretation sq: state_store sqlite_state sql_ok declared_parts sid_ok
proof
  fix i assume "sid_ok i" then show "CHR ''/'' \<notin> set i" by (simp add: sid_ok_def plain_def)
next
  fix s i p assume s: "sql_ok s" "declared_parts s (i, p) \<noteq> None"
  then have inv: "tables_inv (db s)" by (simp add: sql_ok_def)
  from s(2) obtain r where "r \<in> set (send_parts (db s))" "p_send_id r = i"
    by (auto simp: declared_iff [OF inv])
  then obtain q where "q \<in> set (sends (db s))" "s_id q = i" using inv by (force simp: tables_inv_def refs_ok_def)
  then show "sid_ok i" using s(1) by (auto simp: sql_ok_def ids_ok_def)
next
  fix s i assume s: "sql_ok s"
  show "sql_ok (snd (st_SendStatusOf sqlite_state i s)) \<and> declared_parts (snd (st_SendStatusOf sqlite_state i s)) = declared_parts s"
    using read_only_step(1) [of i s] s by (intro read_only_declared) simp_all
  show "sql_ok (snd (st_GetSendMeta sqlite_state i s)) \<and> declared_parts (snd (st_GetSendMeta sqlite_state i s)) = declared_parts s"
    using read_only_step(4) [of i s] s by (intro read_only_declared) simp_all
  show "sql_ok (snd (st_LiveStorageKeys sqlite_state s)) \<and> declared_parts (snd (st_LiveStorageKeys sqlite_state s)) = declared_parts s"
    using read_only_step(5) [of s] s by (intro read_only_declared) simp_all
  show "sql_ok (snd (st_Close sqlite_state s)) \<and> declared_parts (snd (st_Close sqlite_state s)) = declared_parts s"
    using Close_db [of s] s by (intro read_only_declared) simp_all
next
  fix s i p assume s: "sql_ok s"
  show "sql_ok (snd (st_DeclaredPart sqlite_state i p s)) \<and> declared_parts (snd (st_DeclaredPart sqlite_state i p s)) = declared_parts s"
    using read_only_step(2) [of i p s] s by (intro read_only_declared) simp_all
next
  fix s s' i p m up
  assume "sql_ok s" "st_DeclaredPart sqlite_state i p s = (Inr (m, up), s')"
  then show "declared_parts s (i, p) = Some (m, up)"
    using DeclaredPart_Inr [of i p s m up s']
    by (auto simp: declared_in_def part_info_def find_part_def dest: find_SomeD)
next
  fix s i p m up assume "sql_ok s" "declared_parts s (i, p) = Some (m, up)"
  then show "PartID m = p"
    by (auto simp: declared_in_def part_info_def find_part_def dest: find_SomeD)
next
  fix s and e :: env and i h assume s: "sql_ok s"
  show "sql_ok (snd (st_ValidateGrant sqlite_state e i h s)) \<and> declared_parts (snd (st_ValidateGrant sqlite_state e i h s)) = declared_parts s"
    using read_only_step(3) [of "clock e" i h s] s by (intro read_only_declared) simp_all
next
  fix s and e :: env and i assume s: "sql_ok s"
  show "sql_ok (snd (st_FinalizeSend sqlite_state e i s)) \<and> declared_parts (snd (st_FinalizeSend sqlite_state e i s)) = declared_parts s"
    using sql_ok_step [OF s, of "OpFinalize (clock e) i"] declared_finalize by (intro sql_ok_parts [OF s]) simp_all
  show "sql_ok (snd (st_RedeemSend sqlite_state e i s)) \<and> declared_parts (snd (st_RedeemSend sqlite_state e i s)) = declared_parts s"
    using sql_ok_step [OF s, of "OpRedeem (entropy e) (clock e) i"] declared_redeem by (intro sql_ok_parts [OF s]) simp_all
next
  fix s ks s' assume s: "sql_ok s" "st_LiveStorageKeys sqlite_state s = (Inr ks, s')"
  then have "set ks = p_storage_key ` {r \<in> set (send_parts (db s)). p_send_id r \<in> UNIV}"
    using LiveStorageKeys_Inr [of s ks s'] by simp
  also have "\<dots> = storage_keys (declared_parts s)"
    using part_keys_declared [of "db s" UNIV] s(1) by (simp add: sql_ok_def storage_keys_def)
  finally show "set ks = storage_keys (declared_parts s)" .
next
  fix s and e :: env and inp assume s: "sql_ok s"
  show "sql_ok (snd (st_CreateSend sqlite_state e inp s))"
    using sql_ok_step [OF s, of "OpCreate (UnixMilli (wall e)) (entropy e) (clock e) inp"] by simp
next
  fix s s' r and e :: env and inp
  assume s: "sql_ok s" and c: "st_CreateSend sqlite_state e inp s = (Inr r, s')"
  then obtain sid where sid: "NewSendID (UnixMilli (wall e)) (entropy e) = Some sid" "rec_ID r = sid"
    "db s' = eff_create sid (clock e) inp (db s)" "sid \<notin> s_id ` set (sends (db s))"
    using CreateSend_Inr [of "UnixMilli (wall e)" "entropy e" "clock e" inp s r s'] by auto
  have refs: "refs_ok (db s)" using s by (simp add: sql_ok_def tables_inv_def)
  have "find_part sid p (db s) = None" for p
    using refs sid(4) unfolding find_part_def by (intro find_none) (auto simp: refs_ok_def)
  then show "sid_ok (rec_ID r) \<and> (\<forall>p. declared_parts s (rec_ID r, p) = None)
        \<and> declared_parts s' = declare_parts (rec_ID r) (in_Parts inp) (declared_parts s)"
    using NewSendID_ok [OF sid(1)] declared_create [OF refs sid(4)] sid(2,3) by (simp add: declared_in_def)
next
  fix s s' x and e :: env and inp
  assume "sql_ok s" and c: "st_CreateSend sqlite_state e inp s = (Inl x, s')"
  then show "declared_parts s' = declared_parts s"
    using CreateSend_Inl [of "UnixMilli (wall e)" "entropy e" "clock e" inp s x s'] by simp
next
  fix s and e :: env and i p assume s: "sql_ok s"
  show "sql_ok (snd (st_MarkUploaded sqlite_state e i p s))"
    using sql_ok_step [OF s, of "OpMark (clock e) i p"] by simp
  show "declared_parts (snd (st_MarkUploaded sqlite_state e i p s))
        = (if isl (fst (st_MarkUploaded sqlite_state e i p s)) then declared_parts s
           else mark_part (i, p) (declared_parts s))"
    by (cases rule: result_cases [of "MarkUploaded (clock e) i p s"])
       (auto dest!: MarkUploaded_Inr MarkUploaded_Inl simp: declared_mark)
next
  fix s now assume s: "sql_ok s"
  show "sql_ok (snd (st_DeleteExpired sqlite_state now s))"
    using sql_ok_step [OF s, of "OpDelete now"] by simp
next
  fix s s' now n keys
  assume s: "sql_ok s" and d: "st_DeleteExpired sqlite_state now s = (Inr (n, keys), s')"
  let ?I = "set (dead_ids (grantTTL s) now (db s))"
  have "set keys = p_storage_key ` {r \<in> set (send_parts (db s)). p_send_id r \<in> ?I}" "db s' = eff_delete ?I (db s)"
    using DeleteExpired_Inr [of now s n keys s'] d by auto
  then show "\<exists>dead. declared_parts s' = drop_sends dead (declared_parts s)
          \<and> set keys = {StorageKey i p |i p. i \<in> dead \<and> declared_parts s (i, p) \<noteq> None}"
    using part_keys_declared [of "db s" ?I] s by (intro exI [of _ ?I]) (simp add: sql_ok_def declared_delete)
next
  fix s s' now x
  assume "sql_ok s" and d: "st_DeleteExpired sqlite_state now s = (Inl x, s')"
  then show "declared_parts s' = declared_parts s" using DeleteExpired_Inl [of now s x s'] by simp
next
  fix s s' u and e :: env and i h p m up
  assume "sql_ok s" "st_ValidateGrant sqlite_state e i h s = (Inr u, s')" "declared_parts s (i, p) = Some (m, up)"
  then show up using granted_parts_uploaded [of s "clock e" i h u s' p m up] by simp
qed

end
