(* ===== verification/FsblobProps.thy ===== *)
theory FsblobProps
  imports FsblobSpec
begin

text \<open>
  The effects of \<open>Open\<close>, \<open>Delete\<close> and \<open>List\<close> on the visible blobs, and the properties of the
  blob store.
\<close>

section \<open>Open\<close>

lemma Open_effect:
  assumes ok: "blob_ok b" and op: "Open key b = (res, b')"
  shows "nodes b' = nodes b \<and> dir b' = dir b
     \<and> (\<forall>q. loc key = Some q \<longrightarrow>
          (\<forall>c. res = Inr (File c) \<longrightarrow> view b q = Some c)
          \<and> (res = Inr Directory \<or> res = Inl ErrNotFound \<longrightarrow> view b q = None))"
proof (cases "valid_key key")
  case False
  with op show ?thesis by (auto simp: Open_def resolve_ok [OF ok])
next
  case k: True
  let ?p = "root b @ names key"
  obtain r1 b1 where c: "os_call (sys_open (kpath (rooted_path ?p))) b = (r1, b1)" by force
  have kp: "kpath (rooted_path ?p) = ?p"
    using blob_ok_root(3) [OF ok] names_no_dots(1) [OF k] by (intro kpath_rooted) auto
  have s: "nodes b1 = nodes b \<and> dir b1 = dir b"
    using c by (cases r1) (auto dest!: os_call_Inr os_call_Inl simp: sys_open_def)
  have r: "(\<forall>x. r1 = Inr x \<longrightarrow> lookup (nodes b) ?p = Some x) \<and> (r1 = Inl NotExist \<longrightarrow> lookup (nodes b) ?p = None)"
    using c by (cases r1) (auto dest!: os_call_Inr os_call_Inl simp: sys_open_def kp split: option.splits)
  show ?thesis
  proof (cases r1)
    case (Inl e)
    with op c k s r show ?thesis
      by (cases e) (auto simp: Open_def resolve_ok [OF ok] loc_def view_def fview_def)
  next
    case (Inr x)
    with op c k s r show ?thesis
      by (auto simp: Open_def resolve_ok [OF ok] loc_def view_def fview_def split: if_splits)
  qed
qed

lemma Open_total:
  assumes ok: "blob_ok b" and nf: "fsFaults b = []" and q: "loc key = Some q" "view b q = Some c"
  shows "Open key b = (Inr (File c), b)"
proof -
  from q have k: "valid_key key" "q = names key" by (auto simp: loc_def split: if_splits)
  let ?p = "root b @ names key"
  have kp: "kpath (rooted_path ?p) = ?p"
    using blob_ok_root(3) [OF ok] names_no_dots(1) [OF k(1)] by (intro kpath_rooted) auto
  have "lookup (nodes b) ?p = Some (File c)"
    using q(2) k(2) by (auto simp: view_def fview_def split: if_splits option.splits node.splits)
  then show ?thesis
    using k by (simp add: Open_def resolve_ok [OF ok] os_call_def nf sys_open_def kp)
qed

section \<open>Delete\<close>

lemma Remove_effect:
  assumes ok: "ns_ok rt (nodes b)" and r: "Remove p b = (r, b')"
  shows "dir b' = dir b \<and> ns_ok rt (nodes b')
     \<and> fview (nodes b') = (if r = Inr () then (fview (nodes b))(kpath p := None) else fview (nodes b))
     \<and> (r = Inl NotExist \<longrightarrow> fview (nodes b) (kpath p) = None)"
proof (cases "sys_remove (kpath p) (nodes b)")
  case (Pair ns' x)
  from sys_remove_effect [OF ok Pair] Pair r ok show ?thesis
    by (cases r) (auto simp: Remove_def dest!: os_call_Inr os_call_Inl)
qed

lemma not_file_parent:
  assumes ok: "ns_ok rt ns" and q: "q \<noteq> []" and r: "sys_remove q ns = (ns', Inr ()) \<or> sys_remove q ns = (ns', Inl NotExist)"
  shows "fview ns (butlast q) = None"
proof (cases "lookup ns q")
  case None
  with r have m: "missing ns q = NotExist" by (auto simp: sys_remove_def)
  show ?thesis
  proof (cases "butlast q = []")
    case True
    then show ?thesis by (simp add: fview_def lookup_def)
  next
    case False
    then have "length (butlast q) \<in> {1..<length q}" using q
      by (metis One_nat_def Suc_leI atLeastLessThan_iff length_append_singleton append_butlast_last_id
          length_greater_0_conv lessI)
    with m have "\<forall>c. lookup ns (take (length (butlast q)) q) \<noteq> Some (File c)"
      by (auto simp: missing_def split: if_splits)
    moreover have "take (length (butlast q)) q = butlast q" by (simp add: butlast_conv_take)
    ultimately show ?thesis by (auto simp: fview_def split: option.splits node.splits)
  qed
next
  case (Some x)
  then have "q \<in> fst ` set ns" using lookup_in [OF q] by force
  from ns_ok_parent [OF ok this] show ?thesis by (simp add: fview_def)
qed

lemma Delete_effect:
  assumes ok: "blob_ok b" and del: "Delete key b = (res, b')"
  shows "blob_ok b' \<and> dir b' = dir b
     \<and> (res = Inr () \<longrightarrow> valid_key key
          \<and> view b' = (case loc key of None \<Rightarrow> view b | Some q \<Rightarrow> (view b)(q := None)))
     \<and> (\<forall>e. res = Inl e \<longrightarrow> view b' = view b)"
proof (cases "valid_key key")
  case False
  with ok del show ?thesis by (auto simp: Delete_def resolve_ok [OF ok])
next
  case k: True
  note rt = blob_ok_root [OF ok]
  let ?p = "root b @ names key"
  have pl: "\<forall>w \<in> set ?p. plain w" using rt(3) names_no_dots(1) [OF k] by auto
  have ne: "?p \<noteq> []" using rt(2) by simp
  have kp: "kpath (rooted_path ?p) = ?p" using pl by (rule kpath_rooted)
  have kd: "kpath (Dir (rooted_path ?p)) = butlast ?p"
  proof -
    have "CHR ''/'' \<notin> set (last ?p)" using pl last_in_set [OF ne] unfolding plain_def by blast
    then have "Dir (rooted_path (butlast ?p @ [last ?p])) = rooted_path (butlast ?p)"
      using pl by (intro Dir_rooted) (auto dest: in_set_butlastD)
    then have "Dir (rooted_path ?p) = rooted_path (butlast ?p)" using ne by (metis append_butlast_last_id)
    moreover have "\<forall>w \<in> set (butlast ?p). plain w" using pl by (meson in_set_butlastD)
    ultimately show ?thesis by (simp only: kpath_rooted)
  qed
  obtain r1 b1 where r1: "Remove (rooted_path ?p) b = (r1, b1)" by force
  obtain r2 b2 where r2: "Remove (Dir (rooted_path ?p)) b1 = (r2, b2)" by force
  have e1: "dir b1 = dir b \<and> ns_ok (root b) (nodes b1)
     \<and> fview (nodes b1) = (if r1 = Inr () then (fview (nodes b))(?p := None) else fview (nodes b))
     \<and> (r1 = Inl NotExist \<longrightarrow> fview (nodes b) ?p = None)"
    using Remove_effect [OF rt(4) r1] by (simp add: kp)
  have keep: "blob_ok b1" using e1 ok by (auto simp: blob_ok_def)
  have vw: "view b1 = (if r1 = Inr () then case loc key of None \<Rightarrow> view b | Some q \<Rightarrow> (view b)(q := None) else view b)"
    using e1 k by (auto simp: view_def loc_def fun_eq_iff)
  show ?thesis
  proof (cases "r1 = Inl OtherErrno")
    case True
    with del k r1 e1 keep vw show ?thesis by (auto simp: Delete_def resolve_ok [OF ok])
  next
    case False
    then have res: "res = Inr ()" "b' = b2"
      using del k r1 r2 by (auto simp: Delete_def resolve_ok [OF ok] split: sum.splits errno.splits)
    have "fview (nodes b) (butlast ?p) = None"
    proof -
      obtain ns' x where sr: "sys_remove ?p (nodes b) = (ns', x)" by force
      have "x = r1" using r1 sr False
        by (cases r1) (auto simp: Remove_def kp dest!: os_call_Inr os_call_Inl)
      with False have "x = Inr () \<or> x = Inl NotExist" by (cases r1; cases "projl r1") auto
      with not_file_parent [OF rt(4) ne] sr show ?thesis by blast
    qed
    moreover have "butlast ?p \<noteq> ?p" using ne by (metis append_butlast_last_id append_self_conv list.distinct(1))
    ultimately have "fview (nodes b1) (butlast ?p) = None" using e1 by auto
    then have e2: "dir b2 = dir b \<and> ns_ok (root b) (nodes b2) \<and> fview (nodes b2) = fview (nodes b1)"
      using Remove_effect [OF _ r2, of "root b"] e1 unfolding kd by (auto simp: fun_eq_iff)
    then have "view b2 = view b1" using e1 by (simp add: view_def fun_eq_iff)
    moreover have "view b1 = (case loc key of None \<Rightarrow> view b | Some q \<Rightarrow> (view b)(q := None))"
    proof (cases "r1 = Inr ()")
      case False': False
      with \<open>r1 \<noteq> Inl OtherErrno\<close> have "r1 = Inl NotExist" by (cases r1; cases "projl r1") auto
      then have "fview (nodes b) ?p = None" using e1 by simp
      then show ?thesis using vw False' by (auto simp: loc_def view_def fun_eq_iff)
    qed (use vw in simp)
    ultimately show ?thesis using res k e2 ok by (auto simp: blob_ok_def)
  qed
qed

lemma Delete_total:
  assumes ok: "blob_ok b" and nf: "fsFaults b = []" and q: "loc key = Some q"
  shows "view (snd (Delete key b)) = (view b)(q := None) \<and> fsFaults (snd (Delete key b)) = []"
proof -
  from q have k: "valid_key key" "q = names key" "names key \<noteq> []" "\<not> hidden (names key)" by (auto simp: loc_def split: if_splits)
  let ?p = "root b @ names key"
  have kp: "kpath (rooted_path ?p) = ?p"
    using blob_ok_root(3) [OF ok] names_no_dots(1) [OF k(1)] by (intro kpath_rooted) auto
  obtain res b' where d: "Delete key b = (res, b')" by force
  have faults: "fsFaults b' = []"
    using d k(1) by (auto simp: Delete_def resolve_ok [OF ok] Remove_def os_call_def nf Let_def
        split: prod.splits sum.splits errno.splits)
  show ?thesis
  proof (cases res)
    case (Inr u)
    with Delete_effect [OF ok d] q faults d show ?thesis by simp
  next
    case (Inl e)
    then have "\<exists>ns'. sys_remove ?p (nodes b) = (ns', Inl OtherErrno)"
      using d k(1) by (auto simp: Delete_def resolve_ok [OF ok] Remove_def os_call_def nf kp Let_def
          split: prod.splits sum.splits errno.splits)
    then have "fview (nodes b) ?p = None"
      by (auto simp: sys_remove_def fview_def split: option.splits node.splits)
    then have "view b = (view b)(q := None)" using k by (auto simp: view_def fun_eq_iff)
    with Delete_effect [OF ok d] Inl faults d show ?thesis by simp
  qed
qed

section \<open>List\<close>

lemma List_blobs_Inr:
  assumes ok: "blob_ok b" and l: "List_blobs b = (Inr ks, b')"
  shows "nodes b' = nodes b \<and> dir b' = dir b \<and> ks = map (\<lambda>q. Join q ''/'') (walk (root b) (nodes b))"
proof -
  have "\<forall>c. lookup (nodes b) (root b) \<noteq> Some (File c)" using ok by (simp add: blob_ok_def ns_ok_def)
  with l show ?thesis
    by (auto simp: List_blobs_def wrap_err_Inr sys_walk_def dest!: os_call_Inr split: option.splits node.splits)
qed

lemma List_blobs_Inl: "List_blobs b = (Inl e, b') \<Longrightarrow> nodes b' = nodes b \<and> dir b' = dir b"
  by (auto simp: List_blobs_def wrap_err_Inl sys_walk_def dest!: os_call_Inl)

lemma walk_view:
  assumes ok: "blob_ok b"
  shows "set (walk (root b) (nodes b)) = dom (view b)" "distinct (walk (root b) (nodes b))" "sorted (walk (root b) (nodes b))"
proof -
  note rt = blob_ok_root [OF ok]
  let ?r = "root b" and ?ns = "nodes b"
  have ns: "distinct (map fst ?ns)" using rt(4) by (simp add: ns_ok_def)
  show "set (walk ?r ?ns) = dom (view b)"
  proof (intro equalityI subsetI)
    fix q assume "q \<in> set (walk ?r ?ns)"
    then obtain y x where y: "(y, x) \<in> set ?ns" "x \<noteq> Directory" "length ?r < length y" "take (length ?r) y = ?r"
      "\<not> hidden y" "q = drop (length ?r) y"
      by (auto simp: walk_def)
    have "y = ?r @ q" using append_take_drop_id [of "length ?r" y] y(4,6) by simp
    moreover have "q \<noteq> []" using y(3,6) by simp
    ultimately have yq: "y = ?r @ q" "q \<noteq> []" .
    have "lookup ?ns (?r @ q) = Some x" using in_lookup [OF rt(4) y(1)] yq by simp
    moreover have "\<not> hidden q" using y(5) yq by (simp add: hidden_def)
    ultimately show "q \<in> dom (view b)" using yq y(2) by (cases x) (auto simp: view_def fview_def)
  next
    fix q assume "q \<in> dom (view b)"
    then obtain c where q: "q \<noteq> []" "\<not> hidden q" "lookup ?ns (?r @ q) = Some (File c)"
      by (auto simp: view_def fview_def split: if_splits option.splits node.splits)
    then have "(?r @ q, File c) \<in> set ?ns" by (intro lookup_in) auto
    with q show "q \<in> set (walk ?r ?ns)"
      by (force simp: walk_def hidden_def)
  qed
  have inj: "inj_on (drop (length ?r) \<circ> fst) {x \<in> set ?ns. take (length ?r) (fst x) = ?r}"
  proof (rule inj_onI)
    fix x y assume xy: "x \<in> {x \<in> set ?ns. take (length ?r) (fst x) = ?r}" "y \<in> {x \<in> set ?ns. take (length ?r) (fst x) = ?r}"
      "(drop (length ?r) \<circ> fst) x = (drop (length ?r) \<circ> fst) y"
    then have "fst x = fst y" by (metis (mono_tags, lifting) append_take_drop_id comp_apply mem_Collect_eq)
    with xy ns show "x = y" by (metis (mono_tags, lifting) eq_key_imp_eq_value mem_Collect_eq prod.collapse)
  qed
  have "distinct ?ns" using ns by (simp add: distinct_map)
  moreover have "set (filter (\<lambda>(q, x). x \<noteq> Directory \<and> length ?r < length q \<and> take (length ?r) q = ?r \<and> \<not> hidden q) ?ns)
      \<subseteq> {x \<in> set ?ns. take (length ?r) (fst x) = ?r}"
    by auto
  ultimately show "distinct (walk ?r ?ns)"
    unfolding walk_def distinct_sort distinct_map using inj_on_subset [OF inj] by simp
  show "sorted (walk ?r ?ns)" by (simp add: walk_def)
qed

lemma Contains_slash:
  "Contains (a @ CHR ''/'' # b) ''..'' \<longleftrightarrow> Contains a ''..'' \<or> Contains b ''..''"
proof (induction a)
  case (Cons c a)
  have "HasPrefix (c # a @ CHR ''/'' # b) ''..'' \<longleftrightarrow> HasPrefix (c # a) ''..''"
    by (cases a) (auto simp: HasPrefix_def)
  with Cons show ?case by simp
qed (auto simp: HasPrefix_def)

lemma Contains_Join: "Contains (Join ws ''/'') ''..'' \<longleftrightarrow> (\<exists>w \<in> set ws. Contains w ''..'')"
  by (induction ws "''/''" rule: Join.induct) (simp_all add: Contains_slash)

lemma loc_Join:
  assumes ok: "blob_ok b" and q: "view b q \<noteq> None"
  shows "loc (Join q ''/'') = Some q"
proof -
  note rt = blob_ok_root [OF ok]
  have v: "q \<noteq> []" "\<not> hidden q" "lookup (nodes b) (root b @ q) \<noteq> None"
    using q by (auto simp: view_def fview_def split: if_splits option.splits)
  then have "root b @ q \<in> fst ` set (nodes b)" using lookup_None_iff [of "root b @ q"] by auto
  with rt(4) have "\<forall>w \<in> set (root b @ q). plain w" "\<forall>w. w \<in> set q \<longrightarrow> \<not> Contains w ''..''"
    unfolding ns_ok_def by blast+
  then have w: "\<forall>w \<in> set q. plain w" "\<forall>w \<in> set q. \<not> Contains w ''..''" by simp_all
  have "Join q ''/'' \<noteq> [] \<and> \<not> HasPrefix (Join q ''/'') ''/''"
  proof -
    obtain x xs where x: "q = x # xs" using v(1) by (cases q) auto
    then have "plain x" using w(1) by simp
    then obtain c cs where c: "x = c # cs" "c \<noteq> CHR ''/''" by (cases x) (auto simp: plain_def)
    with x show ?thesis by (cases xs) (simp_all add: HasPrefix_def)
  qed
  with v w show ?thesis by (simp add: loc_def valid_key_def Contains_Join names_Join)
qed

end
