(* ===== verification/FsblobStore.thy ===== *)
theory FsblobStore
  imports Interfaces FsblobProps
begin

text \<open>
  \<open>FilesystemBlob\<close> as a value of the interface \<open>BlobStore\<close>, and its laws: the interpretation
  gives the coordinator's lemmas about blob stores for the file system.
\<close>

definition filesystem_blob :: "fsblob blob_ops" where
  "filesystem_blob =
     \<lparr>bl_Put = (\<lambda>e key r want limit b. Put key r want limit (tmp_suffix e) b),
      bl_Open = Open, bl_Delete = Delete, bl_List = List_blobs\<rparr>"

definition fs_keyok :: "string \<Rightarrow> bool" where
  "fs_keyok key \<longleftrightarrow> names key \<noteq> []"

abbreviation fs_key_of :: "path \<Rightarrow> string" where
  "fs_key_of q \<equiv> Join q ''/''"

lemma filesystem_blob_simps [simp]:
  "bl_Put filesystem_blob e key r want limit b = Put key r want limit (tmp_suffix e) b"
  "bl_Open filesystem_blob = Open" "bl_Delete filesystem_blob = Delete" "bl_List filesystem_blob = List_blobs"
  by (simp_all add: filesystem_blob_def)

lemma Put_view:
  assumes "blob_ok b" "fs_keyok key" "temp_suffix (tmp_suffix e)"
    and "bl_Put filesystem_blob e key r want limit b = (Inr n, b')"
  shows "\<exists>c. genuine want c \<and> n = int (length c) \<and> n \<le> limit
     \<and> view b' = (case loc key of None \<Rightarrow> view b | Some q \<Rightarrow> (view b)(q \<mapsto> c))"
  using Put_effect [OF assms(1) _ assms(3), of key r want limit "Inr n" b'] assms(2,4)
  by (auto simp: fs_keyok_def put_ok_def genuine_def Let_def)

lemma Delete_view:
  assumes "blob_ok b"
  shows "view (snd (Delete key b)) = view b
     \<or> (\<exists>q. loc key = Some q \<and> view (snd (Delete key b)) = (view b)(q := None))"
proof -
  obtain res b' where d: "Delete key b = (res, b')" by force
  from Delete_effect [OF assms d] d show ?thesis
    by (cases res; cases "loc key") auto
qed

lemma Open_keep: "blob_ok b \<Longrightarrow> blob_ok (snd (Open key b)) \<and> view (snd (Open key b)) = view b"
  using Open_effect [of b key "fst (Open key b)" "snd (Open key b)"]
  by (auto simp: blob_ok_def view_def fun_eq_iff)

lemma List_keep: "blob_ok b \<Longrightarrow> blob_ok (snd (List_blobs b)) \<and> view (snd (List_blobs b)) = view b"
  using List_blobs_Inr [of b "projr (fst (List_blobs b))" "snd (List_blobs b)"]
    List_blobs_Inl [of b "projl (fst (List_blobs b))" "snd (List_blobs b)"]
  by (cases "List_blobs b"; cases "fst (List_blobs b)") (auto simp: blob_ok_def view_def fun_eq_iff)

lemma List_ok:
  assumes "blob_ok b" "List_blobs b = (Inr ks, b')"
  shows "set ks = fs_key_of ` dom (view b) \<and> distinct ks"
proof -
  have ks: "ks = map fs_key_of (walk (root b) (nodes b))" using List_blobs_Inr [OF assms] by simp
  have "inj_on fs_key_of (dom (view b))"
    by (rule inj_onI) (metis loc_Join [OF assms(1)] domIff option.inject)
  then show ?thesis
    using walk_view(1,2) [OF assms(1)] by (simp add: ks distinct_map)
qed

interpretation fs: blob_store filesystem_blob blob_ok view loc fs_key_of fs_keyok
proof
  fix b :: fsblob and key and e :: env and r want limit
  assume a: "blob_ok b" "fs_keyok key" "temp_suffix (tmp_suffix e)"
  show "blob_ok (snd (bl_Put filesystem_blob e key r want limit b))"
    using Put_effect [OF a(1) _ a(3), of key r want limit "fst (Put key r want limit (tmp_suffix e) b)"] a(2)
    by (simp add: fs_keyok_def)
next
  fix b b' :: fsblob and key and e :: env and r want limit n
  assume a: "blob_ok b" "fs_keyok key" "temp_suffix (tmp_suffix e)"
    and "bl_Put filesystem_blob e key r want limit b = (Inr n, b')"
  then show "\<exists>c. genuine want c \<and> n = int (length c) \<and> n \<le> limit
     \<and> view b' = (case loc key of None \<Rightarrow> view b | Some q \<Rightarrow> (view b)(q \<mapsto> c))"
    by (rule Put_view)
next
  fix b b' :: fsblob and key and e :: env and r want limit x
  assume a: "blob_ok b" "fs_keyok key" "temp_suffix (tmp_suffix e)"
    and p: "bl_Put filesystem_blob e key r want limit b = (Inl x, b')"
  then show "view b' = view b"
    using Put_effect [OF a(1) _ a(3), of key r want limit "Inl x" b'] by (simp add: fs_keyok_def)
next
  fix b :: fsblob and key
  assume a: "blob_ok b"
  show "blob_ok (snd (bl_Delete filesystem_blob key b))"
    using Delete_effect [OF a, of key "fst (Delete key b)" "snd (Delete key b)"] by simp
  show "view (snd (bl_Delete filesystem_blob key b)) = view b
        \<or> (\<exists>q. loc key = Some q \<and> view (snd (bl_Delete filesystem_blob key b)) = (view b)(q := None))"
    using Delete_view [OF a] by simp
  show "blob_ok (snd (bl_Open filesystem_blob key b)) \<and> view (snd (bl_Open filesystem_blob key b)) = view b"
    using Open_keep [OF a] by simp
  show "blob_ok (snd (bl_List filesystem_blob b)) \<and> view (snd (bl_List filesystem_blob b)) = view b"
    using List_keep [OF a] by simp
next
  fix b b' :: fsblob and key q c
  assume "blob_ok b" "loc key = Some q" "bl_Open filesystem_blob key b = (Inr (File c), b')"
  then show "view b q = Some c" using Open_effect [of b key "Inr (File c)" b'] by simp
next
  fix b :: fsblob and key q
  assume "blob_ok b" "loc key = Some q"
    "fst (bl_Open filesystem_blob key b) = Inr Directory \<or> fst (bl_Open filesystem_blob key b) = Inl ErrNotFound"
  then show "view b q = None"
    using Open_effect [of b key "fst (Open key b)" "snd (Open key b)"] by auto
next
  fix b b' :: fsblob and ks
  assume "blob_ok b" "bl_List filesystem_blob b = (Inr ks, b')"
  then show "set ks = fs_key_of ` dom (view b) \<and> distinct ks" using List_ok [of b ks b'] by simp
next
  fix b :: fsblob and q
  assume "blob_ok b" "view b q \<noteq> None"
  then show "loc (fs_key_of q) = Some q" by (rule loc_Join)
qed

definition fs_quiet :: "fsblob \<Rightarrow> bool" where
  "fs_quiet b \<longleftrightarrow> fsFaults b = []"

interpretation fsq: quiet_blob_store filesystem_blob blob_ok view loc fs_key_of fs_keyok fs_quiet
proof
  fix b :: fsblob and key q
  assume "blob_ok b" "fs_quiet b" "loc key = Some q"
  then show "fs_quiet (snd (bl_Delete filesystem_blob key b))
      \<and> view (snd (bl_Delete filesystem_blob key b)) = (view b)(q := None)"
    using Delete_total by (simp add: fs_quiet_def)
next
  fix b :: fsblob and key q c
  assume "blob_ok b" "fs_quiet b" "loc key = Some q" "view b q = Some c"
  then show "bl_Open filesystem_blob key b = (Inr (File c), b)"
    using Open_total by (simp add: fs_quiet_def)
next
  fix b :: fsblob
  assume "fs_quiet b"
  then show "fs_quiet (snd (bl_List filesystem_blob b)) \<or> \<not> blob_ok b"
    by (simp add: fs_quiet_def List_blobs_def wrap_err_def os_call_def sys_walk_def Let_def
        split: sum.split option.split node.split)
qed

end
