(* ===== verification/Scenario.thy ===== *)
theory Scenario
  imports SqliteInv
begin

text \<open>
  A concrete history of the state store, evaluated step by step: a one-time send with two
  parts is created, its parts marked, the send finalised and redeemed. Theorems with
  hypotheses are applied to its states.
\<close>

definition fresh_store :: "int \<Rightarrow> sqlite" where
  "fresh_store ttl = \<lparr>db = empty_tables, grantTTL = ttl, maxVars = 32766, dbFaults = []\<rparr>"

definition demo_input :: CreateSendInput where
  "demo_input =
     \<lparr>in_Version = ''v1'', in_OneTime = True, in_TTL = Hour,
      in_Parts = [\<lparr>PartID = ''b'', EncryptedSize = 3, SHA256 = ''''\<rparr>,
                  \<lparr>PartID = ''a'', EncryptedSize = 4, SHA256 = ''''\<rparr>]\<rparr>"

definition demo_id :: string where
  "demo_id = ''snd_0000000000o32chj6gqjcdpo74''"

definition demo_src :: "string option" where
  "demo_src = Some ''01234567890123456789012345678901''"

definition demo_token :: string where
  "demo_token = ''red_303132333435363738393031323334353637383930313233''"

definition demo_parts :: "int option \<Rightarrow> part_row list" where
  "demo_parts up =
     [\<lparr>p_send_id = demo_id, p_part_id = ''b'', p_storage_key = StorageKey demo_id ''b'',
       p_encrypted_size = 3, p_sha256 = '''', p_uploaded_at = up\<rparr>,
      \<lparr>p_send_id = demo_id, p_part_id = ''a'', p_storage_key = StorageKey demo_id ''a'',
       p_encrypted_size = 4, p_sha256 = '''', p_uploaded_at = up\<rparr>]"

definition demo_row :: "int option \<Rightarrow> int option \<Rightarrow> send_row" where
  "demo_row fin con =
     \<lparr>s_id = demo_id, s_status = (if fin = None then SendStatusCreating else SendStatusFinalized),
      s_one_time = 1, s_created_at = 0, s_finalized_at = fin, s_expires_at = 3600,
      s_consumed_at = con, s_total_encrypted_size = 7, s_part_count = 2\<rparr>"

definition demo_state :: "send_row \<Rightarrow> part_row list \<Rightarrow> grant_row list \<Rightarrow> bool list \<Rightarrow> sqlite" where
  "demo_state r ps gs faults =
     \<lparr>db = \<lparr>sends = [r], send_parts = ps, redeem_grants = gs\<rparr>, grantTTL = 600 * Second,
      maxVars = 32766, dbFaults = faults\<rparr>"

definition demo_ops :: "sql_op list" where
  "demo_ops = [OpCreate 0 (Some ''0123456789'') 0 demo_input, OpMark Second demo_id ''a'',
               OpMark Second demo_id ''b'', OpFinalize (2 * Second) demo_id]"

abbreviation demo_created :: sqlite where
  "demo_created \<equiv> demo_state (demo_row None None) (demo_parts None) [] []"

abbreviation demo_marked :: sqlite where
  "demo_marked \<equiv> demo_state (demo_row None None) (demo_parts (Some 1)) [] []"

abbreviation demo_finalized :: sqlite where
  "demo_finalized \<equiv> demo_state (demo_row (Some 2) None) (demo_parts (Some 1)) [] []"

abbreviation demo_redeemed :: sqlite where
  "demo_redeemed \<equiv> demo_state (demo_row (Some 2) (Some 3)) (demo_parts (Some 1))
     [new_grant demo_token (3 * Second) (600 * Second) demo_id] []"

lemma demo_id_new: "NewSendID 0 (Some ''0123456789'') = Some demo_id"
  by code_simp

lemma demo_token_new: "NewRedeemToken demo_src = Some demo_token"
  by code_simp

lemmas demo_eval =
  query_def stmt_def on_ok_def demo_state_def demo_row_def demo_parts_def demo_input_def fresh_store_def
  empty_tables_def send_row_of_def part_row_of_def boolToInt_def Unix_def Second_def Minute_def Hour_def
  total_size_def add64_def wrap64_def find_send_def find_part_def parts_of_def

lemma demo_create:
  "CreateSend 0 (Some ''0123456789'') 0 demo_input (fresh_store (600 * Second)) =
     (Inr \<lparr>rec_ID = demo_id, rec_OneTime = True, rec_ExpiresAt = Hour, rec_Parts = in_Parts demo_input\<rparr>,
      demo_created)"
  by (simp add: CreateSend_def demo_id_new insert_send_def insert_part_def demo_eval)

lemma demo_finalize: "FinalizeSend (2 * Second) demo_id demo_marked = (Inr (), demo_finalized)"
  by (simp add: FinalizeSend_def SendStatusOf_def update_sends_def demo_eval)

lemma demo_run: "sql_run demo_ops (fresh_store (600 * Second)) = demo_finalized"
proof -
  have "sql_run [OpMark Second demo_id ''a'', OpMark Second demo_id ''b''] demo_created = demo_marked"
    by (simp add: MarkUploaded_def update_parts_def demo_eval)
  then show ?thesis by (simp add: demo_ops_def demo_create demo_finalize)
qed

lemma demo_redeem:
  "RedeemSend demo_src (3 * Second) demo_id demo_finalized =
     (Inr \<lparr>gr_Token = demo_token, gr_ExpiresAt = 3 * Second + 600 * Second,
           gr_Parts = [\<lparr>PartID = ''a'', EncryptedSize = 4, SHA256 = ''''\<rparr>,
                       \<lparr>PartID = ''b'', EncryptedSize = 3, SHA256 = ''''\<rparr>]\<rparr>, demo_redeemed)"
  by (simp add: RedeemSend_def consume_def update_sends_def open_grant_def demo_token_new insert_grant_def
      new_grant_def partsBrief_def demo_eval)

lemma sql_run_append: "sql_run (xs @ ys) s = sql_run ys (sql_run xs s)"
  by (induction xs arbitrary: s) simp_all

lemma demo_redeem_run:
  "sql_run (demo_ops @ [OpRedeem demo_src (3 * Second) demo_id]) (fresh_store (600 * Second)) = demo_redeemed"
  by (simp add: sql_run_append demo_run demo_redeem)

end
