(* ===== verification/SqliteProps.thy ===== *)
theory SqliteProps
  imports Scenario
begin

text \<open>
  The properties of the state store: reachable tables are well formed, creation is atomic,
  a one-time send is redeemed at most once, and what the sweep deletes and keeps.
\<close>

section \<open>Reachable tables\<close>

lemma sql_step_cfg: "same_cfg s (sql_step x s)"
proof (cases x)
  case (OpCreate ms src now inp)
  then show ?thesis
    by (cases rule: result_cases [of "CreateSend ms src now inp s"])
       (auto dest!: CreateSend_Inr CreateSend_Inl)
next
  case (OpMark now sid pid)
  then show ?thesis
    by (cases rule: result_cases [of "MarkUploaded now sid pid s"])
       (auto dest!: MarkUploaded_Inr MarkUploaded_Inl)
next
  case (OpFinalize now sid)
  then show ?thesis
    by (cases rule: result_cases [of "FinalizeSend now sid s"])
       (auto dest!: FinalizeSend_Inr FinalizeSend_Inl)
next
  case (OpRedeem src now sid)
  then show ?thesis
    by (cases rule: result_cases [of "RedeemSend src now sid s"])
       (auto dest!: RedeemSend_Inr RedeemSend_Inl)
next
  case (OpDelete now)
  then show ?thesis
    by (cases rule: result_cases [of "DeleteExpired now s"])
       (auto dest!: DeleteExpired_Inr DeleteExpired_Inl)
next
  case (OpStatus sid)
  then show ?thesis
    by (cases rule: result_cases [of "SendStatusOf sid s"])
       (auto dest!: SendStatusOf_Inr SendStatusOf_Inl)
next
  case (OpDeclared sid pid)
  then show ?thesis
    by (cases rule: result_cases [of "DeclaredPart sid pid s"])
       (auto dest!: DeclaredPart_Inr DeclaredPart_Inl)
next
  case (OpValidate now sid h)
  then show ?thesis
    by (cases rule: result_cases [of "ValidateGrant now sid h s"])
       (auto dest!: ValidateGrant_Inr ValidateGrant_Inl)
next
  case (OpMeta sid)
  then show ?thesis
    by (cases rule: result_cases [of "GetSendMeta sid s"])
       (auto dest!: GetSendMeta_Inr GetSendMeta_Inl)
next
  case OpLive
  then show ?thesis
    by (cases rule: result_cases [of "LiveStorageKeys s"])
       (auto dest!: LiveStorageKeys_Inr LiveStorageKeys_Inl)
qed

lemma sql_run_cfg: "same_cfg s (sql_run xs s)"
  by (induction xs arbitrary: s) (auto intro: same_cfg_trans sql_step_cfg)

text \<open>
  C15. Keys of the three tables stay unique, parts and grants refer to existing sends,
  storage keys are those of their part and finalized sends have all parts uploaded, after
  any sequence of store calls and failures.
\<close>

theorem reachable_tables_well_formed:
  assumes "db s = empty_tables"
  shows "tables_inv (db (sql_run ops s))"
  using assms tables_inv_empty by (simp add: tables_inv_run)

theorem reachable_tables_well_formed_witness:
  "tables_inv (db (sql_run [OpFinalize 5 ''snd_x'', OpDelete 9] (fresh_store (10 * Minute))))"
  by (rule reachable_tables_well_formed) (simp add: fresh_store_def)

section \<open>Creation\<close>

text \<open>
  C28. CreateSend either returns an error and leaves the tables alone, or adds the new send
  and one row for every declared part, under a fresh id and with distinct part ids, and
  nothing else.
\<close>

theorem create_is_atomic:
  "case CreateSend ms src now inp s of
     (Inl e, s') \<Rightarrow> db s' = db s
   | (Inr r, s') \<Rightarrow>
       NewSendID ms src = Some (rec_ID r) \<and> rec_ID r \<notin> s_id ` set (sends (db s))
       \<and> distinct (map PartID (in_Parts inp))
       \<and> sends (db s') = sends (db s) @ [send_row_of (rec_ID r) now inp]
       \<and> send_parts (db s') = send_parts (db s) @ map (part_row_of (rec_ID r)) (in_Parts inp)
       \<and> redeem_grants (db s') = redeem_grants (db s)"
  by (cases rule: result_cases [of "CreateSend ms src now inp s"])
     (auto dest!: CreateSend_Inr CreateSend_Inl simp: eff_create_def)

lemma sort_key_map: "sort_key f (map g xs) = map g (sort_key (f \<circ> g) xs)"
proof -
  have "insort_key f (g x) (map g ys) = map g (insort_key (f \<circ> g) x ys)" for x ys
    by (induction ys) simp_all
  then show ?thesis by (induction xs) simp_all
qed

text \<open>
  C29. GetSendMeta after CreateSend reports the created send: its status, flags, expiry in
  whole seconds, totals and its declared parts in order of part id.
\<close>

theorem create_then_meta:
  assumes inv: "tables_inv (db s)"
    and ok: "CreateSend ms src now inp s = (Inr r, s')"
    and nf: "dbFaults s' = []"
  shows "GetSendMeta (rec_ID r) s' =
     (Inr \<lparr>meta_ID = rec_ID r, meta_Status = SendStatusCreating, meta_OneTime = in_OneTime inp,
           meta_ExpiresAt = Unix (now + in_TTL inp) * Second,
           meta_PartCount = int (length (in_Parts inp)),
           meta_TotalEncryptedSize = total_size (in_Parts inp),
           meta_Parts = sort_key PartID (in_Parts inp)\<rparr>, s')"
proof -
  from CreateSend_Inr [OF ok] have d: "db s' = eff_create (rec_ID r) now inp (db s)"
    and fresh: "rec_ID r \<notin> s_id ` set (sends (db s))" and dist: "distinct (map PartID (in_Parts inp))"
    by auto
  have inv': "tables_inv (db s')" unfolding d using inv fresh dist by (rule tables_inv_create)
  have f: "find_send (rec_ID r) (db s') = Some (send_row_of (rec_ID r) now inp)"
    using inv' by (simp add: find_send_iff) (simp add: d eff_create_def)
  have "parts_of (rec_ID r) (db s') = map (part_row_of (rec_ID r)) (in_Parts inp)"
    using no_rows_no_parts [OF _ fresh] inv by (simp add: d parts_of_create tables_inv_def)
  then have p: "map (\<lambda>p. \<lparr>PartID = p_part_id p, EncryptedSize = p_encrypted_size p, SHA256 = p_sha256 p\<rparr>)
      (sort_key p_part_id (parts_of (rec_ID r) (db s'))) = sort_key PartID (in_Parts inp)"
    by (simp add: sort_key_map comp_def map_idI)
  show ?thesis
    by (simp add: GetSendMeta_def partsFull_def query_no_fault [OF nf] f p)
       (simp add: send_row_of_def boolToInt_def)
qed

lemma fresh_store_inv: "tables_inv (db (fresh_store ttl))"
  by (simp add: fresh_store_def tables_inv_empty)

theorem create_then_meta_witness:
  "GetSendMeta demo_id demo_created =
     (Inr \<lparr>meta_ID = demo_id, meta_Status = SendStatusCreating, meta_OneTime = True,
           meta_ExpiresAt = 3600 * Second, meta_PartCount = 2, meta_TotalEncryptedSize = 7,
           meta_Parts = [\<lparr>PartID = ''a'', EncryptedSize = 4, SHA256 = ''''\<rparr>,
                         \<lparr>PartID = ''b'', EncryptedSize = 3, SHA256 = ''''\<rparr>]\<rparr>, demo_created)"
proof -
  have "dbFaults demo_created = []" by (simp add: demo_state_def)
  from create_then_meta [OF fresh_store_inv demo_create this] show ?thesis
    by (simp add: demo_input_def total_size_def add64_def wrap64_def Unix_def Hour_def Minute_def Second_def)
qed

section \<open>Finalisation\<close>

lemma finalized_complete:
  assumes inv: "tables_inv (db s)" and ok: "FinalizeSend now sid s = (Inr u, s')"
  shows "\<exists>r \<in> set (sends (db s')). s_id r = sid \<and> s_status r = SendStatusFinalized
     \<and> (\<forall>p \<in> set (send_parts (db s')). p_send_id p = sid \<longrightarrow> p_uploaded_at p \<noteq> None)"
proof -
  have inv': "tables_inv (db s')"
    using tables_inv_step [OF inv, of "OpFinalize now sid"] ok by simp
  from FinalizeSend_Inr [OF ok] inv obtain r where r: "r \<in> set (sends (db s))" "s_id r = sid"
    and c: "s_status r = SendStatusFinalized \<and> db s' = db s
       \<or> s_status r = SendStatusCreating \<and> db s' = eff_finalize now sid (db s)"
    by (auto simp: find_send_iff)
  have "\<exists>q \<in> set (sends (db s')). s_id q = sid \<and> s_status q = SendStatusFinalized"
  proof (cases "s_status r = SendStatusFinalized")
    case False
    with c have "db s' = eff_finalize now sid (db s)" "s_status r = SendStatusCreating" by auto
    with r have "r\<lparr>s_status := SendStatusFinalized, s_finalized_at := Some (Unix now)\<rparr> \<in> set (sends (db s'))"
      by (force simp: eff_finalize_def)
    with r(2) show ?thesis by (intro bexI) auto
  qed (use c r in auto)
  then obtain q where q: "q \<in> set (sends (db s'))" "s_id q = sid" "s_status q = SendStatusFinalized"
    by blast
  with inv' have "row_ok (parts_of sid (db s')) (grants_of sid (db s')) q"
    by (auto simp: tables_inv_def life_ok_def)
  with q show ?thesis by (auto simp: row_ok_def parts_of_def)
qed

text \<open>
  A successful FinalizeSend leaves the send finalized with every part marked uploaded.
\<close>

theorem finalize_requires_all_parts:
  assumes "tables_inv (db s)" and "FinalizeSend now sid s = (Inr u, s')"
  shows "\<exists>r \<in> set (sends (db s')). s_id r = sid \<and> s_status r = SendStatusFinalized
     \<and> (\<forall>p \<in> set (send_parts (db s')). p_send_id p = sid \<longrightarrow> p_uploaded_at p \<noteq> None)"
  using assms by (rule finalized_complete)

lemma demo_marked_inv: "tables_inv (db demo_marked)"
proof -
  have "tables_inv (db (sql_run (take 3 demo_ops) (fresh_store (600 * Second))))"
    by (rule tables_inv_run) (rule fresh_store_inv)
  also have "sql_run (take 3 demo_ops) (fresh_store (600 * Second)) = demo_marked"
    by (simp add: demo_ops_def demo_create) (simp add: MarkUploaded_def update_parts_def demo_eval)
  finally show ?thesis .
qed

theorem finalize_requires_all_parts_witness:
  "\<exists>r \<in> set (sends (db demo_finalized)). s_id r = demo_id \<and> s_status r = SendStatusFinalized
     \<and> (\<forall>p \<in> set (send_parts (db demo_finalized)). p_send_id p = demo_id \<longrightarrow> p_uploaded_at p \<noteq> None)"
  by (rule finalize_requires_all_parts [OF demo_marked_inv demo_finalize])

text \<open>
  FinalizeSend on a send it has finalized succeeds again, at any time, and changes nothing.
\<close>

theorem finalize_is_idempotent:
  assumes inv: "tables_inv (db s)" and ok: "FinalizeSend now sid s = (Inr u, s')"
    and nf: "dbFaults s' = []"
  shows "FinalizeSend now' sid s' = (Inr (), s')"
proof -
  obtain r where r: "r \<in> set (sends (db s'))" "s_id r = sid" "s_status r = SendStatusFinalized"
    using finalized_complete [OF inv ok] by blast
  moreover have "tables_inv (db s')" using tables_inv_step [OF inv, of "OpFinalize now sid"] ok by simp
  ultimately have "find_send sid (db s') = Some r" by (simp add: find_send_iff)
  then show ?thesis
    by (simp add: FinalizeSend_def SendStatusOf_def query_no_fault [OF nf] r(3))
qed

theorem finalize_is_idempotent_witness:
  "FinalizeSend (9 * Second) demo_id demo_finalized = (Inr (), demo_finalized)"
  by (rule finalize_is_idempotent [OF demo_marked_inv demo_finalize]) (simp add: demo_state_def)

section \<open>Redemption\<close>

text \<open>
  In any sequence of store calls from an empty database, with any database failures and any
  clocks, a send created as one-time is redeemed successfully at most once.
\<close>

theorem one_time_redeemed_at_most_once:
  assumes "db s = empty_tables"
    and "length (filter (creates sid) ops) \<le> 1"
    and "\<forall>ms src now inp. OpCreate ms src now inp \<in> set ops \<longrightarrow> in_OneTime inp"
  shows "redeems sid ops s \<le> 1"
proof (cases "\<exists>x \<in> set ops. creates sid x")
  case False
  have "spent sid (db s)" by (simp add: assms(1) spent_def empty_tables_def)
  then have "one_time_only sid (db s)" by (simp add: spent_def one_time_only_def)
  with redeems_bound [of s sid ops] False show ?thesis
    using assms(1) tables_inv_empty by (auto split: if_splits)
next
  case True
  then obtain pre x post where ops: "ops = pre @ x # post" and x: "creates sid x"
    and pre: "\<forall>y \<in> set pre. \<not> creates sid y"
    by (metis split_list_first_prop)
  have post: "\<forall>y \<in> set post. \<not> creates sid y"
    using assms(2) x by (auto simp: ops filter_empty_conv)
  let ?s1 = "sql_run pre s"
  have inv1: "tables_inv (db ?s1)" using assms(1) tables_inv_empty by (simp add: tables_inv_run)
  have none: "sid \<notin> s_id ` set (sends (db ?s1))"
    using pre by (rule no_creation_run) (simp add: assms(1) empty_tables_def)
  have "spent sid (db s)" "one_time_only sid (db s)"
    by (simp_all add: assms(1) spent_def one_time_only_def empty_tables_def)
  then have r0: "redeems sid pre s = 0"
    using redeems_bound [of s sid pre] assms(1) tables_inv_empty pre by simp
  from x obtain ms src now inp where xo: "x = OpCreate ms src now inp" "NewSendID ms src = Some sid"
    by (cases x) (auto simp: creates_def)
  have "x \<in> set ops" by (simp add: ops)
  with assms(3) xo(1) have ot: "in_OneTime inp" by blast
  have "one_time_only sid (db ?s1)" using none by (auto simp: one_time_only_def)
  then have "one_time_only sid (db (sql_step x ?s1))"
    using xo none one_time_only_create [OF none ot]
    by (cases rule: result_cases [of "CreateSend ms src now inp ?s1"])
       (auto dest!: CreateSend_Inr CreateSend_Inl)
  with redeems_bound [of "sql_step x ?s1" sid post] post inv1
  have "redeems sid post (sql_step x ?s1) \<le> 1"
    by (simp add: tables_inv_step split: if_splits)
  then show ?thesis
    using r0 x by (simp add: ops redeems_append redeems_creation del: redeems.simps)
qed

theorem one_time_redeemed_at_most_once_witness:
  "redeems demo_id (demo_ops @ [OpRedeem demo_src (3 * Second) demo_id, OpRedeem demo_src (4 * Second) demo_id])
     (fresh_store (600 * Second)) \<le> 1"
  by (rule one_time_redeemed_at_most_once) (auto simp: fresh_store_def demo_ops_def creates_def demo_input_def)

text \<open>A spent link answers \<open>ErrAlreadyRedeemed\<close> until it expires.\<close>

lemma redeem_spent:
  assumes inv: "tables_inv (db s)" and sp: "spent sid (db s)"
    and r: "r \<in> set (sends (db s))" "s_id r = sid" "s_status r = SendStatusFinalized"
      "Unix now < s_expires_at r"
    and nf: "dbFaults s = []"
  shows "RedeemSend src now sid s = (Inl ErrAlreadyRedeemed, s)"
proof -
  have f: "find_send sid (db s) = Some r" using inv r by (simp add: find_send_iff)
  have one: "s_one_time r = 1" using sp r by (auto simp: spent_def)
  have n: "filter (consumable now sid) (sends (db s)) = []"
    using sp by (auto simp: filter_empty_conv consumable_def spent_def)
  have "consume now sid s = (Inr 0, s)"
    using n eff_consume_none [OF n]
    by (simp add: consume_def stmt_def nf update_sends_def consumable_def [abs_def] eff_consume_def)
  then show ?thesis using r f one by (simp add: RedeemSend_def query_no_fault [OF nf])
qed

text \<open>
  The link of a one-time send is consumed before the grant row is written: when that write
  fails, the caller gets an error, no grant exists, and the link stays consumed.
\<close>

theorem failed_redeem_burns_link:
  assumes inv: "tables_inv (db s)"
    and r: "r \<in> set (sends (db s))" "consumable now sid r"
    and faults: "dbFaults s = [False, False, True]" and rnd: "NewRedeemToken src = Some token"
  shows "\<exists>s'. RedeemSend src now sid s = (Inl (ErrInternal ''insert grant''), s')
     \<and> spent sid (db s') \<and> redeem_grants (db s') = redeem_grants (db s)
     \<and> RedeemSend src' now sid s' = (Inl ErrAlreadyRedeemed, s')"
proof -
  have st: "s_id r = sid" "s_status r = SendStatusFinalized" "s_one_time r = 1" "Unix now < s_expires_at r"
    using r(2) by (auto simp: consumable_def)
  have f: "find_send sid (db s) = Some r" using inv r(1) st by (simp add: find_send_iff)
  let ?d = "eff_consume now sid (db s)"
  let ?s' = "s\<lparr>db := ?d, dbFaults := []\<rparr>" and ?n = "length (filter (consumable now sid) (sends (db s)))"
  have q: "query ''load send'' (find_send sid) s = (Inr (Some r), s\<lparr>dbFaults := [False, True]\<rparr>)"
    by (simp add: query_def stmt_def faults f)
  have c: "consume now sid (s\<lparr>dbFaults := [False, True]\<rparr>) = (Inr ?n, ?s'\<lparr>dbFaults := [True]\<rparr>)"
    by (simp add: consume_def stmt_def update_sends_def eff_consume_def consumable_def [abs_def])
  have "open_grant src now sid (?s'\<lparr>dbFaults := [True]\<rparr>) = (Inl (ErrInternal ''insert grant''), ?s')"
    by (simp add: open_grant_def rnd stmt_def)
  moreover have "?n \<noteq> 0" using r by (auto simp: filter_empty_conv)
  ultimately have red: "RedeemSend src now sid s = (Inl (ErrInternal ''insert grant''), ?s')"
    using st by (simp add: RedeemSend_def q c)
  have sp: "spent sid ?d" using inv r by (rule consumed_spent)
  have "r\<lparr>s_consumed_at := Some (Unix now)\<rparr> \<in> set (sends ?d)"
    using r by (force simp: eff_consume_def)
  then have "RedeemSend src' now sid ?s' = (Inl ErrAlreadyRedeemed, ?s')"
    using st sp tables_inv_consume [OF inv, of now sid]
    by (intro redeem_spent [of _ _ "r\<lparr>s_consumed_at := Some (Unix now)\<rparr>"]) simp_all
  with red sp show ?thesis by (auto simp: eff_consume_def)
qed

lemma demo_finalized_inv: "tables_inv (db demo_finalized)"
  using tables_inv_run [OF fresh_store_inv, of demo_ops "600 * Second"] by (simp add: demo_run)

theorem failed_redeem_burns_link_witness:
  "\<exists>s'. RedeemSend demo_src (3 * Second) demo_id
       (demo_state (demo_row (Some 2) None) (demo_parts (Some 1)) [] [False, False, True])
       = (Inl (ErrInternal ''insert grant''), s')
     \<and> spent demo_id (db s') \<and> redeem_grants (db s') = []
     \<and> RedeemSend demo_src (3 * Second) demo_id s' = (Inl ErrAlreadyRedeemed, s')"
  using failed_redeem_burns_link
    [of "demo_state (demo_row (Some 2) None) (demo_parts (Some 1)) [] [False, False, True]"
        "demo_row (Some 2) None" "3 * Second" demo_id demo_src demo_token demo_src]
    demo_finalized_inv
  by (simp add: demo_state_def demo_row_def consumable_def Unix_def Second_def demo_token_new)

section \<open>The sweep\<close>

text \<open>
  C31. DeleteExpired either fails and changes nothing, or removes exactly the dead sends
  with their parts and grants and returns the storage keys of the parts it removed and the
  number of sends.
\<close>

theorem sweep_is_exact:
  "case DeleteExpired now s of
     (Inl e, s') \<Rightarrow> db s' = db s
   | (Inr (n, keys), s') \<Rightarrow>
       sends (db s') = filter (\<lambda>r. s_id r \<notin> set (dead_ids (grantTTL s) now (db s))) (sends (db s))
       \<and> send_parts (db s') =
           filter (\<lambda>p. p_send_id p \<notin> set (dead_ids (grantTTL s) now (db s))) (send_parts (db s))
       \<and> redeem_grants (db s') =
           filter (\<lambda>g. g_send_id g \<notin> set (dead_ids (grantTTL s) now (db s))) (redeem_grants (db s))
       \<and> set keys = p_storage_key ` (set (send_parts (db s)) - set (send_parts (db s')))
       \<and> n = length (filter (dead_send (grantTTL s) now) (sends (db s)))"
proof (cases rule: result_cases [of "DeleteExpired now s"])
  case (ok x s')
  obtain n keys where x: "x = (n, keys)" by (cases x)
  from DeleteExpired_Inr [OF ok(1) [unfolded x]]
  have d: "db s' = eff_delete (set (dead_ids (grantTTL s) now (db s))) (db s)"
    and n: "n = length (dead_ids (grantTTL s) now (db s))"
    and keys: "keys = map p_storage_key (filter (\<lambda>p. p_send_id p \<in> set (dead_ids (grantTTL s) now (db s)))
                 (send_parts (db s)))"
    by auto
  have "set keys = p_storage_key ` (set (send_parts (db s)) - set (send_parts (db s')))"
    unfolding keys d by (auto simp: eff_delete_def)
  then show ?thesis by (simp add: ok(1) x d n eff_delete_def) (simp add: dead_ids_def)
next
  case (err e s')
  with DeleteExpired_Inl [OF err(1)] show ?thesis by simp
qed

lemma dead_send_mono:
  assumes "dead_send ttl now r" "now \<le> now'"
  shows "dead_send ttl now' r"
proof -
  have "Unix now \<le> Unix now'" "Unix (now - ttl) \<le> Unix (now' - ttl)"
    "Unix (now - creatingMaxAge) \<le> Unix (now' - creatingMaxAge)"
    using assms(2) by (simp_all add: Unix_mono)
  then show ?thesis
    using assms(1) by (auto simp: dead_send_def split: option.splits)
qed

lemma length_filter_mono:
  assumes "\<And>r. weak r \<Longrightarrow> strong r"
  shows "length (filter weak rs) \<le> length (filter strong rs)"
  using assms by (induction rs) (auto intro: le_SucI)

lemma DeleteExpired_stuck:
  assumes "length (dead_ids (grantTTL s) now (db s)) > maxVars s" "now \<le> t"
  obtains e s' where "DeleteExpired t s = (Inl e, s')" "db s' = db s" "same_cfg s s'"
proof -
  have "length (dead_ids (grantTTL s) now (db s)) \<le> length (dead_ids (grantTTL s) t (db s))"
    using assms(2) unfolding dead_ids_def length_map
    by (intro length_filter_mono) (auto intro: dead_send_mono)
  then have many: "length (dead_ids (grantTTL s) t (db s)) > maxVars s" using assms(1) by simp
  show thesis
  proof (cases rule: result_cases [of "DeleteExpired t s"])
    case (ok x s')
    then show thesis using many DeleteExpired_Inr [of t s "fst x" "snd x" s'] by simp
  next
    case (err e s')
    then show thesis using DeleteExpired_Inl [OF err(1)] that by blast
  qed
qed

text \<open>
  Once more sends are due than one statement may name, every sweep fails, at any later time,
  and nothing is ever reclaimed.
\<close>

theorem sweep_stuck_beyond_variable_limit:
  assumes "length (dead_ids (grantTTL s) now (db s)) > maxVars s" and "\<forall>t \<in> set ts. now \<le> t"
  shows "db (sql_run (map OpDelete ts) s) = db s"
  using assms
proof (induction ts arbitrary: s)
  case (Cons t ts)
  have "now \<le> t" using Cons.prems(2) by simp
  from DeleteExpired_stuck [OF Cons.prems(1) this] obtain e s' where
    "DeleteExpired t s = (Inl e, s')" "db s' = db s" "same_cfg s s'" .
  then have step: "db (sql_step (OpDelete t) s) = db s \<and> same_cfg s (sql_step (OpDelete t) s)" by simp
  then have "db (sql_run (map OpDelete ts) (sql_step (OpDelete t) s)) = db (sql_step (OpDelete t) s)"
    using Cons.prems by (intro Cons.IH) (simp_all add: same_cfg_def)
  with step show ?case by simp
qed simp

theorem sweep_stuck_beyond_variable_limit_witness:
  "let s = demo_created\<lparr>maxVars := 0\<rparr> in db (sql_run (map OpDelete [Hour, 2 * Hour]) s) = db s"
  unfolding Let_def
  by (rule sweep_stuck_beyond_variable_limit [of _ Hour])
     (simp_all add: dead_ids_def dead_send_def demo_state_def demo_row_def Unix_def Hour_def Minute_def Second_def)

section \<open>Grants and the sweep\<close>

text \<open>
  With a grant lifetime of \<open>k\<close> whole seconds, the grant of a one-time send ends \<open>k\<close> seconds
  after the consumption that the sweep looks at.
\<close>

definition grant_synced :: "int \<Rightarrow> tables \<Rightarrow> bool" where
  "grant_synced k d \<longleftrightarrow>
     (\<forall>r \<in> set (sends d). \<forall>g \<in> set (redeem_grants d). g_send_id g = s_id r \<longrightarrow> s_one_time r = 1 \<longrightarrow>
        (\<exists>c. s_consumed_at r = Some c \<and> g_expires_at g = c + k))"

lemma grant_synced_map_sends:
  assumes "grant_synced k d"
    and "\<And>r. r \<in> set (sends d) \<Longrightarrow> s_id (f r) = s_id r \<and> s_one_time (f r) = s_one_time r
      \<and> (s_consumed_at r \<noteq> None \<longrightarrow> s_consumed_at (f r) = s_consumed_at r)"
  shows "grant_synced k (d\<lparr>sends := map f (sends d)\<rparr>)"
  using assms unfolding grant_synced_def by fastforce

lemma grant_synced_consume: "grant_synced k d \<Longrightarrow> grant_synced k (eff_consume now sid d)"
  unfolding eff_consume_def by (rule grant_synced_map_sends) (auto simp: consumable_def)

lemma grant_synced_finalize: "grant_synced k d \<Longrightarrow> grant_synced k (eff_finalize now sid d)"
  unfolding eff_finalize_def by (rule grant_synced_map_sends) auto

lemma grant_synced_create:
  assumes "grant_synced k d" "refs_ok d" "sid \<notin> s_id ` set (sends d)"
  shows "grant_synced k (eff_create sid now inp d)"
proof -
  have "g_send_id g \<noteq> sid" if "g \<in> set (redeem_grants d)" for g
    using that assms(2,3) by (auto simp: refs_ok_def)
  with assms(1) show ?thesis by (auto simp: grant_synced_def eff_create_def)
qed

lemma grant_synced_redeemed:
  assumes inv: "tables_inv d" and sync: "grant_synced k d" and r: "find_send sid d = Some r"
    and ot: "s_one_time r = 1 \<longrightarrow> (\<exists>q \<in> set (sends d). consumable now sid q)"
  shows "grant_synced k (eff_grant (new_grant t now (k * Second) sid) (eff_redeem now sid r d))"
proof (cases "s_one_time r = 1")
  case True
  with ot obtain q where q: "q \<in> set (sends d)" "consumable now sid q" by blast
  have "s_consumed_at x = Some (Unix now)" if "x \<in> set (sends (eff_consume now sid d))" "s_id x = sid" for x
    using consumed_row [OF inv q that] by simp
  with grant_synced_consume [OF sync, of now sid] True show ?thesis
    by (auto simp: grant_synced_def eff_redeem_def eff_grant_def new_grant_def Unix_add_seconds)
next
  case False
  have "x = r" if "x \<in> set (sends d)" "s_id x = sid" for x
    using that r unique_row [OF inv] by (auto simp: find_send_iff [OF inv])
  with sync False show ?thesis
    by (auto simp: grant_synced_def eff_redeem_def eff_grant_def new_grant_def)
qed

lemma RedeemSend_effect:
  "(\<exists>r. find_send sid (db s) = Some r
      \<and> (s_one_time r = 1 \<longrightarrow> (\<exists>q \<in> set (sends (db s)). consumable now sid q))
      \<and> (\<exists>token. db (snd (RedeemSend src now sid s))
            = eff_grant (new_grant token now (grantTTL s) sid) (eff_redeem now sid r (db s))))
   \<or> (\<exists>r. db (snd (RedeemSend src now sid s)) = eff_redeem now sid r (db s))
   \<or> db (snd (RedeemSend src now sid s)) = db s"
proof (cases rule: result_cases [of "RedeemSend src now sid s"])
  case (ok g s')
  from RedeemSend_Inr [OF ok(1)] ok(1) show ?thesis by (metis snd_conv)
next
  case (err e s')
  have "snd (RedeemSend src now sid s) = s'" using err(1) by simp
  with RedeemSend_Inl [OF err(1)] show ?thesis by blast
qed

lemma grant_synced_step:
  assumes inv: "tables_inv (db s)" and sync: "grant_synced k (db s)" and ttl: "grantTTL s = k * Second"
  shows "grant_synced k (db (sql_step x s))"
proof (cases x)
  case (OpCreate ms src now inp)
  then show ?thesis
    using inv sync grant_synced_create [OF sync]
    by (cases rule: result_cases [of "CreateSend ms src now inp s"])
       (auto dest!: CreateSend_Inr CreateSend_Inl simp: tables_inv_def)
next
  case (OpMark now sid pid)
  then show ?thesis using sync
    by (cases rule: result_cases [of "MarkUploaded now sid pid s"])
       (auto dest!: MarkUploaded_Inr MarkUploaded_Inl simp: eff_mark_def grant_synced_def)
next
  case (OpFinalize now sid)
  then show ?thesis using sync
    by (cases rule: result_cases [of "FinalizeSend now sid s"])
       (auto dest!: FinalizeSend_Inr FinalizeSend_Inl intro: grant_synced_finalize)
next
  case (OpRedeem src now sid)
  have eff: "grant_synced k (eff_redeem now sid r (db s))" for r
    using sync by (simp add: eff_redeem_def grant_synced_consume)
  have full: "grant_synced k (eff_grant (new_grant token now (grantTTL s) sid) (eff_redeem now sid r (db s)))"
    if "find_send sid (db s) = Some r"
      "s_one_time r = 1 \<longrightarrow> (\<exists>q \<in> set (sends (db s)). consumable now sid q)" for r token
    unfolding ttl by (rule grant_synced_redeemed [OF inv sync that])
  show ?thesis
    using RedeemSend_effect [of sid s now src] unfolding OpRedeem sql_step.simps
    by (elim disjE exE conjE) (simp_all add: eff full sync)
next
  case (OpDelete now)
  then show ?thesis using sync
    by (cases rule: result_cases [of "DeleteExpired now s"])
       (auto dest!: DeleteExpired_Inr DeleteExpired_Inl simp: eff_delete_def grant_synced_def)
qed (use sync in \<open>simp_all only: read_only_step\<close>)

lemma grant_synced_run:
  assumes "tables_inv (db s)" "grant_synced k (db s)" "grantTTL s = k * Second"
  shows "grant_synced k (db (sql_run xs s))"
  using assms
proof (induction xs arbitrary: s)
  case (Cons x xs)
  have "grantTTL (sql_step x s) = k * Second" using Cons.prems sql_step_cfg [of s x] by (simp add: same_cfg_def)
  with Cons show ?case by (simp add: tables_inv_step grant_synced_step)
qed simp

lemma parts_of_delete: "x \<notin> ids \<Longrightarrow> parts_of x (eff_delete ids d) = parts_of x d"
  by (auto simp: parts_of_def eff_delete_def intro!: filter_cong)

text \<open>
  C32. As long as the send itself has not expired, DeleteExpired keeps a send with an open
  grant, the grant and all its parts, when the grant window is a whole number of seconds.
\<close>

theorem sweep_keeps_open_grants:
  assumes start: "db s = empty_tables" "grantTTL s = k * Second"
    and s1: "s1 = sql_run ops s"
    and g: "g \<in> set (redeem_grants (db s1))" "Unix now < g_expires_at g"
    and r: "r \<in> set (sends (db s1))" "s_id r = g_send_id g" "Unix now < s_expires_at r"
  shows "g \<in> set (redeem_grants (db (sql_step (OpDelete now) s1)))
     \<and> r \<in> set (sends (db (sql_step (OpDelete now) s1)))
     \<and> parts_of (s_id r) (db (sql_step (OpDelete now) s1)) = parts_of (s_id r) (db s1)"
proof -
  have inv: "tables_inv (db s1)"
    unfolding s1 using start(1) tables_inv_empty by (simp add: tables_inv_run)
  have sync: "grant_synced k (db s1)" unfolding s1 using start tables_inv_empty
    by (intro grant_synced_run) (simp_all add: grant_synced_def empty_tables_def)
  have ttl: "grantTTL s1 = k * Second"
    using sql_run_cfg [of s ops] start(2) by (simp add: s1 same_cfg_def)
  have row: "row_ok (parts_of (s_id r) (db s1)) (grants_of (s_id r) (db s1)) r"
    using inv r(1) by (simp add: tables_inv_def life_ok_def)
  have "grants_of (s_id r) (db s1) \<noteq> []" using g(1) r(2) by (auto simp: grants_of_def filter_empty_conv)
  with row have fin: "s_status r = SendStatusFinalized" by (simp add: row_ok_def)
  have "\<not> (s_one_time r = 1 \<and> (\<exists>c. s_consumed_at r = Some c \<and> c \<le> Unix (now - grantTTL s1)))"
    using sync g r Unix_add_seconds [of now "- k"] by (auto simp: grant_synced_def ttl)
  then have alive: "\<not> dead_send (grantTTL s1) now r"
    using r(3) fin by (auto simp: dead_send_def split: option.splits)
  then have "s_id r \<notin> set (dead_ids (grantTTL s1) now (db s1))"
    using unique_row [OF inv _ r(1)] by (auto simp: dead_ids_def)
  then show ?thesis
    using g r parts_of_delete [of "s_id r"]
    by (cases rule: result_cases [of "DeleteExpired now s1"])
       (auto dest!: DeleteExpired_Inr DeleteExpired_Inl, auto simp: eff_delete_def)
qed

theorem sweep_keeps_open_grants_witness:
  "new_grant demo_token (3 * Second) (600 * Second) demo_id
     \<in> set (redeem_grants (db (sql_step (OpDelete (600 * Second)) demo_redeemed)))
   \<and> demo_row (Some 2) (Some 3) \<in> set (sends (db (sql_step (OpDelete (600 * Second)) demo_redeemed)))
   \<and> parts_of demo_id (db (sql_step (OpDelete (600 * Second)) demo_redeemed)) = parts_of demo_id (db demo_redeemed)"
  using sweep_keeps_open_grants
    [of "fresh_store (600 * Second)" 600 demo_redeemed "demo_ops @ [OpRedeem demo_src (3 * Second) demo_id]"
        "new_grant demo_token (3 * Second) (600 * Second) demo_id" "600 * Second" "demo_row (Some 2) (Some 3)"]
    demo_redeem_run
  by (simp add: fresh_store_def demo_state_def demo_row_def new_grant_def Unix_def Second_def)

text \<open>
  The sweep looks at the expiry of the send, not at its grants: a grant opened shortly before
  the send expires is valid for its full window only until the next sweep.
\<close>

lemma demo_late_grant:
  defines "s \<equiv> demo_state (demo_row (Some 2) (Some 3599)) (demo_parts (Some 1))
                  [new_grant demo_token (3599 * Second) (600 * Second) demo_id] []"
  shows "fst (ValidateGrant (3600 * Second) demo_id (HashToken demo_token) s) = Inr ()"
    and "fst (ValidateGrant (3600 * Second) demo_id (HashToken demo_token)
            (sql_step (OpDelete (3600 * Second)) s)) = Inl ErrInvalidGrant"
  unfolding s_def
  by (simp_all add: ValidateGrant_def DeleteExpired_def storageKeysFor_def delete_sends_def dead_send_def
      new_grant_def demo_eval)

theorem sweep_cuts_grant_at_send_expiry:
  "let late = demo_ops @ [OpRedeem demo_src (3599 * Second) demo_id];
       s = sql_run late (fresh_store (600 * Second)); now = 3600 * Second
   in fst (ValidateGrant now demo_id (HashToken demo_token) s) = Inr ()
      \<and> fst (ValidateGrant now demo_id (HashToken demo_token) (sql_step (OpDelete now) s)) = Inl ErrInvalidGrant"
proof -
  have "snd (RedeemSend demo_src (3599 * Second) demo_id demo_finalized) =
      demo_state (demo_row (Some 2) (Some 3599)) (demo_parts (Some 1))
        [new_grant demo_token (3599 * Second) (600 * Second) demo_id] []"
    by (simp add: RedeemSend_def consume_def update_sends_def open_grant_def demo_token_new insert_grant_def
        new_grant_def partsBrief_def demo_eval)
  then show ?thesis using demo_late_grant by (simp add: sql_run_append demo_run)
qed

end
