(* ===== verification/StoreScenario.thy ===== *)
theory StoreScenario
  imports CoordinatorLaws SqliteStore FsblobStore SqliteProps
begin

text \<open>
  The store the server runs on: the coordinator over \<open>SQLiteState\<close> and \<open>FilesystemBlob\<close>. The
  laws of the two interfaces make the coordinator's guarantees hold for it, for part ids that
  are plain file names.
\<close>

type_synonym store = "(sqlite, fsblob) coordinator"

abbreviation store_trans :: "store \<Rightarrow> store \<Rightarrow> bool" where
  "store_trans \<equiv> co_trans sqlite_state filesystem_blob plain"

abbreviation store_reach :: "store \<Rightarrow> store \<Rightarrow> bool" where
  "store_reach \<equiv> co_reach sqlite_state filesystem_blob plain"

lemma sid_names: "sid_ok i \<Longrightarrow> names (StorageKey i p) = i # names p"
  using names_glue [of i p] by (simp add: StorageKey_def sid_ok_def names_word)

lemma loc_plain:
  assumes "sid_ok i" "plain p"
  shows "loc (StorageKey i p) = (if Contains p ''..'' \<or> HasPrefix p ''.tmp-'' then None else Some [i, p])"
proof -
  have v: "valid_key (StorageKey i p) \<longleftrightarrow> \<not> Contains p ''..''"
    using assms(1) Contains_slash [of i p]
    by (cases i) (auto simp: valid_key_def StorageKey_def sid_ok_def plain_def HasPrefix_def)
  have "hidden (names (StorageKey i p)) \<longleftrightarrow> HasPrefix p ''.tmp-''"
    using assms by (simp add: sid_names names_word hidden_def)
  with v assms show ?thesis by (auto simp: loc_def sid_names names_word)
qed

interpretation st: coordinated_stores sqlite_state sql_ok declared_parts sid_ok
    filesystem_blob blob_ok view loc fs_key_of fs_keyok plain
proof
  fix i p assume "sid_ok i"
  then show "fs_keyok (StorageKey i p)" by (simp add: fs_keyok_def sid_names)
next
  fix i p q assume "sid_ok i" "plain p" "loc (StorageKey i p) = Some q"
  then show "fs_key_of q = StorageKey i p"
    using loc_plain [of i p] by (auto simp: StorageKey_def split: if_splits)
qed

definition fresh_coordinator :: "sqlite \<Rightarrow> fsblob \<Rightarrow> int \<Rightarrow> store \<Rightarrow> bool" where
  "fresh_coordinator s b n c \<longleftrightarrow> c = NewCoordinator s b n \<and> db s = empty_tables \<and> blob_ok b"

lemma fresh_coupled:
  assumes "fresh_coordinator s b n c"
  shows "st.coupled c"
proof -
  have "declared_in empty_tables = (\<lambda>_. None)"
    by (simp add: fun_eq_iff declared_in_def find_part_def empty_tables_def)
  moreover have "sends empty_tables = []" by (simp add: empty_tables_def)
  ultimately show ?thesis
    using assms tables_inv_empty
    by (auto simp: fresh_coordinator_def NewCoordinator_def sql_ok_def ids_ok_def parts_canonical_def blobs_genuine_def)
qed

lemma reach_is_coupled: "fresh_coordinator s b n c0 \<Longrightarrow> store_reach c0 c \<Longrightarrow> st.coupled c"
  using st.reach_coupled fresh_coupled by blast

lemma declared_find: "declared_parts s (i, p) \<noteq> None \<longleftrightarrow> find_part i p (db s) \<noteq> None"
  by (simp add: declared_in_def)

section \<open>A concrete store\<close>

definition demo_bytes :: string where
  "demo_bytes = ''abc''"

definition demo_sha :: string where
  "demo_sha = sha256_hex demo_bytes"

definition demo_upload :: reader where
  "demo_upload = \<lparr>r_data = demo_bytes, r_fails = False\<rparr>"

definition demo_meta :: "string \<Rightarrow> PartMeta" where
  "demo_meta pid = \<lparr>PartID = pid, EncryptedSize = 3, SHA256 = demo_sha\<rparr>"

definition demo_env :: "int \<Rightarrow> string \<Rightarrow> env" where
  "demo_env t rnd = \<lparr>wall = 0, clock = t, entropy = Some rnd, tmp_suffix = ''7''\<rparr>"

definition demo_fs :: "(path \<times> node) list \<Rightarrow> fsblob" where
  "demo_fs ns = \<lparr>dir = ''/b'', nodes = ([''b''], Directory) # ns, fsFaults = []\<rparr>"

abbreviation demo_blob :: fsblob where
  "demo_blob \<equiv> demo_fs [([''b'', demo_id], Directory), ([''b'', demo_id, ''a''], File demo_bytes)]"

lemma demo_Put:
  "Put (StorageKey demo_id ''a'') demo_upload (demo_meta ''a'') 100 ''7'' (demo_fs []) = (Inr 3, demo_blob)"
  apply (simp add: Put_def resolve_def StorageKey_def demo_id_def demo_fs_def HasPrefix_def FJoin_def Clean_def Dir_def Let_def)
  apply (simp add: MkdirAll_def upt_conv_Cons lookup_def os_call_def sys_mkdir_def wrap_err_def CreateTemp_def
     temp_name_def kpath_def sys_create_excl_def)
  apply (simp add: put_temp_def limited_def demo_upload_def demo_bytes_def add64_def wrap64_def copy_to_def os_call_def sys_write_def
     wrap_err_def kpath_def demo_meta_def demo_sha_def sys_noop_def Rename_def sys_rename_def discard_def lookup_def)
  done

definition demo_part :: "string \<Rightarrow> int option \<Rightarrow> part_row" where
  "demo_part pid up =
     \<lparr>p_send_id = demo_id, p_part_id = pid, p_storage_key = StorageKey demo_id pid,
      p_encrypted_size = 3, p_sha256 = demo_sha, p_uploaded_at = up\<rparr>"

definition demo_one :: "int option \<Rightarrow> int option \<Rightarrow> send_row" where
  "demo_one fin con = demo_row fin con\<lparr>s_total_encrypted_size := 3, s_part_count := 1\<rparr>"

definition demo_store :: "sqlite \<Rightarrow> fsblob \<Rightarrow> store" where
  "demo_store s b = \<lparr>state = s, blob = b, maxPartBytes = 100\<rparr>"

definition demo_one_input :: CreateSendInput where
  "demo_one_input = \<lparr>in_Version = ''v1'', in_OneTime = True, in_TTL = Hour, in_Parts = [demo_meta ''a'']\<rparr>"

abbreviation demo_c0 :: store where
  "demo_c0 \<equiv> demo_store (fresh_store (600 * Second)) (demo_fs [])"

abbreviation demo_c1 :: store where
  "demo_c1 \<equiv> demo_store (demo_state (demo_one None None) [demo_part ''a'' None] [] []) (demo_fs [])"

abbreviation demo_c2 :: store where
  "demo_c2 \<equiv> demo_store (demo_state (demo_one None None) [demo_part ''a'' (Some 1)] [] []) demo_blob"

abbreviation demo_c3 :: store where
  "demo_c3 \<equiv> demo_store (demo_state (demo_one (Some 2) None) [demo_part ''a'' (Some 1)] [] []) demo_blob"

abbreviation demo_c4 :: store where
  "demo_c4 \<equiv> demo_store (demo_state (demo_one (Some 2) (Some 3)) [demo_part ''a'' (Some 1)]
     [new_grant demo_token (3 * Second) (600 * Second) demo_id] []) demo_blob"

lemmas demo_eval_store =
  demo_eval demo_one_def demo_part_def demo_store_def demo_env_def on_state_def on_blob_def

lemma demo_step1: "snd (co_CreateSend sqlite_state (demo_env 0 ''0123456789'') demo_one_input demo_c0) = demo_c1"
  by (simp add: co_CreateSend_def CreateSend_def UnixMilli_def demo_id_new insert_send_def insert_part_def
      demo_eval_store demo_one_input_def demo_meta_def)

lemma demo_step2:
  "PutPart sqlite_state filesystem_blob (demo_env Second []) demo_id ''a'' demo_upload (demo_meta ''a'') demo_c1
     = (Inr 3, demo_c2)"
proof -
  have "upload_check sqlite_state demo_id ''a'' (demo_meta ''a'') demo_c1 = (Inr (demo_meta ''a''), demo_c1)"
    by (simp add: upload_check_def SendStatusOf_def DeclaredPart_def demo_eval_store demo_meta_def)
  moreover have "on_blob (bl_Put filesystem_blob (demo_env Second []) (StorageKey demo_id ''a'') demo_upload (demo_meta ''a'') 100) demo_c1
      = (Inr 3, demo_store (state demo_c1) demo_blob)"
    using demo_Put by (simp add: on_blob_def demo_store_def demo_env_def)
  moreover have "maxPartBytes demo_c1 = 100" by (simp add: demo_store_def)
  moreover have "on_state (st_MarkUploaded sqlite_state (demo_env Second []) demo_id ''a'') (demo_store (state demo_c1) demo_blob)
      = (Inr (), demo_c2)"
    by (simp add: MarkUploaded_def update_parts_def demo_eval_store)
  ultimately show ?thesis by (simp add: PutPart_def)
qed

lemma demo_step3: "co_FinalizeSend sqlite_state (demo_env (2 * Second) []) demo_id demo_c2 = (Inr (), demo_c3)"
  by (simp add: co_FinalizeSend_def FinalizeSend_def SendStatusOf_def update_sends_def demo_eval_store)

lemma demo_step4:
  "snd (co_RedeemSend sqlite_state (demo_env (3 * Second) (the demo_src)) demo_id demo_c3) = demo_c4"
  using demo_token_new
  by (simp add: co_RedeemSend_def RedeemSend_def consume_def update_sends_def open_grant_def insert_grant_def
      new_grant_def partsBrief_def demo_eval_store demo_src_def)

lemma demo_sid_ok: "sid_ok demo_id"
  by (rule NewSendID_ok [OF demo_id_new])

lemma demo_blob_ok: "blob_ok (demo_fs [])"
proof -
  have "kpath ''/b'' = [''b'']" by (simp add: kpath_def)
  then have "ns_ok [''b''] [([''b''], Directory)]"
    by (auto simp: ns_ok_def lookup_def plain_def)
  moreover have "''/b'' = rooted_path [''b'']" by (simp add: rooted_path_def)
  ultimately show ?thesis
    using \<open>kpath ''/b'' = [''b'']\<close> unfolding blob_ok_def demo_fs_def
    by (intro conjI exI [of _ "[''b'']"]) (simp_all add: plain_def)
qed

lemma demo_fresh: "fresh_coordinator (fresh_store (600 * Second)) (demo_fs []) 100 demo_c0"
  by (simp add: fresh_coordinator_def NewCoordinator_def demo_store_def fresh_store_def demo_blob_ok)

lemma demo_plain: "plain ''a''" "\<not> HasPrefix ''a'' ''.tmp-''"
  by (simp_all add: plain_def HasPrefix_def)

lemma demo_reach: "store_reach demo_c0 demo_c1" "store_reach demo_c0 demo_c2" "store_reach demo_c0 demo_c4"
proof -
  have sfx: "temp_suffix (tmp_suffix (demo_env Second []))" by (simp add: demo_env_def temp_suffix_def)
  have "store_trans demo_c0 demo_c1"
    using co_trans.create [of demo_one_input plain sqlite_state filesystem_blob demo_c0 "demo_env 0 ''0123456789''"] demo_plain
    unfolding demo_step1 by (simp add: demo_one_input_def demo_meta_def)
  then show r1: "store_reach demo_c0 demo_c1" by (rule co_reach.step [OF co_reach.init])
  have "store_trans demo_c1 demo_c2"
    using co_trans.put [OF sfx, of sqlite_state filesystem_blob plain demo_c1 demo_id "''a''" demo_upload "demo_meta ''a''"]
    unfolding demo_step2 by simp
  with r1 show r2: "store_reach demo_c0 demo_c2" by (rule co_reach.step)
  have "store_trans demo_c2 demo_c3"
    using co_trans.finalize [of sqlite_state filesystem_blob plain demo_c2 "demo_env (2 * Second) []" demo_id]
    unfolding demo_step3 by simp
  with r2 have r3: "store_reach demo_c0 demo_c3" by (rule co_reach.step)
  have "store_trans demo_c3 demo_c4"
    using co_trans.redeem [of sqlite_state filesystem_blob plain demo_c3 "demo_env (3 * Second) (the demo_src)" demo_id]
    unfolding demo_step4 .
  with r3 show "store_reach demo_c0 demo_c4" by (rule co_reach.step)
qed

lemma demo_get:
  "GetPart sqlite_state filesystem_blob (demo_env (4 * Second) []) demo_id ''a'' demo_token demo_c4 =
     (Inr (File demo_bytes), demo_c4)"
proof -
  have "Open (StorageKey demo_id ''a'') demo_blob = (Inr (File demo_bytes), demo_blob)"
    by (simp add: Open_def resolve_def StorageKey_def demo_id_def demo_fs_def HasPrefix_def FJoin_def Clean_def Let_def
        kpath_def os_call_def sys_open_def lookup_def)
  then show ?thesis
    by (simp add: GetPart_def ValidateGrant_def DeclaredPart_def new_grant_def demo_eval_store)
qed

end
