(* ===== verification/StoreProps.thy ===== *)
theory StoreProps
  imports StoreScenario
begin

text \<open>The properties of the store the server runs on.\<close>

lemma GetPart_serves:
  assumes "fresh_coordinator s b n c0" "store_reach c0 c" "plain pid" "\<not> HasPrefix pid ''.tmp-''"
    and "GetPart sqlite_state filesystem_blob e sid pid token c = (Inr h, c')"
  shows "\<exists>d p. h = File d \<and> find_part sid pid (db (state c)) = Some p \<and> p_uploaded_at p \<noteq> None
     \<and> int (length d) = p_encrypted_size p \<and> sha256_hex d = p_sha256 p"
proof -
  have c: "st.coupled c" using assms(1,2) by (rule reach_is_coupled)
  have "declared_parts (state c) (sid, pid) \<noteq> None"
    using st.GetPart_run [OF c assms(5)] by auto
  then have sid: "sid_ok sid" using sq.declared_idok c by blast
  have nd: "\<not> Contains pid ''..''"
  proof
    assume "Contains pid ''..''"
    then have "\<not> valid_key (StorageKey sid pid)" by (simp add: valid_key_def StorageKey_def Contains_slash)
    moreover obtain b' where "Open (StorageKey sid pid) (blob c) = (Inr h, b')"
      using st.GetPart_run [OF c assms(5)] by auto
    moreover have "blob_ok (blob c)" using c by simp
    ultimately show False by (simp add: Open_def resolve_ok)
  qed
  then have "loc (StorageKey sid pid) = Some [sid, pid]" using sid assms(3,4) by (simp add: loc_plain)
  from st.GetPart_genuine [OF c assms(5) this] obtain m d where "h = File d"
    "declared_parts (state c) (sid, pid) = Some (m, True)" "genuine m d" by blast
  then show ?thesis
    by (auto simp: declared_in_def part_info_def genuine_def)
qed

section \<open>Uploads\<close>

lemma PutPart_run:
  assumes "PutPart S B e sid pid r d c = (Inr n, c')"
  obtains want c1 c2 where "upload_check S sid pid d c = (Inr want, c1)"
    "on_blob (bl_Put B e (StorageKey sid pid) r want (maxPartBytes c1)) c1 = (Inr n, c2)"
    "on_state (st_MarkUploaded S e sid pid) c2 = (Inr (), c')"
  using assms unfolding PutPart_def by (auto elim!: on_ok_InrE)

lemma upload_check_run:
  assumes "upload_check S sid pid d c = (Inr want, c1)"
  obtains s1 s2 z where "st_SendStatusOf S sid (state c) = (Inr SendStatusCreating, s1)"
    "st_DeclaredPart S sid pid s1 = (Inr z, s2)" "c1 = c\<lparr>state := s2\<rparr>"
proof -
  obtain x s1 where 1: "st_SendStatusOf S sid (state c) = (x, s1)" by force
  obtain y s2 where 2: "st_DeclaredPart S sid pid s1 = (y, s2)" by force
  show ?thesis
    using assms 1 2 that [of s1 _ s2]
    by (cases x; cases y) (auto simp: upload_check_def on_state_def split: if_splits)
qed

lemma upload_check_tables:
  assumes "upload_check sqlite_state sid pid d c = (Inr want, c1)"
  shows "db (state c1) = db (state c) \<and> (\<exists>r. find_send sid (db (state c)) = Some r \<and> s_status r = SendStatusCreating)"
proof -
  from assms obtain s1 s2 m up where 1: "SendStatusOf sid (state c) = (Inr SendStatusCreating, s1)"
    and 2: "DeclaredPart sid pid s1 = (Inr (m, up), s2)" and 3: "c1 = c\<lparr>state := s2\<rparr>"
    by (rule upload_check_run) auto
  from SendStatusOf_Inr [OF 1] DeclaredPart_Inr [OF 2] 3 show ?thesis by auto
qed

lemma PutPart_publishes:
  assumes reach: "fresh_coordinator s b lim c0" "store_reach c0 c" and sfx: "temp_suffix (tmp_suffix e)"
    and pid: "plain pid" "\<not> HasPrefix pid ''.tmp-''"
    and put: "PutPart sqlite_state filesystem_blob e sid pid r d c = (Inr n, c')"
  shows "(\<exists>q. find_send sid (db (state c)) = Some q \<and> s_status q = SendStatusCreating)
     \<and> (\<exists>p t. find_part sid pid (db (state c')) = Some p \<and> p_uploaded_at p = Some (Unix (clock e))
          \<and> n = p_encrypted_size p \<and> n \<le> maxPartBytes c
          \<and> view (blob c') [sid, pid] = Some t \<and> int (length t) = n \<and> sha256_hex t = p_sha256 p
          \<and> t = fst (limited (add64 (maxPartBytes c) 1) r) \<and> (\<exists>want. put_ok r want (maxPartBytes c) n))"
proof -
  have c: "st.coupled c" using reach by (rule reach_is_coupled)
  from put obtain want c1 c2 where u: "upload_check sqlite_state sid pid d c = (Inr want, c1)"
    and p: "on_blob (bl_Put filesystem_blob e (StorageKey sid pid) r want (maxPartBytes c1)) c1 = (Inr n, c2)"
    and m: "on_state (st_MarkUploaded sqlite_state e sid pid) c2 = (Inr (), c')"
    by (rule PutPart_run)
  from st.upload_check_effect [OF _ u] c obtain up where dc: "declared_parts (state c) (sid, pid) = Some (want, up)"
    and s1: "sql_ok (state c1)" "declared_parts (state c1) = declared_parts (state c)" "blob c1 = blob c"
      "maxPartBytes c1 = maxPartBytes c"
    by auto
  have sid: "sid_ok sid" using sq.declared_idok dc c by blast
  have ok: "blob_ok (blob c1)" "fs_keyok (StorageKey sid pid)" using c s1(3) sid st.id_keyok by auto
  have pb: "bl_Put filesystem_blob e (StorageKey sid pid) r want (maxPartBytes c1) (blob c1) = (Inr n, blob c2)"
    and c2: "state c2 = state c1" using p by (auto simp: on_blob_eq prod_eq_iff)
  from Put_view [OF ok sfx pb] obtain t where t: "genuine want t" "n = int (length t)" "n \<le> maxPartBytes c1"
    and v: "view (blob c2) = (case loc (StorageKey sid pid) of None \<Rightarrow> view (blob c1) | Some q \<Rightarrow> (view (blob c1))(q \<mapsto> t))"
    by blast
  have eff: "valid_key (StorageKey sid pid)" "put_ok r want (maxPartBytes c1) n"
    "view (blob c2) = (case loc (StorageKey sid pid) of None \<Rightarrow> view (blob c1)
       | Some q \<Rightarrow> (view (blob c1))(q \<mapsto> fst (limited (add64 (maxPartBytes c1) 1) r)))"
    using Put_effect [OF ok(1) _ sfx, of "StorageKey sid pid" r want "maxPartBytes c1" "Inr n" "blob c2"] pb ok(2)
    by (auto simp: fs_keyok_def)
  then have "\<not> Contains pid ''..''" by (simp add: valid_key_def StorageKey_def Contains_slash)
  then have l: "loc (StorageKey sid pid) = Some [sid, pid]" using loc_plain [OF sid pid(1)] pid(2) by simp
  have tl: "t = fst (limited (add64 (maxPartBytes c) 1) r)"
    using fun_cong [OF HOL.trans [OF eff(3) [symmetric] v], of "[sid, pid]"] s1(4) by (simp add: l)
  have mk: "MarkUploaded (clock e) sid pid (state c2) = (Inr (), state c')" and b': "blob c' = blob c2"
    using m by (auto simp: on_state_eq prod_eq_iff)
  obtain p where fp: "find_part sid pid (db (state c)) = Some p" "part_info p = (want, up)"
    using dc by (auto simp: declared_in_def)
  have same: "db (state c2) = db (state c)" using upload_check_tables [OF u] c2 by simp
  have "find_part sid pid (db (state c')) = Some (p\<lparr>p_uploaded_at := Some (Unix (clock e))\<rparr>)"
  proof -
    have inv: "tables_inv (db (state c))" "tables_inv (eff_mark (clock e) sid pid (db (state c)))"
      using c by (auto simp: sql_ok_def intro: tables_inv_mark)
    have "db (state c') = eff_mark (clock e) sid pid (db (state c))" using MarkUploaded_Inr [OF mk] same by simp
    then show ?thesis
      using fp(1) unfolding find_part_iff [OF inv(1)]
      by (simp add: find_part_iff [OF inv(2)]) (force simp: eff_mark_def)
  qed
  moreover have "view (blob c') [sid, pid] = Some t" by (simp add: b' v l)
  ultimately show ?thesis
    using upload_check_tables [OF u] t fp(2) s1(4) tl eff(2) by (auto simp: part_info_def genuine_def)
qed

text \<open>The process dies between the publication of the blob and \<open>MarkUploaded\<close>.\<close>



text \<open>What was uploaded is what is read back, byte for byte.\<close>

lemma limited_all:
  assumes "int64 limit" "limit < 2 ^ 63 - 1" "put_ok r want limit n"
  shows "fst (limited (add64 limit 1) r) = r_data r \<and> \<not> r_fails r"
proof -
  have l: "add64 limit 1 = limit + 1" using assms(1,2) by (intro add64_id) (simp add: int64_def)
  from assms(3) have p: "\<not> snd (limited (limit + 1) r)" "int (length (fst (limited (limit + 1) r))) \<le> limit"
    by (simp_all add: put_ok_def l Let_def)
  show ?thesis
  proof (cases "int (length (r_data r)) < limit + 1")
    case True
    with p(1) show ?thesis by (simp add: l limited_def)
  next
    case False
    with p(2) show ?thesis by (simp add: limited_def l split: if_splits)
  qed
qed

text \<open>
  C22. A blob that Put accepts is read back by Open with exactly the bytes of the upload,
  whose size and SHA-256 are the wanted ones.
\<close>

theorem upload_roundtrip:
  assumes ok: "blob_ok b" and nf: "fsFaults b = []"
    and sid: "sid_ok sid" and pid: "plain pid" "\<not> HasPrefix pid ''.tmp-''" and sfx: "temp_suffix sfx"
    and lim: "0 \<le> limit" "limit < 2 ^ 63 - 1"
    and put: "Put (StorageKey sid pid) r want limit sfx b = (Inr n, b')" and nf': "fsFaults b' = []"
  shows "Open (StorageKey sid pid) b' = (Inr (File (r_data r)), b') \<and> \<not> r_fails r
     \<and> n = int (length (r_data r)) \<and> n = EncryptedSize want \<and> sha256_hex (r_data r) = SHA256 want"
proof -
  have "names (StorageKey sid pid) \<noteq> []" using sid by (simp add: sid_names)
  from Put_effect [OF ok this sfx put] have e: "blob_ok b'" "valid_key (StorageKey sid pid)" "put_ok r want limit n"
    and v: "view b' = (case loc (StorageKey sid pid) of None \<Rightarrow> view b
              | Some q \<Rightarrow> (view b)(q \<mapsto> fst (limited (add64 limit 1) r)))" by auto
  have "\<not> Contains pid ''..''" using e(2) by (simp add: valid_key_def StorageKey_def Contains_slash)
  then have l: "loc (StorageKey sid pid) = Some [sid, pid]" using loc_plain [OF sid pid(1)] pid(2) by simp
  have i: "int64 limit" using lim by (simp add: int64_def)
  note all = limited_all [OF i lim(2) e(3)]
  then have "view b' [sid, pid] = Some (r_data r)" by (simp add: v l)
  from Open_total [OF e(1) nf' l this] all e(3) show ?thesis by (simp add: put_ok_def Let_def)
qed

theorem upload_roundtrip_witness:
  "Open (StorageKey demo_id ''a'') demo_blob = (Inr (File (r_data demo_upload)), demo_blob) \<and> \<not> r_fails demo_upload
     \<and> 3 = int (length (r_data demo_upload)) \<and> 3 = EncryptedSize (demo_meta ''a'')
     \<and> sha256_hex (r_data demo_upload) = SHA256 (demo_meta ''a'')"
  by (rule upload_roundtrip [OF demo_blob_ok _ demo_sid_ok demo_plain _ _ _ demo_Put])
     (simp_all add: demo_fs_def temp_suffix_def)

text \<open>A rejected upload leaves every visible blob as it was, whatever step failed.\<close>

text \<open>
  C23. A Put that returns an error leaves every visible blob as it was, whichever system
  call failed.
\<close>

theorem rejected_upload_is_invisible:
  assumes ok: "blob_ok b" and sid: "sid_ok sid" and sfx: "temp_suffix sfx"
    and put: "Put (StorageKey sid pid) r want limit sfx b = (Inl x, b')"
  shows "view b' = view b \<and> blob_ok b'"
  using Put_effect [OF ok _ sfx put] sid by (simp add: sid_names)

theorem rejected_upload_is_invisible_witness:
  "view (snd (Put (StorageKey demo_id ''../x'') demo_upload (demo_meta ''a'') 100 ''7'' demo_blob)) = view demo_blob
     \<and> blob_ok (snd (Put (StorageKey demo_id ''../x'') demo_upload (demo_meta ''a'') 100 ''7'' demo_blob))"
proof (rule rejected_upload_is_invisible [OF _ demo_sid_ok])
  show "blob_ok demo_blob"
    using fs.put_inv [OF demo_blob_ok, of "StorageKey demo_id ''a''" "demo_env 0 []" demo_upload "demo_meta ''a''" 100]
      demo_Put demo_sid_ok by (simp add: fs_keyok_def sid_names demo_env_def temp_suffix_def)
  show "temp_suffix ''7''" by (simp add: temp_suffix_def)
  show "Put (StorageKey demo_id ''../x'') demo_upload (demo_meta ''a'') 100 ''7'' demo_blob
      = (Inl (ErrInternal ''invalid storage key''), snd (Put (StorageKey demo_id ''../x'') demo_upload (demo_meta ''a'') 100 ''7'' demo_blob))"
    by (simp add: Put_def resolve_def StorageKey_def demo_id_def HasPrefix_def)
qed

section \<open>Containment\<close>



section \<open>Sweeps\<close>

lemma OrphanSweep_run:
  assumes "OrphanSweep S B c = (Inr n, c')"
  obtains live c1 stored c2 where "on_state (st_LiveStorageKeys S) c = (Inr live, c1)"
    "on_blob (bl_List B) c1 = (Inr stored, c2)" "n = length (orphans live stored)"
    "c' = c2\<lparr>blob := delete_each B (orphans live stored) (blob c2)\<rparr>"
  using assms unfolding OrphanSweep_def by (auto elim!: on_ok_InrE)

lemma orphan_sweep_view:
  assumes ok: "sql_ok (state c)" "blob_ok (blob c)" "fs_quiet (blob c)"
    and sw: "OrphanSweep sqlite_state filesystem_blob c = (Inr n, c')"
  shows "view (blob c') q = (if fs_key_of q \<in> storage_keys (declared_parts (state c)) then view (blob c) q else None)
     \<and> n = card {q. view (blob c) q \<noteq> None \<and> fs_key_of q \<notin> storage_keys (declared_parts (state c))}
     \<and> db (state c') = db (state c)"
proof -
  from sw obtain live c1 stored c2 where l: "on_state (st_LiveStorageKeys sqlite_state) c = (Inr live, c1)"
    and st: "on_blob (bl_List filesystem_blob) c1 = (Inr stored, c2)" and n: "n = length (orphans live stored)"
    and c': "c' = c2\<lparr>blob := delete_each filesystem_blob (orphans live stored) (blob c2)\<rparr>"
    by (rule OrphanSweep_run)
  have l': "LiveStorageKeys (state c) = (Inr live, state c1)" and b1: "blob c1 = blob c"
    using l by (auto simp: on_state_eq prod_eq_iff)
  have st': "List_blobs (blob c) = (Inr stored, blob c2)" and s2: "state c2 = state c1"
    using st b1 by (auto simp: on_blob_eq prod_eq_iff)
  let ?K = "storage_keys (declared_parts (state c))"
  have live: "set live = ?K" using sq.live_ok [OF ok(1)] l' by simp
  have stored: "set stored = fs_key_of ` dom (view (blob c))" "distinct stored"
    using List_ok [OF ok(2) st'] by auto
  have b2: "blob_ok (blob c2)" "view (blob c2) = view (blob c)" using List_keep [OF ok(2)] st' by simp_all
  have q2: "fs_quiet (blob c2)" using fsq.list_quiet [OF ok(3)] ok(2) st' by simp
  have keyloc: "loc (fs_key_of p) = Some p" if "view (blob c) p \<noteq> None" for p
    using loc_Join [OF ok(2) that] .
  have orph: "set (orphans live stored) = fs_key_of ` {p. view (blob c) p \<noteq> None \<and> fs_key_of p \<notin> ?K}"
    by (auto simp: orphans_def live stored dom_def)
  have "\<forall>k \<in> set (orphans live stored). loc k \<noteq> None" using orph keyloc by auto
  from fsq.delete_each_exact [OF b2(1) q2 this, of q]
  have v: "view (blob c') q = (if \<exists>k \<in> set (orphans live stored). loc k = Some q then None else view (blob c) q)"
    by (simp add: c' b2)
  have "(\<exists>k \<in> set (orphans live stored). loc k = Some q) \<longleftrightarrow> view (blob c) q \<noteq> None \<and> fs_key_of q \<notin> ?K"
  proof
    assume "\<exists>k \<in> set (orphans live stored). loc k = Some q"
    then obtain p where p: "view (blob c) p \<noteq> None" "fs_key_of p \<notin> ?K" "loc (fs_key_of p) = Some q"
      unfolding orph by blast
    with keyloc [OF p(1)] show "view (blob c) q \<noteq> None \<and> fs_key_of q \<notin> ?K" by simp
  next
    assume "view (blob c) q \<noteq> None \<and> fs_key_of q \<notin> ?K"
    with keyloc [of q] show "\<exists>k \<in> set (orphans live stored). loc k = Some q" unfolding orph by blast
  qed
  then have vq: "view (blob c') q = (if fs_key_of q \<in> ?K then view (blob c) q else None)" using v by auto
  have "inj_on fs_key_of {p. view (blob c) p \<noteq> None \<and> fs_key_of p \<notin> ?K}"
  proof (rule inj_onI)
    fix x y assume xy: "x \<in> {p. view (blob c) p \<noteq> None \<and> fs_key_of p \<notin> ?K}"
      "y \<in> {p. view (blob c) p \<noteq> None \<and> fs_key_of p \<notin> ?K}" "fs_key_of x = fs_key_of y"
    have "loc (fs_key_of x) = Some x" "loc (fs_key_of y) = Some y"
      using xy(1,2) keyloc by blast+
    then have "Some x = Some y" unfolding xy(3) by (rule HOL.trans [OF sym])
    then show "x = y" by (rule option.inject [THEN iffD1])
  qed
  then have "card {p. view (blob c) p \<noteq> None \<and> fs_key_of p \<notin> ?K} = card (set (orphans live stored))"
    unfolding orph by (simp add: card_image)
  also have "\<dots> = n" 
    unfolding n by (rule distinct_card) (simp add: orphans_def stored(2))
  finally show ?thesis using vq LiveStorageKeys_Inr [OF l'] s2 by (simp add: c')
qed

theorem orphan_sweep_exact:
  assumes "sql_ok (state c)" "blob_ok (blob c)" "fs_quiet (blob c)"
    and "OrphanSweep sqlite_state filesystem_blob c = (Inr n, c')"
  shows "(\<forall>q. view (blob c') q =
       (if \<exists>p \<in> set (send_parts (db (state c))). p_storage_key p = Join q ''/'' then view (blob c) q else None))
     \<and> n = card {q. view (blob c) q \<noteq> None \<and> (\<forall>p \<in> set (send_parts (db (state c))). p_storage_key p \<noteq> Join q ''/'')}
     \<and> db (state c') = db (state c)"
proof -
  have "tables_inv (db (state c))" using assms(1) by (simp add: sql_ok_def)
  from part_keys_declared [OF this, of UNIV]
  have "storage_keys (declared_parts (state c)) = p_storage_key ` set (send_parts (db (state c)))"
    by (simp add: storage_keys_def)
  then have k: "x \<in> storage_keys (declared_parts (state c)) \<longleftrightarrow> (\<exists>p \<in> set (send_parts (db (state c))). p_storage_key p = x)" for x
    by auto
  show ?thesis using orphan_sweep_view [OF assms] by (simp add: k)
qed

lemma demo_coupled:
  "sql_ok (state demo_c2)" "blob_ok demo_blob" "fs_quiet demo_blob" "sql_ok (fresh_store ttl)"
proof -
  have "st.coupled demo_c2" by (rule reach_is_coupled [OF demo_fresh demo_reach(2)])
  then show "sql_ok (state demo_c2)" "blob_ok demo_blob" by (auto simp: demo_store_def)
  show "fs_quiet demo_blob" by (simp add: fs_quiet_def demo_fs_def)
  show "sql_ok (fresh_store ttl)"
    by (simp add: sql_ok_def fresh_store_def tables_inv_empty ids_ok_def) (simp add: empty_tables_def)
qed

lemma demo_list: "List_blobs demo_blob = (Inr [demo_id @ ''/a''], demo_blob)"
  by (simp add: List_blobs_def demo_fs_def kpath_def os_call_def sys_walk_def walk_def hidden_def HasPrefix_def
      wrap_err_def lookup_def)

lemma demo_orphan_run:
  "fst (OrphanSweep sqlite_state filesystem_blob (demo_store (fresh_store ttl) demo_blob)) = Inr 1"
  by (simp add: OrphanSweep_def on_state_def on_blob_def demo_list LiveStorageKeys_def query_def stmt_def demo_store_def
      fresh_store_def empty_tables_def orphans_def)

theorem orphan_sweep_exact_witness:
  "let c = demo_store (fresh_store 1) demo_blob; c' = snd (OrphanSweep sqlite_state filesystem_blob c) in
     view (blob c) [demo_id, ''a''] = Some demo_bytes \<and> (\<forall>q. view (blob c') q = None)"
proof -
  let ?c = "demo_store (fresh_store 1) demo_blob"
  have "OrphanSweep sqlite_state filesystem_blob ?c = (Inr 1, snd (OrphanSweep sqlite_state filesystem_blob ?c))"
    using demo_orphan_run by (simp add: prod_eq_iff)
  from orphan_sweep_exact [OF _ _ _ this] demo_coupled
  have "\<forall>q. view (blob (snd (OrphanSweep sqlite_state filesystem_blob ?c))) q = None"
    by (simp add: demo_store_def fresh_store_def empty_tables_def)
  moreover have "view (blob ?c) [demo_id, ''a''] = Some demo_bytes"
    by (simp add: demo_store_def view_def hidden_def HasPrefix_def fview_def demo_fs_def kpath_def lookup_def)
  ultimately show ?thesis by (simp add: Let_def)
qed

text \<open>
  The sweep compares the listed names with the stored keys as texts. A part whose id is not the
  plain name of its file, \<open>./a\<close> say, is stored under another name than its key: its blob counts
  as an orphan, and the next sweep deletes the bytes of a live, uploaded part.
\<close>

theorem aliased_part_is_swept:
  assumes ok: "sql_ok (state c)" "blob_ok (blob c)" "fs_quiet (blob c)"
    and part: "find_part sid pid (db (state c)) = Some p" "loc (StorageKey sid pid) = Some q"
    and differs: "Join q ''/'' \<noteq> StorageKey sid pid"
      "\<forall>p' \<in> set (send_parts (db (state c))). p_storage_key p' \<noteq> Join q ''/''"
    and sw: "OrphanSweep sqlite_state filesystem_blob c = (Inr n, c')"
  shows "find_part sid pid (db (state c')) = Some p \<and> view (blob c') q = None
     \<and> (\<forall>t. fst (Open (StorageKey sid pid) (blob c')) \<noteq> Inr (File t))"
proof -
  have "tables_inv (db (state c))" using ok(1) by (simp add: sql_ok_def)
  from part_keys_declared [OF this, of UNIV]
  have "storage_keys (declared_parts (state c)) = p_storage_key ` set (send_parts (db (state c)))"
    by (simp add: storage_keys_def)
  then have v: "view (blob c') q = None" and d: "db (state c') = db (state c)"
    using orphan_sweep_view [OF ok sw, of q] differs(2) by auto
  have "blob_ok (blob c')"
    using sw ok by (auto elim!: OrphanSweep_run simp: on_state_eq on_blob_eq intro!: fs.delete_each_inv)
       (metis List_keep)
  then have "fst (Open (StorageKey sid pid) (blob c')) \<noteq> Inr (File t)" for t
    using Open_effect [of "blob c'" "StorageKey sid pid" _ "snd (Open (StorageKey sid pid) (blob c'))"] part(2) v
    by (metis option.distinct(1) prod.collapse)
  with v d part(1) show ?thesis by simp
qed

abbreviation demo_alias :: store where
  "demo_alias \<equiv> demo_store (demo_state (demo_one None None) [demo_part ''./a'' (Some 1)] [] []) demo_blob"

lemma demo_alias_ok: "sql_ok (state demo_alias)"
proof -
  have "tables_inv (db (state demo_alias))"
    by (simp add: tables_inv_defs row_ok_def grants_of_def parts_total_def demo_eval_store)
  moreover have "s_id (demo_one None None) = demo_id" by (simp add: demo_one_def demo_row_def)
  ultimately show ?thesis using demo_sid_ok by (simp add: sql_ok_def ids_ok_def demo_store_def demo_state_def)
qed

theorem aliased_part_is_swept_witness:
  "let c' = snd (OrphanSweep sqlite_state filesystem_blob demo_alias) in
     p_uploaded_at (demo_part ''./a'' (Some 1)) \<noteq> None
     \<and> view (blob demo_alias) [demo_id, ''a''] = Some demo_bytes
     \<and> find_part demo_id ''./a'' (db (state c')) = Some (demo_part ''./a'' (Some 1))
     \<and> (\<forall>t. fst (Open (StorageKey demo_id ''./a'') (blob c')) \<noteq> Inr (File t))"
proof -
  have run: "OrphanSweep sqlite_state filesystem_blob demo_alias
      = (Inr 1, snd (OrphanSweep sqlite_state filesystem_blob demo_alias))"
    by (simp add: prod_eq_iff OrphanSweep_def on_state_def on_blob_def demo_list LiveStorageKeys_def query_def stmt_def
        demo_store_def demo_state_def orphans_def demo_part_def StorageKey_def)
  have find: "find_part demo_id ''./a'' (db (state demo_alias)) = Some (demo_part ''./a'' (Some 1))"
    by (simp add: demo_eval_store)
  have place: "loc (StorageKey demo_id ''./a'') = Some [demo_id, ''a'']"
  proof -
    have "names (StorageKey demo_id ''./a'') = [demo_id, ''a'']"
      using demo_sid_ok by (simp add: sid_names) (simp add: names_def)
    moreover have "valid_key (StorageKey demo_id ''./a'')"
      by (simp add: valid_key_def StorageKey_def demo_id_def HasPrefix_def)
    ultimately show ?thesis by (simp add: loc_def hidden_def HasPrefix_def)
  qed
  have "Join [demo_id, ''a''] ''/'' \<noteq> StorageKey demo_id ''./a''" by (simp add: StorageKey_def)
  moreover have "\<forall>p' \<in> set (send_parts (db (state demo_alias))). p_storage_key p' \<noteq> Join [demo_id, ''a''] ''/''"
    by (simp add: demo_store_def demo_state_def demo_part_def StorageKey_def)
  ultimately have "find_part demo_id ''./a'' (db (state (snd (OrphanSweep sqlite_state filesystem_blob demo_alias))))
        = Some (demo_part ''./a'' (Some 1))
      \<and> view (blob (snd (OrphanSweep sqlite_state filesystem_blob demo_alias))) [demo_id, ''a''] = None
      \<and> (\<forall>t. fst (Open (StorageKey demo_id ''./a'') (blob (snd (OrphanSweep sqlite_state filesystem_blob demo_alias))))
            \<noteq> Inr (File t))"
    using demo_coupled(2,3) by (intro aliased_part_is_swept [OF demo_alias_ok _ _ find place _ _ run]) (simp_all add: demo_store_def)
  moreover have "view (blob demo_alias) [demo_id, ''a''] = Some demo_bytes"
    by (simp add: demo_store_def view_def hidden_def HasPrefix_def fview_def demo_fs_def kpath_def lookup_def)
  ultimately show ?thesis by (simp add: Let_def) (simp add: demo_part_def)
qed

section \<open>Downloads\<close>

text \<open>A valid grant opens every part of its send, as long as no call fails.\<close>

text \<open>
  C12. In every reachable state a redeem grant that is still open lets its holder open every
  part of its send, with the declared size and SHA-256, when no call fails.
\<close>

theorem granted_parts_are_available:
  assumes reach: "fresh_coordinator s b lim c0" "store_reach c0 c"
    and quiet: "dbFaults (state c) = []" "fsFaults (blob c) = []"
    and pid: "plain pid" "\<not> HasPrefix pid ''.tmp-''" "\<not> Contains pid ''..''"
    and part: "find_part sid pid (db (state c)) = Some p"
    and grant: "g \<in> set (redeem_grants (db (state c)))" "g_send_id g = sid" "g_token_hash g = HashToken token"
      "Unix (clock e) < g_expires_at g"
  shows "\<exists>d. GetPart sqlite_state filesystem_blob e sid pid token c = (Inr (File d), c)
     \<and> int (length d) = p_encrypted_size p \<and> sha256_hex d = p_sha256 p"
proof -
  have c: "st.coupled c" using reach by (rule reach_is_coupled)
  have inv: "tables_inv (db (state c))" using c by (simp add: sql_ok_def)
  have f: "List.find (\<lambda>g. g_token_hash g = HashToken token \<and> g_send_id g = sid) (redeem_grants (db (state c))) = Some g"
  proof -
    have dist: "distinct (map g_token_hash (redeem_grants (db (state c))))"
      using inv by (simp add: tables_inv_def keys_unique_def)
    obtain g' where g': "List.find (\<lambda>g. g_token_hash g = HashToken token \<and> g_send_id g = sid) (redeem_grants (db (state c))) = Some g'"
      using grant(1-3) by (cases "List.find (\<lambda>g. g_token_hash g = HashToken token \<and> g_send_id g = sid) (redeem_grants (db (state c)))")
        (auto simp: find_None_iff)
    then have "g' \<in> set (redeem_grants (db (state c)))" "g_token_hash g' = g_token_hash g"
      using find_SomeD [OF g'] grant(3) by auto
    with dist grant(1) have "g' = g" by (auto simp: distinct_map inj_on_def)
    with g' show ?thesis by simp
  qed
  have v: "ValidateGrant (clock e) sid (HashToken token) (state c) = (Inr (), state c)"
    using grant(4) by (simp add: ValidateGrant_def query_no_fault [OF quiet(1)] f)
  have d: "DeclaredPart sid pid (state c) = (Inr (fst (part_info p), p_uploaded_at p \<noteq> None), state c)"
    using part by (auto simp: DeclaredPart_def query_no_fault [OF quiet(1)] part_info_def find_part_def dest: find_SomeD)
  have "declared_parts (state c) (sid, pid) = Some (part_info p)" using part by (simp add: declared_in_def)
  moreover have "snd (part_info p)"
    using granted_parts_uploaded [of "state c" _ _ _ _ _ pid "fst (part_info p)" "snd (part_info p)", OF _ v] c calculation by simp
  ultimately have dp: "declared_parts (state c) (sid, pid) = Some (fst (part_info p), True)" by (simp add: prod_eq_iff)
  have "sid_ok sid" using sq.declared_idok dp c by blast
  then have l: "loc (StorageKey sid pid) = Some [sid, pid]" using pid by (simp add: loc_plain)
  obtain t where t: "view (blob c) [sid, pid] = Some t" "genuine (fst (part_info p)) t"
    using c dp l unfolding blobs_genuine_def by metis
  have "Open (StorageKey sid pid) (blob c) = (Inr (File t), blob c)"
    using c quiet(2) l t(1) by (intro Open_total) auto
  then have "GetPart sqlite_state filesystem_blob e sid pid token c = (Inr (File t), c)"
    by (simp add: GetPart_def on_state_def on_blob_def v d)
  with t(2) show ?thesis by (auto simp: genuine_def part_info_def)
qed

theorem granted_parts_are_available_witness:
  "\<exists>d. GetPart sqlite_state filesystem_blob (demo_env (4 * Second) []) demo_id ''a'' demo_token demo_c4 = (Inr (File d), demo_c4)
     \<and> int (length d) = 3 \<and> sha256_hex d = demo_sha"
  using granted_parts_are_available [OF demo_fresh demo_reach(3), of "''a''" demo_id "demo_part ''a'' (Some 1)"
      "new_grant demo_token (3 * Second) (600 * Second) demo_id" demo_token "demo_env (4 * Second) []"]
  by (simp add: demo_store_def demo_state_def demo_fs_def plain_def HasPrefix_def find_part_def demo_part_def new_grant_def
      demo_env_def Unix_def Second_def)

section \<open>Expiry\<close>

text \<open>
  The sweep of dead sends removes the blobs of exactly the sends it deletes.
\<close>

lemma Remove_quiet: "fs_quiet b \<Longrightarrow> fs_quiet (snd (Remove p b))"
  by (simp add: fs_quiet_def Remove_def os_call_def Let_def split: prod.split)

lemma Delete_quiet:
  assumes "fs_quiet b"
  shows "fs_quiet (snd (Delete k b))"
proof (cases "resolve b k")
  case (Inr p)
  obtain r b1 where r: "Remove p b = (r, b1)" by force
  then have "fs_quiet b1" using Remove_quiet [OF assms, of p] by simp
  then show ?thesis
    using Inr r Remove_quiet [of b1 "Dir p"] by (auto simp: Delete_def split: sum.split errno.split)
qed (use assms in \<open>simp add: Delete_def\<close>)

text \<open>
  After the coordinator's DeleteExpired the blob of a part is gone exactly when its send is,
  and is untouched otherwise.
\<close>

theorem purge_takes_the_blobs_of_dead_sends:
  assumes reach: "fresh_coordinator s b lim c0" "store_reach c0 c" and quiet: "fsFaults (blob c) = []"
    and del: "co_DeleteExpired sqlite_state filesystem_blob now c = (Inr n, c')"
    and part: "find_part sid pid (db (state c)) = Some p" and pid: "loc (StorageKey sid pid) = Some q"
  shows "view (blob c') q = (if sid \<in> s_id ` set (sends (db (state c'))) then view (blob c) q else None)"
proof -
  have c: "st.coupled c" using reach by (rule reach_is_coupled)
  have s: "sql_ok (state c)" and can: "parts_canonical loc fs_key_of (declared_parts (state c))" using c by auto
  have inv: "tables_inv (db (state c))" using s by (simp add: sql_ok_def)
  from del obtain keys c1 where d: "on_state (st_DeleteExpired sqlite_state now) c = (Inr (n, keys), c1)"
    and c': "c' = c1\<lparr>blob := delete_each filesystem_blob keys (blob c1)\<rparr>"
    unfolding co_DeleteExpired_def by (auto elim!: on_ok_InrE)
  have de: "DeleteExpired now (state c) = (Inr (n, keys), state c1)" and b1: "blob c1 = blob c"
    using d by (auto simp: on_state_eq prod_eq_iff)
  let ?I = "set (dead_ids (grantTTL (state c)) now (db (state c)))"
  have keys: "set keys = {StorageKey i p |i p. i \<in> ?I \<and> declared_parts (state c) (i, p) \<noteq> None}"
    and t1: "db (state c1) = eff_delete ?I (db (state c))"
    using DeleteExpired_Inr [OF de] part_keys_declared [OF inv, of ?I] by auto
  have dp: "declared_parts (state c) (sid, pid) \<noteq> None" using part by (simp add: declared_in_def)
  have bad: "\<not> (\<exists>k \<in> set keys. loc k = Some q)" if "sid \<notin> ?I"
  proof
    assume "\<exists>k \<in> set keys. loc k = Some q"
    then obtain j r where j: "j \<in> ?I" "declared_parts (state c) (j, r) \<noteq> None" "loc (StorageKey j r) = Some q"
      unfolding keys by blast
    with st.same_place [OF s can dp j(2) pid] that show False by blast
  qed
  have row: "sid \<in> s_id ` set (sends (db (state c')))  \<longleftrightarrow> sid \<notin> ?I"
  proof -
    have "sid \<in> s_id ` set (sends (db (state c)))"
      using part inv by (auto simp: find_part_iff [OF inv] tables_inv_def refs_ok_def)
    then show ?thesis by (auto simp: c' t1 eff_delete_def)
  qed
  have b: "blob_ok (blob c)" using c by simp
  show ?thesis
  proof (cases "sid \<in> ?I")
    case True
    have gone: "view (delete_each filesystem_blob ks b') q = None"
      if "blob_ok b'" "fs_quiet b'" "StorageKey sid pid \<in> set ks \<or> view b' q = None" for ks b'
      using that
    proof (induction ks arbitrary: b')
      case (Cons k ks)
      have q': "fs_quiet (snd (Delete k b'))" "blob_ok (snd (Delete k b'))"
        using Delete_quiet [of b' k] fs.del_inv [OF Cons.prems(1), of k] Cons.prems(2) by simp_all
      have "view (snd (Delete k b')) q = None" if "k = StorageKey sid pid \<or> view b' q = None"
      proof (cases "k = StorageKey sid pid")
        case True
        then show ?thesis using fsq.del_quiet [OF Cons.prems(1,2), of k q] pid by simp
      next
        case False
        then show ?thesis using that fs.del_view [OF Cons.prems(1), of k] by auto
      qed
      with Cons.IH [OF q'(2,1)] Cons.prems(3) show ?case by auto
    qed simp
    have "StorageKey sid pid \<in> set keys" using True dp unfolding keys by blast
    with gone [of "blob c" keys] b quiet True row show ?thesis by (simp add: c' b1 fs_quiet_def)
  next
    case False
    with bad have "view (delete_each filesystem_blob keys (blob c)) q = view (blob c) q"
      using b by (intro fs.delete_each_view) auto
    with False row show ?thesis by (simp add: c' b1)
  qed
qed

theorem purge_takes_the_blobs_of_dead_sends_witness:
  "view (blob (snd (co_DeleteExpired sqlite_state filesystem_blob (4000 * Second) demo_c4))) [demo_id, ''a''] = None"
proof -
  let ?r = "co_DeleteExpired sqlite_state filesystem_blob (4000 * Second) demo_c4"
  have run: "fst ?r = Inr 1" "sends (db (state (snd ?r))) = []"
    by (simp_all add: co_DeleteExpired_def DeleteExpired_def storageKeysFor_def delete_sends_def dead_send_def demo_eval_store)
  then have run': "?r = (Inr 1, snd ?r)" by (simp add: prod_eq_iff)
  have "find_part demo_id ''a'' (db (state demo_c4)) = Some (demo_part ''a'' (Some 1))"
    by (simp add: demo_eval_store)
  moreover have "loc (StorageKey demo_id ''a'') = Some [demo_id, ''a'']"
    using loc_plain [OF demo_sid_ok demo_plain(1)] by (simp add: HasPrefix_def)
  moreover have "fsFaults (blob demo_c4) = []" by (simp add: demo_store_def demo_fs_def)
  ultimately show ?thesis
    using purge_takes_the_blobs_of_dead_sends [OF demo_fresh demo_reach(3) _ run'] run(2) by simp
qed

end
