(* ===== verification/Gc.thy ===== *)
theory Gc
  imports StoreProps
begin

text \<open>
  \<open>server/internal/gc/gc.go\<close>: the background sweeper. The interface \<open>Reaper\<close> of
  \<open>store.go\<close> is a record of functions over the state of its implementation; what the worker's
  report function was called with is the list \<open>reports\<close>. \<open>Run\<close> is driven by the list of
  its wake-ups: the ticks of its ticker, each with the time the clock then shows, and the
  cancellation of its context.
\<close>

section \<open>The worker\<close>

record 'r reaper_ops =
  rp_DeleteExpired :: "int \<Rightarrow> 'r \<Rightarrow> nat result \<times> 'r"
  rp_OrphanSweep :: "'r \<Rightarrow> nat result \<times> 'r"

record 'r worker =
  reaped :: 'r
  interval :: int
  reporting :: bool
  reports :: "(nat \<times> nat \<times> store_error option) list"

definition New_worker :: "'r \<Rightarrow> int \<Rightarrow> bool \<Rightarrow> 'r worker" where
  "New_worker r i rep = \<lparr>reaped = r, interval = i, reporting = rep, reports = []\<rparr>"

definition notify :: "nat \<Rightarrow> nat \<Rightarrow> store_error option \<Rightarrow> 'r worker \<Rightarrow> 'r worker" where
  "notify n m e w =
     (if reporting w \<and> (n > 0 \<or> m > 0 \<or> e \<noteq> None) then w\<lparr>reports := reports w @ [(n, m, e)]\<rparr> else w)"

definition Sweep :: "'r reaper_ops \<Rightarrow> int \<Rightarrow> 'r worker \<Rightarrow> 'r worker" where
  "Sweep R now w =
     (case rp_DeleteExpired R now (reaped w) of
        (Inl e, r) \<Rightarrow> notify 0 0 (Some e) (w\<lparr>reaped := r\<rparr>)
      | (Inr n, r) \<Rightarrow>
          (case rp_OrphanSweep R r of
             (Inl e, r) \<Rightarrow> notify n 0 (Some e) (w\<lparr>reaped := r\<rparr>)
           | (Inr m, r) \<Rightarrow> notify n m None (w\<lparr>reaped := r\<rparr>)))"

datatype wake = Cancelled | Ticked int

fun gc_loop :: "'r reaper_ops \<Rightarrow> wake list \<Rightarrow> 'r worker \<Rightarrow> 'r worker" where
  "gc_loop R [] w = w"
| "gc_loop R (Cancelled # es) w = w"
| "gc_loop R (Ticked now # es) w = gc_loop R es (Sweep R now w)"

text \<open>\<open>time.NewTicker\<close> panics on an interval that is not positive: \<open>None\<close>.\<close>

definition Run_worker :: "'r reaper_ops \<Rightarrow> int \<Rightarrow> wake list \<Rightarrow> 'r worker \<Rightarrow> 'r worker option" where
  "Run_worker R now es w = (if interval w \<le> 0 then None else Some (gc_loop R es (Sweep R now w)))"

lemma reaped_notify [simp]: "reaped (notify n m e w) = reaped w" "reporting (notify n m e w) = reporting w"
  "interval (notify n m e w) = interval w"
  by (simp_all add: notify_def)

text \<open>The store underneath after a pass.\<close>

lemma reaped_Sweep:
  "reaped (Sweep R now w) =
     (let d = rp_DeleteExpired R now (reaped w) in if isl (fst d) then snd d else snd (rp_OrphanSweep R (snd d)))"
  by (auto simp: Sweep_def Let_def split: prod.split sum.split)

lemma reporting_Sweep [simp]: "reporting (Sweep R now w) = reporting w"
  by (simp add: Sweep_def split: prod.split sum.split)

section \<open>Reapers\<close>

text \<open>
  What the worker relies on: a pass keeps the invariant of the store, and keeps the content of
  every item that is still alive at the time of the pass.
\<close>

locale reaper =
  fixes R :: "'r reaper_ops"
    and rinv :: "'r \<Rightarrow> bool"
    and alive :: "int \<Rightarrow> 'k \<Rightarrow> 'r \<Rightarrow> bool"
    and content :: "'k \<Rightarrow> 'r \<Rightarrow> 'c"
  assumes del_inv: "rinv r \<Longrightarrow> rinv (snd (rp_DeleteExpired R now r))"
    and sweep_inv: "rinv r \<Longrightarrow> rinv (snd (rp_OrphanSweep R r))"
    and del_keeps: "rinv r \<Longrightarrow> alive t k r \<Longrightarrow> now \<le> t \<Longrightarrow>
        content k (snd (rp_DeleteExpired R now r)) = content k r \<and> alive t k (snd (rp_DeleteExpired R now r))"
    and sweep_keeps: "rinv r \<Longrightarrow> alive t k r \<Longrightarrow>
        content k (snd (rp_OrphanSweep R r)) = content k r \<and> alive t k (snd (rp_OrphanSweep R r))"
begin

lemma Sweep_inv: "rinv (reaped w) \<Longrightarrow> rinv (reaped (Sweep R now w))"
  by (simp add: reaped_Sweep Let_def del_inv sweep_inv)

lemma Sweep_keeps:
  assumes "rinv (reaped w)" "alive t k (reaped w)" "now \<le> t"
  shows "content k (reaped (Sweep R now w)) = content k (reaped w) \<and> alive t k (reaped (Sweep R now w))"
  using del_keeps [OF assms] sweep_keeps [OF del_inv [OF assms(1)], of t k now] by (simp add: reaped_Sweep Let_def)

lemma gc_loop_keeps:
  assumes "rinv (reaped w)" "alive t k (reaped w)" "\<forall>s. Ticked s \<in> set es \<longrightarrow> s \<le> t"
  shows "rinv (reaped (gc_loop R es w)) \<and> content k (reaped (gc_loop R es w)) = content k (reaped w)
     \<and> alive t k (reaped (gc_loop R es w))"
  using assms
proof (induction es arbitrary: w)
  case (Cons e es)
  show ?case
  proof (cases e)
    case (Ticked now)
    with Cons show ?thesis using Sweep_inv [of w now] Sweep_keeps [of w t k now] by simp
  qed (use Cons in simp)
qed simp

lemma Run_keeps:
  assumes "rinv (reaped w)" "alive t k (reaped w)" "now \<le> t" "\<forall>s. Ticked s \<in> set es \<longrightarrow> s \<le> t"
    and "Run_worker R now es w = Some w'"
  shows "rinv (reaped w') \<and> content k (reaped w') = content k (reaped w) \<and> alive t k (reaped w')"
  using assms gc_loop_keeps [OF Sweep_inv [OF assms(1), of now], of t k es] Sweep_keeps [OF assms(1-3)]
  by (auto simp: Run_worker_def split: if_splits)

end

section \<open>The coordinator as a reaper\<close>

definition coordinator_reaper :: "'s state_ops \<Rightarrow> 'b blob_ops \<Rightarrow> ('s, 'b) coordinator reaper_ops" where
  "coordinator_reaper S B = \<lparr>rp_DeleteExpired = co_DeleteExpired S B, rp_OrphanSweep = OrphanSweep S B\<rparr>"

abbreviation store_reaper :: "store reaper_ops" where
  "store_reaper \<equiv> coordinator_reaper sqlite_state filesystem_blob"

lemma coordinator_reaper_simps [simp]:
  "rp_DeleteExpired (coordinator_reaper S B) = co_DeleteExpired S B"
  "rp_OrphanSweep (coordinator_reaper S B) = OrphanSweep S B"
  by (simp_all add: coordinator_reaper_def)

text \<open>A part that is still alive at a time, and what the store holds for it.\<close>

definition part_alive :: "int \<Rightarrow> string \<times> string \<Rightarrow> store \<Rightarrow> bool" where
  "part_alive t k c \<longleftrightarrow> declared_parts (state c) k \<noteq> None
     \<and> (\<forall>r \<in> set (sends (db (state c))). s_id r = fst k \<longrightarrow> \<not> dead_send (grantTTL (state c)) t r)"

definition part_content :: "string \<times> string \<Rightarrow> store \<Rightarrow> (PartMeta \<times> bool) option \<times> string option" where
  "part_content k c = (declared_parts (state c) k,
     case loc (StorageKey (fst k) (snd k)) of None \<Rightarrow> None | Some q \<Rightarrow> view (blob c) q)"

lemma co_DeleteExpired_keeps:
  assumes c: "st.coupled c" and al: "part_alive t k c" and le: "now \<le> t"
  shows "part_content k (snd (co_DeleteExpired sqlite_state filesystem_blob now c)) = part_content k c
     \<and> part_alive t k (snd (co_DeleteExpired sqlite_state filesystem_blob now c))"
proof -
  obtain x c1 where d: "on_state (DeleteExpired now) c = (x, c1)" by force
  have b1: "blob c1 = blob c" and de: "DeleteExpired now (state c) = (x, state c1)"
    using d by (auto simp: on_state_eq prod_eq_iff)
  have s: "sql_ok (state c)" and can: "parts_canonical loc fs_key_of (declared_parts (state c))" using c by auto
  have inv: "tables_inv (db (state c))" using s by (simp add: sql_ok_def)
  obtain i p where k: "k = (i, p)" by (cases k)
  have dp: "declared_parts (state c) (i, p) \<noteq> None"
    and rows: "\<forall>r \<in> set (sends (db (state c))). s_id r = i \<longrightarrow> \<not> dead_send (grantTTL (state c)) t r"
    using al by (auto simp: part_alive_def k)
  show ?thesis
  proof (cases x)
    case (Inl e)
    from DeleteExpired_Inl [OF de [unfolded Inl]] have "db (state c1) = db (state c)" "same_cfg (state c) (state c1)"
      by auto
    then show ?thesis
      using al by (simp add: co_DeleteExpired_def d Inl part_content_def part_alive_def b1 same_cfg_def split: option.split)
  next
    case (Inr y)
    then obtain n keys where y: "x = Inr (n, keys)" by (cases y) auto
    let ?I = "set (dead_ids (grantTTL (state c)) now (db (state c)))"
    from DeleteExpired_Inr [OF de [unfolded y]] part_keys_declared [OF inv, of ?I]
    have keys: "set keys = {StorageKey i p |i p. i \<in> ?I \<and> declared_parts (state c) (i, p) \<noteq> None}"
      and t1: "db (state c1) = eff_delete ?I (db (state c))" and cfg: "same_cfg (state c) (state c1)" by auto
    have i: "i \<notin> ?I" using rows dead_send_mono [OF _ le] by (auto simp: dead_ids_def)
    have d1: "declared_parts (state c1) = drop_sends ?I (declared_parts (state c))"
      by (simp add: t1 declared_delete)
    then have "declared_parts (state c1) (i, p) = declared_parts (state c) (i, p)"
      using i by (simp add: drop_sends_def)
    moreover have "view (delete_each filesystem_blob keys (blob c)) q = view (blob c) q"
      if q: "loc (StorageKey i p) = Some q" for q
    proof -
      have "\<not> (\<exists>k \<in> set keys. loc k = Some q)"
        using st.same_place [OF s can dp _ q] i unfolding keys by blast
      then show ?thesis using c by (intro fs.delete_each_view) auto
    qed
    moreover have "set (sends (db (state c1))) \<subseteq> set (sends (db (state c)))"
      by (auto simp: t1 eff_delete_def)
    ultimately show ?thesis
      using dp rows cfg by (auto simp: co_DeleteExpired_def d y k part_content_def part_alive_def b1 same_cfg_def
          split: option.split)
  qed
qed

lemma OrphanSweep_keeps:
  assumes c: "st.coupled c" and al: "part_alive t k c"
  shows "part_content k (snd (OrphanSweep sqlite_state filesystem_blob c)) = part_content k c
     \<and> part_alive t k (snd (OrphanSweep sqlite_state filesystem_blob c))"
proof -
  obtain x c' where o': "OrphanSweep sqlite_state filesystem_blob c = (x, c')" by force
  obtain i p where k: "k = (i, p)" by (cases k)
  have dp: "declared_parts (state c) (i, p) \<noteq> None" using al by (simp add: part_alive_def k)
  have st: "db (state c') = db (state c) \<and> grantTTL (state c') = grantTTL (state c)"
    and bl: "isl x \<Longrightarrow> view (blob c') = view (blob c)"
    using o' fs.list_keep [of "blob c"] c
    by (auto simp: OrphanSweep_def on_ok_def on_state_def on_blob_def LiveStorageKeys_def query_def stmt_def Let_def
        split: prod.splits sum.splits if_splits)
  have "view (blob c') q = view (blob c) q" if "loc (StorageKey i p) = Some q" for q
    using bl st.OrphanSweep_safe [OF c _ dp that] o' by (cases x) auto
  with st al show ?thesis by (auto simp: o' k part_content_def part_alive_def split: option.split)
qed

interpretation rp: reaper store_reaper st.coupled part_alive part_content
proof
  fix r :: store and now
  assume "st.coupled r"
  then show "st.coupled (snd (rp_DeleteExpired store_reaper now r))"
    using st.trans_coupled [OF co_trans.delete] by simp
next
  fix r :: store
  assume "st.coupled r"
  then show "st.coupled (snd (rp_OrphanSweep store_reaper r))"
    using st.trans_coupled [OF co_trans.sweep] by simp
qed (use co_DeleteExpired_keeps OrphanSweep_keeps in auto)

end
