(* ===== verification/GcProps.thy ===== *)
theory GcProps
  imports Gc
begin

text \<open>
  The properties of the sweeper over the store the server runs on: what a run keeps, what one
  pass reclaims, and when it reclaims nothing.
\<close>

section \<open>What a run keeps\<close>

text \<open>
  C14. A run of the sweeper over any reachable pair of stores leaves the row and the blob of
  every part untouched whose send does not die before the run's last tick, whatever calls
  fail.
\<close>

theorem gc_run_keeps_live_parts:
  assumes "fresh_coordinator s b n c0" "store_reach c0 (reaped w)"
    and "part_alive t (sid, pid) (reaped w)" "now \<le> t" "\<forall>u. Ticked u \<in> set es \<longrightarrow> u \<le> t"
    and "Run_worker store_reaper now es w = Some w'"
  shows "part_content (sid, pid) (reaped w') = part_content (sid, pid) (reaped w)
     \<and> part_alive t (sid, pid) (reaped w')"
  using rp.Run_keeps [OF reach_is_coupled [OF assms(1,2)] assms(3-6)] by blast

theorem gc_run_keeps_live_parts_witness:
  "let w = New_worker demo_c4 Minute True; w' = the (Run_worker store_reaper (60 * Second) [Ticked (120 * Second), Cancelled] w)
   in part_content (demo_id, ''a'') (reaped w') = (Some (demo_meta ''a'', True), Some demo_bytes)"
proof -
  let ?w = "New_worker demo_c4 Minute True"
  have al: "part_alive (200 * Second) (demo_id, ''a'') (reaped ?w)"
    by (simp add: part_alive_def New_worker_def declared_in_def dead_send_def demo_eval_store)
  have "loc (StorageKey demo_id ''a'') = Some [demo_id, ''a'']"
    using loc_plain [OF demo_sid_ok demo_plain(1)] by (simp add: HasPrefix_def)
  then have c: "part_content (demo_id, ''a'') (reaped ?w) = (Some (demo_meta ''a'', True), Some demo_bytes)"
    by (simp add: part_content_def New_worker_def declared_in_def part_info_def demo_meta_def demo_eval_store
        view_def hidden_def HasPrefix_def fview_def demo_fs_def kpath_def lookup_def)
  have le: "60 * Second \<le> 200 * Second" "\<forall>u. Ticked u \<in> set [Ticked (120 * Second), Cancelled] \<longrightarrow> u \<le> 200 * Second"
    by (simp_all add: Second_def)
  have "Run_worker store_reaper (60 * Second) [Ticked (120 * Second), Cancelled] ?w
      = Some (the (Run_worker store_reaper (60 * Second) [Ticked (120 * Second), Cancelled] ?w))"
    by (simp add: Run_worker_def New_worker_def Minute_def Second_def)
  from gc_run_keeps_live_parts [OF demo_fresh _ al le this] demo_reach(3) c
  show ?thesis by (simp add: New_worker_def Let_def)
qed

section \<open>What a pass reclaims\<close>

lemma delete_each_quiet: "fs_quiet b \<Longrightarrow> fs_quiet (delete_each filesystem_blob ks b)"
  by (induction ks arbitrary: b) (simp_all add: Delete_quiet)

lemma sends_eff_delete_dead:
  assumes "tables_inv d"
  shows "sends (eff_delete (set (dead_ids ttl now d)) d) = filter (\<lambda>r. \<not> dead_send ttl now r) (sends d)"
proof -
  have "s_id r \<in> set (dead_ids ttl now d) \<longleftrightarrow> dead_send ttl now r" if "r \<in> set (sends d)" for r
    using that unique_row [OF assms that] by (auto simp: dead_ids_def)
  then show ?thesis by (auto simp: eff_delete_def intro: filter_cong)
qed

lemma alive_after_delete:
  assumes "tables_inv d" "p \<in> set (send_parts (eff_delete (set (dead_ids ttl now d)) d))"
  shows "p \<in> set (send_parts d)" "\<forall>r \<in> set (sends d). s_id r = p_send_id p \<longrightarrow> \<not> dead_send ttl now r"
  using assms by (auto simp: eff_delete_def dead_ids_def image_iff)

lemma co_DeleteExpired_InrE:
  assumes "co_DeleteExpired sqlite_state filesystem_blob now c = (Inr n, c')"
  obtains keys where "DeleteExpired now (state c) = (Inr (n, keys), state c')"
    "blob c' = delete_each filesystem_blob keys (blob c)"
proof -
  from assms obtain keys c1 where d: "on_state (st_DeleteExpired sqlite_state now) c = (Inr (n, keys), c1)"
    and c': "c' = c1\<lparr>blob := delete_each filesystem_blob keys (blob c1)\<rparr>"
    unfolding co_DeleteExpired_def by (auto elim!: on_ok_InrE)
  from d have "DeleteExpired now (state c) = (Inr (n, keys), state c1)" "blob c1 = blob c"
    by (auto simp: on_state_eq prod_eq_iff)
  with that c' show thesis by simp
qed

text \<open>
  C13. A pass of the sweeper that reports no error and meets no failing file system call
  leaves exactly the sends that are not dead, and exactly the blobs that are named by a
  remaining part.
\<close>

theorem gc_pass_reclaims_everything_dead:
  fixes w :: "store worker" and now :: int
  defines "c \<equiv> reaped w" and "c' \<equiv> reaped (Sweep store_reaper now w)"
  assumes reach: "fresh_coordinator s b lim c0" "store_reach c0 c" and quiet: "fsFaults (blob c) = []"
    and clean: "reporting w" "\<And>n m e. (n, m, Some e) \<notin> set (reports (Sweep store_reaper now w))"
  shows "sends (db (state c')) = filter (\<lambda>r. \<not> dead_send (grantTTL (state c)) now r) (sends (db (state c)))
     \<and> (\<forall>q. view (blob c') q =
          (if \<exists>p \<in> set (send_parts (db (state c'))). p_storage_key p = Join q ''/'' then view (blob c) q else None))"
proof -
  have co: "st.coupled c" using reach by (rule reach_is_coupled)
  have inv: "tables_inv (db (state c))" using co by (simp add: sql_ok_def)
  let ?I = "set (dead_ids (grantTTL (state c)) now (db (state c)))"
  obtain n c1 where del: "co_DeleteExpired sqlite_state filesystem_blob now c = (Inr n, c1)"
    using clean by (cases "co_DeleteExpired sqlite_state filesystem_blob now c"; cases "fst (co_DeleteExpired sqlite_state filesystem_blob now c)")
      (auto simp: Sweep_def notify_def c_def)
  obtain m c2 where sw: "OrphanSweep sqlite_state filesystem_blob c1 = (Inr m, c2)"
    using clean del by (cases "OrphanSweep sqlite_state filesystem_blob c1"; cases "fst (OrphanSweep sqlite_state filesystem_blob c1)")
      (auto simp: Sweep_def notify_def c_def)
  have c2: "c' = c2" using del sw by (simp add: c'_def c_def Sweep_def)
  from del obtain keys where de: "DeleteExpired now (state c) = (Inr (n, keys), state c1)"
    and b1: "blob c1 = delete_each filesystem_blob keys (blob c)"
    by (rule co_DeleteExpired_InrE)
  from DeleteExpired_Inr [OF de] have d1: "db (state c1) = eff_delete ?I (db (state c))" by blast
  have co1: "st.coupled c1" using st.trans_coupled [OF co_trans.delete co, of now] del by simp
  have q1: "fs_quiet (blob c1)" using quiet delete_each_quiet [of "blob c" keys] by (simp add: b1 fs_quiet_def)
  have ok1: "sql_ok (state c1)" "blob_ok (blob c1)" using co1 by auto
  have keys1: "storage_keys (declared_parts (state c1)) = p_storage_key ` set (send_parts (db (state c1)))"
    using part_keys_declared [of "db (state c1)" UNIV] ok1(1) by (simp add: storage_keys_def sql_ok_def)
  have d2: "db (state c2) = db (state c1)" using orphan_sweep_view [OF ok1 q1 sw] by blast
  have v2: "view (blob c2) q = (if fs_key_of q \<in> storage_keys (declared_parts (state c1)) then view (blob c1) q else None)" for q
    using orphan_sweep_view [OF ok1 q1 sw, of q] by blast
  have keep: "view (blob c1) q = view (blob c) q"
    if p: "p \<in> set (send_parts (db (state c1)))" "p_storage_key p = Join q ''/''" for p q
  proof (cases "view (blob c) q")
    case None
    then show ?thesis using fs.delete_each_subset [of "blob c" keys q] co by (cases "view (blob c1) q") (auto simp: b1)
  next
    case (Some t)
    have p0: "p \<in> set (send_parts (db (state c)))" using alive_after_delete(1) [OF inv] p(1) d1 by simp
    have key: "Join q ''/'' = StorageKey (p_send_id p) (p_part_id p)"
      using inv p0 p(2) by (auto simp: tables_inv_defs)
    have "declared_parts (state c) (p_send_id p, p_part_id p) = Some (part_info p)"
      using p0 by (auto simp only: declared_iff [OF inv])
    then have "part_alive now (p_send_id p, p_part_id p) c"
      using alive_after_delete(2) [OF inv] p(1) d1 by (auto simp: part_alive_def)
    from co_DeleteExpired_keeps [OF co this order_refl] del
    have "part_content (p_send_id p, p_part_id p) c1 = part_content (p_send_id p, p_part_id p) c" by simp
    moreover have "loc (StorageKey (p_send_id p) (p_part_id p)) = Some q"
      using loc_Join [of "blob c" q] co Some key by simp
    ultimately show ?thesis by (simp add: part_content_def)
  qed
  have "view (blob c2) q = (if \<exists>p \<in> set (send_parts (db (state c1))). p_storage_key p = Join q ''/'' then view (blob c) q else None)" for q
    using v2 [of q] keep [of _ q] unfolding keys1 by (auto simp: image_iff)
  moreover have "sends (db (state c1)) = filter (\<lambda>r. \<not> dead_send (grantTTL (state c)) now r) (sends (db (state c)))"
    using sends_eff_delete_dead [OF inv] by (simp add: d1)
  ultimately show ?thesis by (simp add: c2 d2)
qed

lemma demo_Delete: "Delete (StorageKey demo_id ''a'') demo_blob = (Inr (), demo_fs [])"
  apply (simp add: Delete_def resolve_def StorageKey_def demo_id_def demo_fs_def HasPrefix_def FJoin_def Clean_def Dir_def Let_def)
  apply (simp add: Remove_def os_call_def kpath_def sys_remove_def lookup_def has_child_def Dir_def Clean_def)
  done

lemma demo_gc_pass:
  "Sweep store_reaper (4000 * Second) (New_worker demo_c4 Minute True) =
     (New_worker (demo_store (fresh_store (600 * Second)) (demo_fs [])) Minute True)\<lparr>reports := [(1, 0, None)]\<rparr>"
proof -
  have "co_DeleteExpired sqlite_state filesystem_blob (4000 * Second) demo_c4
      = (Inr 1, demo_store (fresh_store (600 * Second)) (demo_fs []))"
    by (simp add: co_DeleteExpired_def DeleteExpired_def storageKeysFor_def delete_sends_def dead_send_def demo_Delete
        new_grant_def demo_eval_store)
  moreover have "OrphanSweep sqlite_state filesystem_blob (demo_store (fresh_store (600 * Second)) (demo_fs []))
      = (Inr 0, demo_store (fresh_store (600 * Second)) (demo_fs []))"
    by (simp add: OrphanSweep_def LiveStorageKeys_def List_blobs_def wrap_err_def os_call_def sys_walk_def walk_def
        lookup_def kpath_def orphans_def demo_fs_def demo_eval_store)
  ultimately show ?thesis by (simp add: Sweep_def New_worker_def notify_def)
qed

theorem gc_pass_reclaims_everything_dead_witness:
  "let c = reaped (Sweep store_reaper (4000 * Second) (New_worker demo_c4 Minute True))
   in sends (db (state c)) = [] \<and> (\<forall>q. view (blob c) q = None)"
proof -
  let ?w = "New_worker demo_c4 Minute True"
  have w: "reaped ?w = demo_c4" "reporting ?w" by (simp_all add: New_worker_def)
  have clean: "(n, m, Some e) \<notin> set (reports (Sweep store_reaper (4000 * Second) ?w))" for n m e
    by (simp add: demo_gc_pass)
  have nf: "fsFaults (blob demo_c4) = []" by (simp add: demo_store_def demo_fs_def)
  note main = gc_pass_reclaims_everything_dead [OF demo_fresh _ _ w(2) clean, unfolded w(1), OF demo_reach(3) nf]
  show ?thesis
    using main unfolding demo_gc_pass Let_def by (simp add: New_worker_def demo_store_def fresh_store_def empty_tables_def)
qed

section \<open>When nothing is reclaimed\<close>

lemma stuck_Sweep:
  assumes "length (dead_ids (grantTTL (state (reaped w))) now (db (state (reaped w)))) > maxVars (state (reaped w))"
    and "now \<le> t"
  shows "db (state (reaped (Sweep store_reaper t w))) = db (state (reaped w))
     \<and> same_cfg (state (reaped w)) (state (reaped (Sweep store_reaper t w)))
     \<and> blob (reaped (Sweep store_reaper t w)) = blob (reaped w)
     \<and> (reporting w \<longrightarrow> (\<exists>e. reports (Sweep store_reaper t w) = reports w @ [(0, 0, Some e)]))"
proof -
  from DeleteExpired_stuck [OF assms] obtain e s' where
    "DeleteExpired t (state (reaped w)) = (Inl e, s')" "db s' = db (state (reaped w))" "same_cfg (state (reaped w)) s'" .
  then show ?thesis by (simp add: Sweep_def co_DeleteExpired_def on_state_def notify_def)
qed



section \<open>A sweep and an upload at the same time\<close>

text \<open>
  \<open>OrphanSweep\<close> reads the live keys before it lists the blobs. A send that is created and
  uploaded between the two is not in the first list and is in the second.
\<close>

text \<open>
  When a send is created and uploaded after OrphanSweep has read the live keys and before it
  lists the blobs, the sweep deletes the blob although the part is live and marked uploaded.
\<close>

theorem orphan_sweep_deletes_a_fresh_upload:
  "\<exists>live stored c.
     on_state (st_LiveStorageKeys sqlite_state) demo_c0 = (Inr live, demo_c0)
     \<and> store_trans demo_c0 demo_c1 \<and> store_trans demo_c1 demo_c2
     \<and> on_blob (bl_List filesystem_blob) demo_c2 = (Inr stored, demo_c2)
     \<and> c = demo_c2\<lparr>blob := delete_each filesystem_blob (orphans live stored) (blob demo_c2)\<rparr>
     \<and> find_part demo_id ''a'' (db (state c)) = Some (demo_part ''a'' (Some 1))
     \<and> view (blob demo_c2) [demo_id, ''a''] = Some demo_bytes \<and> view (blob c) [demo_id, ''a''] = None"
proof (intro exI conjI)
  show "on_state (st_LiveStorageKeys sqlite_state) demo_c0 = (Inr [], demo_c0)"
    by (simp add: LiveStorageKeys_def demo_eval_store)
  show "store_trans demo_c0 demo_c1"
    using co_trans.create [of demo_one_input plain sqlite_state filesystem_blob demo_c0 "demo_env 0 ''0123456789''"] demo_plain
    unfolding demo_step1 by (simp add: demo_one_input_def demo_meta_def)
  have "temp_suffix (tmp_suffix (demo_env Second []))" by (simp add: demo_env_def temp_suffix_def)
  from co_trans.put [OF this, of sqlite_state filesystem_blob plain demo_c1 demo_id "''a''" demo_upload "demo_meta ''a''"]
  show "store_trans demo_c1 demo_c2" unfolding demo_step2 by simp
  show "on_blob (bl_List filesystem_blob) demo_c2 = (Inr [StorageKey demo_id ''a''], demo_c2)"
    using demo_list by (simp add: on_blob_def demo_store_def StorageKey_def)
  have c: "demo_c2\<lparr>blob := delete_each filesystem_blob (orphans [] [StorageKey demo_id ''a'']) (blob demo_c2)\<rparr>
      = demo_store (state demo_c2) (demo_fs [])"
    using demo_Delete by (simp add: orphans_def demo_store_def)
  then show "demo_store (state demo_c2) (demo_fs []) = demo_c2\<lparr>blob := delete_each filesystem_blob
      (orphans [] [StorageKey demo_id ''a'']) (blob demo_c2)\<rparr>" by simp
  show "find_part demo_id ''a'' (db (state (demo_store (state demo_c2) (demo_fs [])))) = Some (demo_part ''a'' (Some 1))"
    by (simp add: demo_eval_store)
  show "view (blob demo_c2) [demo_id, ''a''] = Some demo_bytes"
    "view (blob (demo_store (state demo_c2) (demo_fs []))) [demo_id, ''a''] = None"
    by (simp_all add: demo_store_def view_def hidden_def HasPrefix_def fview_def demo_fs_def kpath_def lookup_def)
qed
end
