(* ===== verification/Ratelimit.thy ===== *)
theory Ratelimit
  imports Float64 StoreTypes "HOL-Library.AList"
begin

text \<open>
  \<open>server/internal/ratelimit/ratelimit.go\<close>: the token-bucket limiter. The map of buckets is
  an association list with distinct keys, token counts are \<open>float64\<close> values with the rounding
  of every operation, times are nanoseconds. The mutex of the limiter is held for the whole of
  \<open>Allow\<close>, so a call is one atomic step.
\<close>

section \<open>The limiter\<close>

definition maxKeys :: nat where
  "maxKeys = 100000"

record bucket =
  tokens :: rat
  lastAt :: int

record limiter =
  buckets :: "(string \<times> bucket) list"
  rate :: rat
  burst :: rat

text \<open>\<open>Duration.Seconds\<close> and the saturating \<open>Time.Sub\<close>.\<close>

definition Seconds :: "int \<Rightarrow> rat" where
  "Seconds d = fl64 (fl64 (of_int (d sdiv Second)) + fl64 (fl64 (of_int (d smod Second)) / 1000000000))"

definition Sub :: "int \<Rightarrow> int \<Rightarrow> int" where
  "Sub t u = max (- (2 ^ 63)) (min (2 ^ 63 - 1) (t - u))"

definition New_limiter :: "int \<Rightarrow> int \<Rightarrow> limiter" where
  "New_limiter perWindow window =
     \<lparr>buckets = [],
      rate = (if perWindow > 0 \<and> window > 0 then fl64 (fl64 (of_int perWindow) / Seconds window) else 0),
      burst = fl64 (of_int perWindow)\<rparr>"

definition idle_time :: "limiter \<Rightarrow> int" where
  "idle_time l = \<lfloor>fl64 (fl64 (burst l / rate l) * 1000000000)\<rfloor>"

definition evict :: "int \<Rightarrow> limiter \<Rightarrow> limiter" where
  "evict now l = l\<lparr>buckets := filter (\<lambda>(k, b). \<not> Sub now (lastAt b) \<ge> idle_time l) (buckets l)\<rparr>"

definition refill :: "int \<Rightarrow> bucket \<Rightarrow> limiter \<Rightarrow> rat" where
  "refill now b l = min (burst l) (fl64 (tokens b + fl64 (Seconds (Sub now (lastAt b)) * rate l)))"

definition Allow :: "string \<Rightarrow> int \<Rightarrow> limiter \<Rightarrow> bool \<times> limiter" where
  "Allow key now l =
     (if rate l \<le> 0 then (True, l)
      else
        (case map_of (buckets l) key of
           None \<Rightarrow>
             (let l' = (if length (buckets l) \<ge> maxKeys then evict now l else l)
              in (True, l'\<lparr>buckets := AList.update key \<lparr>tokens = fl64 (burst l - 1), lastAt = now\<rparr> (buckets l')\<rparr>))
         | Some b \<Rightarrow>
             (let t = refill now b l
              in if t < 1 then (False, l\<lparr>buckets := AList.update key \<lparr>tokens = t, lastAt = now\<rparr> (buckets l)\<rparr>)
                 else (True, l\<lparr>buckets := AList.update key \<lparr>tokens = fl64 (t - 1), lastAt = now\<rparr> (buckets l)\<rparr>))))"

lemma Seconds_pos:
  "0 \<le> d \<Longrightarrow> Seconds d = fl64 (fl64 (of_int (d div Second)) + fl64 (fl64 (of_int (d mod Second)) / 1000000000))"
  by (cases "d = 0") (simp_all add: Seconds_def signed_divide_int_def signed_modulo_int_def Second_def)

lemma Seconds_nonneg: "0 \<le> d \<Longrightarrow> 0 \<le> Seconds d"
  unfolding Seconds_pos
  by (intro fl64_nonneg add_nonneg_nonneg divide_nonneg_nonneg) (simp_all add: Second_def pos_imp_zdiv_nonneg_iff)

lemma Sub_nonneg: "u \<le> t \<Longrightarrow> 0 \<le> Sub t u" and Sub_le: "u \<le> t \<Longrightarrow> Sub t u \<le> t - u"
  by (simp_all add: Sub_def)

section \<open>The invariant of the buckets\<close>

definition bucket_ok :: "rat \<Rightarrow> int \<Rightarrow> bucket \<Rightarrow> bool" where
  "bucket_ok m now b \<longleftrightarrow> 0 \<le> tokens b \<and> tokens b \<le> m \<and> lastAt b \<le> now"

definition limiter_ok :: "int \<Rightarrow> limiter \<Rightarrow> bool" where
  "limiter_ok now l \<longleftrightarrow> 0 < rate l \<and> 1 \<le> burst l \<and> fl64 (burst l) = burst l \<and> distinct (map fst (buckets l))
     \<and> (\<forall>(k, b) \<in> set (buckets l). bucket_ok (burst l) now b)"

lemma set_AList_update: "distinct (map fst xs) \<Longrightarrow> set (AList.update k v xs) = insert (k, v) {x \<in> set xs. fst x \<noteq> k}"
  by (induction xs) (auto simp: image_iff)

lemma limiter_ok_mono: "limiter_ok t l \<Longrightarrow> t \<le> now \<Longrightarrow> limiter_ok now l"
  by (fastforce simp: limiter_ok_def bucket_ok_def)

lemma limiter_ok_lookup: "limiter_ok t l \<Longrightarrow> map_of (buckets l) k = Some b \<Longrightarrow> bucket_ok (burst l) t b"
  using map_of_SomeD [of "buckets l" k b] by (fastforce simp: limiter_ok_def)

lemma limiter_ok_update:
  assumes "limiter_ok t l" "bucket_ok (burst l) t b"
  shows "limiter_ok t (l\<lparr>buckets := AList.update k b (buckets l)\<rparr>)"
  using assms by (auto simp: limiter_ok_def set_AList_update distinct_update)

lemma evict_simps [simp]: "rate (evict now l) = rate l" "burst (evict now l) = burst l"
  by (simp_all add: evict_def)

lemma limiter_ok_evict: "limiter_ok t l \<Longrightarrow> limiter_ok t (evict now l)"
  by (auto simp: limiter_ok_def evict_def intro: distinct_map_filterI)

lemma fl64_below: "0 \<le> x \<Longrightarrow> x \<le> m \<Longrightarrow> fl64 m = m \<Longrightarrow> fl64 x \<le> m"
  using fl64_mono [of x m] by simp

lemma Allow_ok:
  assumes ok: "limiter_ok t l" and le: "t \<le> now"
  shows "limiter_ok now (snd (Allow k now l)) \<and> rate (snd (Allow k now l)) = rate l \<and> burst (snd (Allow k now l)) = burst l"
proof -
  have ok': "limiter_ok now l" using ok le by (rule limiter_ok_mono)
  then have b: "1 \<le> burst l" "fl64 (burst l) = burst l" "\<not> rate l \<le> 0" by (auto simp: limiter_ok_def)
  have tok: "bucket_ok (burst l) now \<lparr>tokens = fl64 (x - 1), lastAt = now\<rparr>" if "1 \<le> x" "x \<le> burst l" for x
    using that b fl64_below [of "x - 1" "burst l"] by (simp add: bucket_ok_def fl64_nonneg)
  show ?thesis
  proof (cases "map_of (buckets l) k")
    case None
    then show ?thesis
      using b tok [of "burst l"] limiter_ok_update [OF ok'] limiter_ok_update [OF limiter_ok_evict [OF ok', of now]]
      by (auto simp: Allow_def Let_def)
  next
    case (Some c)
    from limiter_ok_lookup [OF ok Some] have c: "0 \<le> tokens c" "lastAt c \<le> now"
      using le by (auto simp: bucket_ok_def)
    have "0 \<le> Seconds (Sub now (lastAt c))"
      using c(2) by (intro Seconds_nonneg Sub_nonneg)
    then have "0 \<le> refill now c l" "refill now c l \<le> burst l"
      using b c by (auto simp: refill_def intro!: fl64_nonneg add_nonneg_nonneg mult_nonneg_nonneg)
    then show ?thesis
      using b Some tok [of "refill now c l"] limiter_ok_update [OF ok'] by (auto simp: Allow_def Let_def bucket_ok_def)
  qed
qed

end
