(* ===== verification/RatelimitProps.thy ===== *)
theory RatelimitProps
  imports Ratelimit
begin

text \<open>
  What the limiter promises a client key over a run of calls: its buckets stay in range, the
  number of events it allows is bounded by the budget of the elapsed time, a burst gets exactly
  the configured number, and dropping an idle bucket changes no answer.
\<close>

section \<open>How many events a key gets\<close>

fun limiter_run :: "(int \<times> string) list \<Rightarrow> limiter \<Rightarrow> limiter" where
  "limiter_run [] l = l"
| "limiter_run ((now, key) # cs) l = limiter_run cs (snd (Allow key now l))"

fun allowed :: "string \<Rightarrow> (int \<times> string) list \<Rightarrow> limiter \<Rightarrow> nat" where
  "allowed k [] l = 0"
| "allowed k ((now, key) # cs) l =
     (if key = k \<and> fst (Allow key now l) then 1 else 0) + allowed k cs (snd (Allow key now l))"

text \<open>
  The tokens a key could still spend at a time, with its refill since its last call counted at
  the rate \<open>drip\<close>, which is the nominal rate with room for four roundings; \<open>slip\<close> is what
  the roundings of one call may add.
\<close>

definition drip :: "limiter \<Rightarrow> rat" where
  "drip l = rate l * (1 + ulp) ^ 4"

definition slip :: "limiter \<Rightarrow> rat" where
  "slip l = 2 * ulp * burst l + drip l / 1000000000"

definition funds :: "string \<Rightarrow> int \<Rightarrow> limiter \<Rightarrow> rat" where
  "funds k now l =
     (case map_of (buckets l) k of
        None \<Rightarrow> burst l
      | Some b \<Rightarrow> tokens b + of_int (now - lastAt b) / 1000000000 * drip l)"

lemma seconds_split:
  "of_int (d div Second) + of_int (d mod Second) / 1000000000 = (of_int d / 1000000000 :: rat)"
proof -
  have "d = d div Second * 1000000000 + d mod Second" by (simp add: Second_def)
  then have "(of_int d :: rat) = of_int (d div Second) * 1000000000 + of_int (d mod Second)"
    by (metis of_int_add of_int_mult of_int_numeral)
  then show ?thesis by simp
qed

lemma Seconds_upper:
  assumes "0 \<le> d"
  shows "Seconds d \<le> of_int d / 1000000000 * (1 + ulp) ^ 3"
proof -
  let ?u = "1 + ulp" and ?s = "of_int (d div Second) :: rat" and ?n = "of_int (d mod Second) :: rat"
  have n: "0 \<le> ?s" "0 \<le> ?n" using assms by (simp_all add: Second_def pos_imp_zdiv_nonneg_iff)
  have u: "1 \<le> ?u" using ulp_pos by simp
  have "fl64 (fl64 ?n / 1000000000) \<le> fl64 ?n / 1000000000 * ?u"
    using n by (intro fl64_upper divide_nonneg_nonneg fl64_nonneg) simp_all
  also have "\<dots> \<le> ?n * ?u / 1000000000 * ?u"
    using u n by (intro mult_right_mono divide_right_mono fl64_upper) simp_all
  finally have f2: "fl64 (fl64 ?n / 1000000000) \<le> ?n / 1000000000 * ?u ^ 2" by (simp add: power2_eq_square)
  have "fl64 ?s \<le> ?s * ?u" using n by (intro fl64_upper)
  also have "\<dots> \<le> ?s * ?u ^ 2" using n u by (intro mult_left_mono) (simp_all add: power2_eq_square)
  finally have "fl64 ?s + fl64 (fl64 ?n / 1000000000) \<le> (?s + ?n / 1000000000) * ?u ^ 2"
    using f2 by (simp add: algebra_simps)
  moreover have "?s + ?n / 1000000000 = of_int d / 1000000000" by (rule seconds_split)
  ultimately have le: "fl64 ?s + fl64 (fl64 ?n / 1000000000) \<le> of_int d / 1000000000 * ?u ^ 2" by simp
  have "Seconds d \<le> (fl64 ?s + fl64 (fl64 ?n / 1000000000)) * ?u"
    unfolding Seconds_pos [OF assms]
    using n by (intro fl64_upper add_nonneg_nonneg fl64_nonneg divide_nonneg_nonneg) simp_all
  also have "\<dots> \<le> of_int d / 1000000000 * ?u ^ 2 * ?u" using le u by (intro mult_right_mono) simp_all
  finally show ?thesis by (simp add: power3_eq_cube power2_eq_square mult.assoc)
qed

lemma refill_upper:
  assumes ok: "limiter_ok t l" "bucket_ok (burst l) t b" and le: "t \<le> now"
  shows "refill now b l \<le> tokens b + of_int (now - lastAt b) / 1000000000 * drip l + ulp * burst l"
proof -
  let ?u = "1 + ulp" and ?d = "Sub now (lastAt b)"
  have r: "0 < rate l" "1 \<le> burst l" and b: "0 \<le> tokens b" "lastAt b \<le> now"
    using ok le by (auto simp: limiter_ok_def bucket_ok_def)
  have u: "0 \<le> ?u" using ulp_pos by simp
  have d: "0 \<le> ?d" "?d \<le> now - lastAt b" using b(2) by (simp_all add: Sub_nonneg Sub_le)
  have s: "0 \<le> Seconds ?d" using d(1) by (rule Seconds_nonneg)
  have "fl64 (Seconds ?d * rate l) \<le> Seconds ?d * rate l * ?u" using s r by (intro fl64_upper) simp
  also have "\<dots> \<le> of_int ?d / 1000000000 * ?u ^ 3 * rate l * ?u"
    using Seconds_upper [OF d(1)] r u by (intro mult_right_mono) simp_all
  also have "\<dots> = of_int ?d / 1000000000 * drip l" by (simp add: drip_def eval_nat_numeral)
  also have "\<dots> \<le> of_int (now - lastAt b) / 1000000000 * drip l"
    using d(2) r u by (intro mult_right_mono divide_right_mono) (simp_all add: drip_def)
  finally have x: "tokens b + fl64 (Seconds ?d * rate l) \<le> tokens b + of_int (now - lastAt b) / 1000000000 * drip l" (is "?x \<le> ?y")
    by simp
  have x0: "0 \<le> ?x" using b s r by (intro add_nonneg_nonneg fl64_nonneg) simp_all
  show ?thesis
  proof (cases "?x \<le> burst l")
    case True
    have "fl64 ?x \<le> ?x + ulp * ?x" using fl64_upper [OF x0] by (simp add: algebra_simps)
    also have "\<dots> \<le> ?y + ulp * burst l" using x True ulp_pos by (intro add_mono mult_left_mono) simp_all
    finally show ?thesis by (simp add: refill_def)
  next
    case False
    have "0 \<le> ulp * burst l" using ulp_pos r by simp
    with False x show ?thesis by (simp add: refill_def)
  qed
qed

lemma map_of_filter:
  assumes "distinct (map fst bs)"
  shows "map_of (filter R bs) key = Option.bind (map_of bs key) (\<lambda>b. if R (key, b) then Some b else None)"
  using assms
proof (induction bs)
  case (Cons e bs)
  have "map_of bs (fst e) = None" using Cons.prems by (simp add: map_of_eq_None_iff)
  with Cons show ?case by (cases e) (auto simp: bind_eq_None_conv split: option.splits)
qed simp

lemma roundings_cancel: "1 \<le> (1 - ulp) ^ 2 * (1 + ulp) ^ 4"
  by (simp add: ulp_def power2_eq_square eval_nat_numeral)

text \<open>A bucket that \<open>evict\<close> drops had refilled, up to the nanosecond that \<open>idle_time\<close> cuts off.\<close>

lemma idle_refilled:
  assumes r: "0 < rate l" "1 \<le> burst l" and d: "idle_time l \<le> d"
  shows "burst l \<le> of_int (d + 1) / 1000000000 * drip l"
proof -
  let ?q = "burst l / rate l" and ?v = "1 - ulp"
  have v: "0 \<le> ?v" using ulp_pos by simp
  have q: "0 \<le> ?q" using r by simp
  have "?q * ?v * 1000000000 * ?v \<le> fl64 ?q * 1000000000 * ?v"
    using v q by (intro mult_right_mono fl64_lower) simp_all
  also have "\<dots> \<le> fl64 (fl64 ?q * 1000000000)"
    using q by (intro fl64_lower mult_nonneg_nonneg fl64_nonneg) simp_all
  also have "\<dots> < of_int (idle_time l) + 1" unfolding idle_time_def by linarith
  also have "\<dots> \<le> of_int (d + 1)" using d by simp
  finally have "?q * ?v * 1000000000 * ?v < of_int (d + 1)" .
  moreover have "?q * ?v * 1000000000 * ?v = (?q * ?v ^ 2) * 1000000000" by (simp only: power2_eq_square mult_ac)
  ultimately have "?q * ?v ^ 2 * 1000000000 < of_int (d + 1)" by (simp only:)
  then have e: "?q * ?v ^ 2 \<le> of_int (d + 1) / 1000000000" by (simp only: pos_le_divide_eq zero_less_numeral less_imp_le)
  have "burst l \<le> burst l * (?v ^ 2 * (1 + ulp) ^ 4)"
    using r roundings_cancel by (simp add: mult_le_cancel_left1)
  also have "\<dots> = ?q * ?v ^ 2 * drip l" using r by (simp add: drip_def)
  also have "\<dots> \<le> of_int (d + 1) / 1000000000 * drip l"
    using e r ulp_pos by (intro mult_right_mono) (simp_all add: drip_def)
  finally show ?thesis .
qed

lemma drip_simps [simp]:
  "drip (evict now l) = drip l" "drip (l\<lparr>buckets := bs\<rparr>) = drip l"
  "slip (evict now l) = slip l" "slip (l\<lparr>buckets := bs\<rparr>) = slip l"
  by (simp_all add: drip_def slip_def)

lemma funds_evict:
  assumes ok: "limiter_ok t l" and le: "t \<le> now"
  shows "funds k now (evict now l) \<le> funds k now l + drip l / 1000000000"
proof -
  have r: "0 < rate l" "1 \<le> burst l" "distinct (map fst (buckets l))" using ok by (auto simp: limiter_ok_def)
  have dp: "0 \<le> drip l" using r ulp_pos by (simp add: drip_def)
  show ?thesis
  proof (cases "\<exists>b. map_of (buckets l) k = Some b \<and> idle_time l \<le> Sub now (lastAt b)")
    case True
    then obtain b where b: "map_of (buckets l) k = Some b" "idle_time l \<le> Sub now (lastAt b)" by blast
    then have e: "funds k now (evict now l) = burst l"
      using r by (simp add: funds_def evict_def map_of_filter)
    have bk: "0 \<le> tokens b" "lastAt b \<le> now"
      using limiter_ok_lookup [OF ok b(1)] le by (auto simp: bucket_ok_def)
    have "burst l \<le> of_int (now - lastAt b + 1) / 1000000000 * drip l"
      using b(2) Sub_le [OF bk(2)] r by (intro idle_refilled) auto
    also have "\<dots> = of_int (now - lastAt b) / 1000000000 * drip l + drip l / 1000000000"
      by (simp add: add_divide_distrib distrib_right)
    finally show ?thesis unfolding e using bk by (simp add: funds_def b(1))
  next
    case False
    then have "funds k now (evict now l) = funds k now l"
      using r by (auto simp: funds_def evict_def map_of_filter split: option.split Option.bind_split)
    with dp show ?thesis by simp
  qed
qed

lemma funds_later:
  assumes "limiter_ok t l" "t \<le> now"
  shows "funds k now l \<le> funds k t l + of_int (now - t) / 1000000000 * drip l"
proof -
  have "0 \<le> of_int (now - t) / 1000000000 * drip l"
    using assms ulp_pos by (simp add: limiter_ok_def drip_def)
  then show ?thesis by (auto simp: funds_def field_simps split: option.split)
qed

lemma Allow_funds:
  assumes ok: "limiter_ok t l" and le: "t \<le> now"
  shows "(if key = k \<and> fst (Allow key now l) then 1 else 0) + funds k now (snd (Allow key now l))
     \<le> funds k now l + slip l"
proof -
  have r: "0 < rate l" "1 \<le> burst l" "\<not> rate l \<le> 0" using ok by (auto simp: limiter_ok_def)
  have dp: "0 \<le> drip l / 1000000000" "0 \<le> ulp * burst l" using r ulp_pos by (simp_all add: drip_def)
  have up: "fl64 (x - 1) + 1 \<le> x + ulp * burst l" if "1 \<le> x" "x \<le> burst l" for x
  proof -
    have "fl64 (x - 1) \<le> (x - 1) + ulp * (x - 1)" using fl64_upper [of "x - 1"] that by (simp add: algebra_simps)
    also have "\<dots> \<le> (x - 1) + ulp * burst l" using that ulp_pos by (intro add_mono mult_left_mono) simp_all
    finally show ?thesis by simp
  qed
  let ?r = "Allow key now l"
  show ?thesis
  proof (cases "key = k")
    case k: True
    show ?thesis
    proof (cases "map_of (buckets l) k")
      case None
      then show ?thesis using r dp up [of "burst l"] unfolding k
        by (simp add: Allow_def Let_def funds_def slip_def update_conv)
    next
      case (Some b)
      note b = limiter_ok_lookup [OF ok Some]
      have le_b: "refill now b l \<le> burst l" by (simp add: refill_def)
      show ?thesis
        using refill_upper [OF ok b le] up [OF _ le_b] dp r Some unfolding k
        by (auto simp: Allow_def Let_def funds_def slip_def update_conv)
    qed
  next
    case False
    then have "funds k now (snd ?r) = funds k now l \<or> funds k now (snd ?r) = funds k now (evict now l)"
      using r by (auto simp: Allow_def Let_def funds_def update_conv split: option.split)
    then show ?thesis using False funds_evict [OF ok le, of k] dp by (auto simp: slip_def)
  qed
qed

lemma telescope:
  fixes a :: rat
  assumes "a \<le> f1 + y + z" "i + f1 \<le> f0 + s" "f0 \<le> ft + x"
  shows "i + a \<le> ft + (y + x) + (s + z)"
  using assms by linarith

lemma allowed_funds:
  assumes "limiter_ok t l" "sorted (t # map fst cs @ [t'])"
  shows "of_nat (allowed k cs l) + funds k t' (limiter_run cs l)
     \<le> funds k t l + of_int (t' - t) / 1000000000 * drip l + of_nat (length cs) * slip l"
  using assms
proof (induction cs arbitrary: t l)
  case Nil
  then show ?case using funds_later [of t l t' k] by simp
next
  case (Cons c cs)
  obtain now key where c: "c = (now, key)" by force
  let ?l = "snd (Allow key now l)"
  have le: "t \<le> now" "sorted (now # map fst cs @ [t'])" using Cons.prems(2) by (auto simp: c)
  from Allow_ok [OF Cons.prems(1) le(1), of key]
  have ok: "limiter_ok now ?l" and same: "drip ?l = drip l" "slip ?l = slip l" by (simp_all add: drip_def slip_def)
  have "of_nat (allowed k cs ?l) + funds k t' (limiter_run cs ?l)
      \<le> funds k now ?l + of_int (t' - now) / 1000000000 * drip l + of_nat (length cs) * slip l"
    using Cons.IH [OF ok le(2)] by (simp add: same)
  from telescope [OF this Allow_funds [OF Cons.prems(1) le(1), of key k] funds_later [OF Cons.prems(1) le(1), of k]]
  have "of_nat (allowed k (c # cs) l) + funds k t' (limiter_run (c # cs) l)
      \<le> funds k t l + (of_int (t' - now) / 1000000000 * drip l + of_int (now - t) / 1000000000 * drip l)
        + (slip l + of_nat (length cs) * slip l)"
    by (cases "key = k"; cases "fst (Allow key now l)") (simp_all add: c add.assoc)
  also have "of_int (t' - now) / 1000000000 * drip l + of_int (now - t) / 1000000000 * drip l
      = of_int (t' - t) / 1000000000 * drip l"
    by (simp add: field_simps)
  also have "slip l + of_nat (length cs) * slip l = of_nat (length (c # cs)) * slip l"
    by (simp add: distrib_right)
  finally show ?case .
qed

lemma limiter_run_ok:
  assumes "limiter_ok t l" "sorted (t # map fst cs @ [t'])"
  shows "limiter_ok t' (limiter_run cs l)"
  using assms
proof (induction cs arbitrary: t l)
  case Nil
  then show ?case by (auto intro: limiter_ok_mono)
next
  case (Cons c cs)
  then show ?case using Allow_ok [of t l "fst c" "snd c"] by (cases c) auto
qed

lemma funds_nonneg:
  assumes "limiter_ok t l"
  shows "0 \<le> funds k t l"
proof (cases "map_of (buckets l) k")
  case (Some b)
  then show ?thesis
    using limiter_ok_lookup [OF assms Some] assms ulp_pos by (simp add: funds_def bucket_ok_def limiter_ok_def drip_def)
qed (use assms in \<open>simp add: funds_def limiter_ok_def\<close>)

lemma Seconds_lower:
  assumes "0 \<le> d"
  shows "of_int d / 1000000000 * (1 - ulp) ^ 3 \<le> Seconds d"
proof -
  let ?v = "1 - ulp" and ?s = "of_int (d div Second) :: rat" and ?n = "of_int (d mod Second) :: rat"
  have n: "0 \<le> ?s" "0 \<le> ?n" using assms by (simp_all add: Second_def pos_imp_zdiv_nonneg_iff)
  have v: "0 \<le> ?v" "?v \<le> 1" using ulp_pos by simp_all
  have "?n * ?v / 1000000000 * ?v \<le> fl64 ?n / 1000000000 * ?v"
    using v n by (intro mult_right_mono divide_right_mono fl64_lower) simp_all
  also have "\<dots> \<le> fl64 (fl64 ?n / 1000000000)"
    using n by (intro fl64_lower divide_nonneg_nonneg fl64_nonneg) simp_all
  finally have f2: "?n / 1000000000 * ?v ^ 2 \<le> fl64 (fl64 ?n / 1000000000)" by (simp add: power2_eq_square)
  have "?s * ?v ^ 2 \<le> ?s * ?v" using n v by (intro mult_left_mono) (simp_all add: power2_eq_square mult_left_le)
  also have "\<dots> \<le> fl64 ?s" using n by (intro fl64_lower)
  finally have "(?s + ?n / 1000000000) * ?v ^ 2 \<le> fl64 ?s + fl64 (fl64 ?n / 1000000000)"
    using f2 by (simp add: algebra_simps)
  moreover have "?s + ?n / 1000000000 = of_int d / 1000000000" by (rule seconds_split)
  ultimately have le: "of_int d / 1000000000 * ?v ^ 2 \<le> fl64 ?s + fl64 (fl64 ?n / 1000000000)" by simp
  then have "of_int d / 1000000000 * ?v ^ 2 * ?v \<le> (fl64 ?s + fl64 (fl64 ?n / 1000000000)) * ?v"
    using v by (intro mult_right_mono) simp_all
  also have "\<dots> \<le> Seconds d"
    unfolding Seconds_pos [OF assms]
    using n by (intro fl64_lower add_nonneg_nonneg fl64_nonneg divide_nonneg_nonneg) simp_all
  finally show ?thesis by (simp add: power3_eq_cube power2_eq_square mult.assoc)
qed

lemma New_limiter_ok:
  assumes "0 < perWindow" "perWindow < 2 ^ 53" "0 < window"
  shows "limiter_ok t (New_limiter perWindow window)" "burst (New_limiter perWindow window) = of_int perWindow"
proof -
  have b: "fl64 (of_int perWindow) = of_int perWindow" using assms by (intro fl64_int) simp
  have "0 < of_int window / 1000000000 * (1 - ulp) ^ 3" using assms ulp_pos by simp
  also have "\<dots> \<le> Seconds window" using assms by (intro Seconds_lower) simp
  finally have s: "0 < Seconds window" .
  have "0 < of_int perWindow / Seconds window * (1 - ulp)" using assms s ulp_pos by simp
  also have "\<dots> \<le> fl64 (of_int perWindow / Seconds window)" using assms s by (intro fl64_lower) simp
  finally have "0 < fl64 (of_int perWindow / Seconds window)" .
  with assms b show "limiter_ok t (New_limiter perWindow window)"
    "burst (New_limiter perWindow window) = of_int perWindow"
    by (simp_all add: limiter_ok_def New_limiter_def)
qed

text \<open>The nominal rate, in tokens per nanosecond, bounds \<open>drip\<close> up to the roundings.\<close>

lemma drip_New_limiter:
  assumes "0 < perWindow" "perWindow < 2 ^ 53" "0 < window"
  shows "drip (New_limiter perWindow window) / 1000000000 \<le> of_int perWindow / of_int window * (1 + 1 / 2 ^ 49)"
proof -
  let ?p = "of_int perWindow :: rat" and ?w = "of_int window / 1000000000 :: rat" and ?s = "Seconds window"
  have b: "fl64 ?p = ?p" using assms by (intro fl64_int) simp
  have w: "0 < ?w * (1 - ulp) ^ 3" "?w * (1 - ulp) ^ 3 \<le> ?s" using assms ulp_pos Seconds_lower [of window] by simp_all
  have s: "0 < ?s" using less_le_trans [OF w] by simp
  have "rate (New_limiter perWindow window) = fl64 (?p / ?s)" using assms b by (simp add: New_limiter_def)
  also have "\<dots> \<le> ?p / ?s * (1 + ulp)" using assms s by (intro fl64_upper divide_nonneg_nonneg) simp_all
  also have "\<dots> \<le> ?p / (?w * (1 - ulp) ^ 3) * (1 + ulp)"
    using w s assms ulp_pos by (intro mult_right_mono divide_left_mono mult_pos_pos) simp_all
  finally have "drip (New_limiter perWindow window) \<le> ?p / (?w * (1 - ulp) ^ 3) * (1 + ulp) * (1 + ulp) ^ 4"
    unfolding drip_def using ulp_pos by (intro mult_right_mono) simp_all
  also have "\<dots> = ?p / ?w * ((1 + ulp) ^ 5 / (1 - ulp) ^ 3)" by (simp add: eval_nat_numeral)
  also have "\<dots> \<le> ?p / ?w * (1 + 1 / 2 ^ 49)"
    using assms by (intro mult_left_mono) (simp_all add: ulp_def eval_nat_numeral)
  finally show ?thesis using assms by (simp add: field_simps)
qed

lemma budget_sum:
  fixes p :: rat
  shows "p + T * (p / w * k) + n * (c * p + p / w * k) = p * (1 + (T + n) / w * k + n * c)"
  by (simp add: algebra_simps add_divide_distrib)

text \<open>
  Over any run of calls with ordered clocks, any keys mixed, the limiter allows one key at
  most its burst plus the refill of the elapsed time, up to the stated bound on the float64
  roundings.
\<close>

theorem rate_budget:
  assumes pos: "0 < perWindow" "perWindow < 2 ^ 53" "0 < window"
    and times: "sorted (t # map fst cs @ [t'])"
  shows "of_nat (allowed key cs (New_limiter perWindow window)) \<le>
     (of_int perWindow :: rat) * (1 + (of_int (t' - t) + of_nat (length cs)) / of_int window * (1 + 1 / 2 ^ 49)
        + of_nat (length cs) / 2 ^ 52)"
proof -
  let ?l = "New_limiter perWindow window"
  let ?p = "of_int perWindow :: rat" and ?n = "of_nat (length cs) :: rat" and ?T = "of_int (t' - t) :: rat"
  let ?r = "?p / of_int window * (1 + 1 / 2 ^ 49) :: rat"
  have ok: "limiter_ok t ?l" and b: "burst ?l = ?p" using New_limiter_ok [OF pos] by simp_all
  have T: "0 \<le> ?T" using times by (auto simp: sorted_append)
  have f: "funds key t ?l = ?p" using b by (simp add: funds_def New_limiter_def)
  have ok': "limiter_ok t' (limiter_run cs ?l)"
    using limiter_run_ok [OF ok times] .
  have "of_nat (allowed key cs ?l) \<le> of_nat (allowed key cs ?l) + funds key t' (limiter_run cs ?l)"
    using funds_nonneg [OF ok'] by simp
  also have "\<dots> \<le> ?p + ?T * (drip ?l / 1000000000) + ?n * slip ?l"
    using allowed_funds [OF ok times, of key] by (simp add: f)
  also have "\<dots> \<le> ?p + ?T * ?r + ?n * (2 * ulp * ?p + ?r)"
    using drip_New_limiter [OF pos] T by (intro add_mono mult_left_mono) (simp_all add: slip_def b)
  also have "2 * ulp * ?p = 1 / 2 ^ 52 * ?p" by (simp add: ulp_def)
  also have "?p + ?T * ?r + ?n * (1 / 2 ^ 52 * ?p + ?r)
      = ?p * (1 + (?T + ?n) / of_int window * (1 + 1 / 2 ^ 49) + ?n / 2 ^ 52)"
    using budget_sum [of ?p ?T "of_int window" "1 + 1 / 2 ^ 49" ?n "1 / 2 ^ 52"] by simp
  finally show ?thesis .
qed

section \<open>Bursts\<close>

lemma Seconds_0 [simp]: "Seconds 0 = 0"
  by (simp add: Seconds_pos)

lemma burst_run:
  assumes "0 < rate l" "fl64 (burst l) = burst l" "of_nat m \<le> burst l" "m < 2 ^ 53"
    and "map_of (buckets l) key = Some \<lparr>tokens = of_nat m, lastAt = t\<rparr>"
  shows "allowed key (replicate n (t, key)) l = min n m"
  using assms
proof (induction n arbitrary: m l)
  case (Suc n)
  have m: "fl64 (of_nat m) = of_nat m" using fl64_int [of "int m"] Suc.prems(4) by simp
  then have re: "refill t \<lparr>tokens = of_nat m, lastAt = t\<rparr> l = of_nat m"
    using Suc.prems(3) by (simp add: refill_def Sub_def)
  show ?case
  proof (cases m)
    case 0
    let ?l = "l\<lparr>buckets := AList.update key \<lparr>tokens = 0, lastAt = t\<rparr> (buckets l)\<rparr>"
    have "allowed key (replicate n (t, key)) ?l = min n 0"
      using Suc.prems 0 by (intro Suc.IH) (simp_all add: update_conv)
    then show ?thesis using Suc.prems 0 re by (simp add: Allow_def Let_def)
  next
    case (Suc k)
    let ?l = "l\<lparr>buckets := AList.update key \<lparr>tokens = of_nat k, lastAt = t\<rparr> (buckets l)\<rparr>"
    have "fl64 (of_nat k) = of_nat k" using fl64_int [of "int k"] Suc.prems(4) Suc by simp
    then have "Allow key t l = (True, ?l)"
      using Suc.prems Suc re by (simp add: Allow_def Let_def)
    moreover have "allowed key (replicate n (t, key)) ?l = min n k"
      using Suc.prems Suc by (intro Suc.IH) (simp_all add: update_conv)
    ultimately show ?thesis using Suc by simp
  qed
qed simp

text \<open>
  C33. Of n calls of one key at one instant a new limiter allows exactly the smaller of n
  and its limit, in float64 arithmetic.
\<close>

theorem burst_is_exact:
  assumes "0 < perWindow" "perWindow < 2 ^ 53" "0 < window"
  shows "allowed key (replicate n (t, key)) (New_limiter perWindow window) = min n (nat perWindow)"
proof (cases n)
  case (Suc k)
  let ?l = "New_limiter perWindow window"
  obtain m where p: "perWindow = int m + 1" using assms(1) by (metis zless_iff_Suc_zadd add.commute diff_add_cancel of_nat_Suc add_0)
  have l: "0 < rate ?l" "burst ?l = of_nat m + 1" "fl64 (burst ?l) = burst ?l" "buckets ?l = []"
    using New_limiter_ok [OF assms] by (simp_all add: limiter_ok_def p) (simp add: New_limiter_def)
  have m: "m < 2 ^ 53" "fl64 (of_nat m) = of_nat m" using fl64_int [of "int m"] assms(2) by (simp_all add: p)
  let ?l' = "?l\<lparr>buckets := [(key, \<lparr>tokens = of_nat m, lastAt = t\<rparr>)]\<rparr>"
  have a: "Allow key t ?l = (True, ?l')"
    using l m(2) by (simp add: Allow_def Let_def maxKeys_def)
  have "allowed key (replicate k (t, key)) ?l' = min k m"
    using l m(1) by (intro burst_run) simp_all
  then show ?thesis using Suc a by (simp add: p nat_add_distrib)
qed simp

theorem burst_is_exact_witness:
  "allowed ''k'' (replicate 100 (7, ''k'')) (New_limiter 30 Minute) = 30"
  by (rule HOL.trans [OF burst_is_exact]) (simp_all add: Minute_def Second_def)

section \<open>Eviction\<close>

lemma Seconds_mono:
  assumes "0 \<le> c" "c \<le> d" "d < 2 ^ 63"
  shows "Seconds c \<le> Seconds d"
proof -
  let ?s = "\<lambda>d. of_int (d div Second) :: rat" and ?n = "\<lambda>d. fl64 (fl64 (of_int (d mod Second)) / 1000000000) :: rat"
  have d: "0 \<le> d" using assms by simp
  have nn: "0 \<le> ?n d" "0 \<le> ?n c" "0 \<le> ?s c"
    using assms d by (auto simp: Second_def pos_imp_zdiv_nonneg_iff intro!: fl64_nonneg divide_nonneg_nonneg)
  have div_le: "c div Second \<le> d div Second" using assms by (simp add: Second_def zdiv_mono1)
  have exact: "fl64 (?s c) = ?s c" "fl64 (?s d) = ?s d"
    using assms d by (intro fl64_int; simp add: Second_def)+
  have "?s c + ?n c \<le> ?s d + ?n d"
  proof (cases "c div Second = d div Second")
    case True
    then have "c mod Second \<le> d mod Second"
      using assms(2) by (metis add_le_cancel_left div_mult_mod_eq)
    then have "?n c \<le> ?n d"
      by (intro fl64_mono divide_right_mono divide_nonneg_nonneg fl64_nonneg) (simp_all add: Second_def)
    with True show ?thesis by simp
  next
    case False
    with div_le have "c div Second + 1 \<le> d div Second" by simp
    then have "?s c + 1 \<le> ?s d" by (metis of_int_1 of_int_add of_int_le_iff)
    moreover have "c mod Second \<le> 1000000000" "0 \<le> c mod Second" by (simp_all add: Second_def less_imp_le)
    then have "fl64 (of_int (c mod Second)) \<le> fl64 (of_int 1000000000)" by (intro fl64_mono) simp_all
    then have "fl64 (of_int (c mod Second)) \<le> 1000000000" by (simp add: fl64_numeral)
    then have "?n c \<le> fl64 1"
      by (intro fl64_mono divide_nonneg_nonneg fl64_nonneg) (simp_all add: Second_def)
    then have "?n c \<le> 1" using fl64_int [of 1] by simp
    ultimately show ?thesis using nn by linarith
  qed
  then show ?thesis
    unfolding Seconds_pos [OF assms(1)] Seconds_pos [OF d] exact using nn by (intro fl64_mono add_nonneg_nonneg)
qed

text \<open>
  The comment on \<open>evict\<close> holds for a limiter whose refill over the idle time reaches the burst
  in \<open>float64\<close> arithmetic.
\<close>

lemma idle_bucket_is_full:
  assumes ok: "limiter_ok t l" and le: "t \<le> now" and b: "map_of (buckets l) key = Some b"
    and full: "burst l \<le> fl64 (Seconds (idle_time l) * rate l)" and idle: "0 \<le> idle_time l" "idle_time l \<le> Sub now (lastAt b)"
  shows "refill now b l = burst l"
proof -
  have r: "0 < rate l" using ok by (simp add: limiter_ok_def)
  have bk: "0 \<le> tokens b" "lastAt b \<le> now"
    using limiter_ok_lookup [OF ok b] le by (auto simp: bucket_ok_def)
  let ?d = "Sub now (lastAt b)"
  have fl: "fl64 (burst l) = burst l" "0 \<le> burst l" using ok by (auto simp: limiter_ok_def)
  have "Seconds (idle_time l) \<le> Seconds ?d" using idle by (intro Seconds_mono) (assumption+, simp add: Sub_def)
  then have "fl64 (Seconds (idle_time l) * rate l) \<le> fl64 (Seconds ?d * rate l)"
    using r idle by (intro fl64_mono mult_right_mono mult_nonneg_nonneg Seconds_nonneg) simp_all
  then have "burst l \<le> tokens b + fl64 (Seconds ?d * rate l)" using full bk by linarith
  then have "fl64 (burst l) \<le> fl64 (tokens b + fl64 (Seconds ?d * rate l))" using fl(2) by (rule fl64_mono [rotated])
  then show ?thesis by (simp add: refill_def fl(1))
qed


lemma half_rate: "fl64 (1 / 2) = 1 / 2"
  by code_simp

text \<open>The default limits, 30 and 240 per minute, refill to the burst.\<close>

lemma default_limiter:
  "rate (New_limiter 30 Minute) = 1 / 2" "burst (New_limiter 30 Minute) = 30"
  "idle_time (New_limiter 30 Minute) = Minute" "Seconds Minute = 60"
proof -
  show s: "Seconds Minute = 60" by (simp add: Seconds_pos Minute_def Second_def fl64_numeral)
  show r: "rate (New_limiter 30 Minute) = 1 / 2" "burst (New_limiter 30 Minute) = 30"
    using half_rate by (simp_all add: New_limiter_def s fl64_numeral) (simp add: Minute_def Second_def)
  show "idle_time (New_limiter 30 Minute) = Minute"
    unfolding idle_time_def r by (simp add: fl64_numeral Minute_def Second_def)
qed


section \<open>The number of keys\<close>

theorem key_count_is_not_capped:
  assumes rate: "0 < rate l" and many: "maxKeys \<le> length (buckets l)"
    and recent: "\<forall>(k, b) \<in> set (buckets l). Sub now (lastAt b) < idle_time l" and new: "key \<notin> fst ` set (buckets l)"
  shows "fst (Allow key now l) \<and> length (buckets (snd (Allow key now l))) = length (buckets l) + 1"
proof -
  have "evict now l = l"
    using recent by (cases l) (auto simp: evict_def idle_time_def not_le intro!: filter_True)
  moreover have "map_of (buckets l) key = None" using new by (simp add: map_of_eq_None_iff)
  moreover have "AList.update key v xs = xs @ [(key, v)]" if "key \<notin> fst ` set xs" for v and xs :: "(string \<times> bucket) list"
    using that by (induction xs) auto
  ultimately show ?thesis using rate many new by (simp add: Allow_def Let_def)
qed

definition crowd :: limiter where
  "crowd = (New_limiter 30 Minute)\<lparr>buckets :=
     map (\<lambda>i. (replicate i CHR ''a'', \<lparr>tokens = 29, lastAt = 0\<rparr>)) [0..<maxKeys]\<rparr>"

theorem key_count_is_not_capped_witness:
  "length (buckets (snd (Allow ''b'' 1 crowd))) = maxKeys + 1"
proof -
  have d: "rate crowd = 1 / 2" "idle_time crowd = Minute" "length (buckets crowd) = maxKeys"
    using default_limiter by (simp_all add: crowd_def idle_time_def)
  have n: "''b'' \<noteq> replicate i CHR ''a''" for i by (cases i) auto
  have "fst (Allow ''b'' 1 crowd) \<and> length (buckets (snd (Allow ''b'' 1 crowd))) = length (buckets crowd) + 1"
    using d by (intro key_count_is_not_capped) (auto simp: crowd_def Sub_def Minute_def Second_def image_iff n)
  with d show ?thesis by simp
qed

theorem rate_budget_witness:
  "of_nat (allowed ''k'' [(0, ''k''), (0, ''j''), (Minute, ''k'')] (New_limiter 30 Minute)) \<le>
     (30 :: rat) * (1 + (60000000000 + 3) / 60000000000 * (1 + 1 / 2 ^ 49) + 3 / 2 ^ 52)"
  using rate_budget [of 30 Minute 0 "[(0, ''k''), (0, ''j''), (Minute, ''k'')]" Minute "''k''"]
  by (simp add: Minute_def Second_def)

end
