(* ===== verification/ConfigProps.thy ===== *)
theory ConfigProps
  imports Config GcProps RatelimitProps
begin

text \<open>
  What a configuration that \<open>Load\<close> accepts guarantees the components it is handed to, the
  defaults, and the values of variables written the way the documentation writes them.
\<close>

section \<open>Values\<close>

theorem env_int_roundtrip:
  assumes "int64 n" "E key = Some (Itoa n)"
  shows "envInt64 E key def = n"
  using assms ParseInt_Itoa [OF assms(1)] by (auto simp: envInt64_def env_parsed_def Itoa_def)

theorem env_int_roundtrip_witness:
  "envInt64 ((\<lambda>_. None)(''SEND_MAX_PART_COUNT'' := Some ''-12'')) ''SEND_MAX_PART_COUNT'' 64 = -12"
proof -
  have "Itoa (-12) = ''-12''"
    by (simp add: Itoa_def decimal.simps digit_char_def char_of_def)
  then show ?thesis by (intro env_int_roundtrip) (simp_all add: int64_def)
qed

lemma digits_val_ge: "\<forall>c \<in> set s. isDigit c \<Longrightarrow> 0 \<le> x \<Longrightarrow> x \<le> digits_val s x"
proof (induction s arbitrary: x)
  case (Cons c s)
  then have "0 \<le> digit_val c" by (simp add: isDigit_val)
  with Cons.IH [of "x * 10 + digit_val c"] Cons.prems show ?case by simp
qed simp

lemma leadingInt_digits:
  assumes "\<forall>c \<in> set s. isDigit c" "0 \<le> x" "digits_val s x \<le> 2 ^ 63"
  shows "leadingInt (s @ r) x = leadingInt r (digits_val s x)"
  using assms
proof (induction s arbitrary: x)
  case (Cons c s)
  then have c: "isDigit c" "0 \<le> digit_val c" by (simp_all add: isDigit_val)
  have le: "x * 10 + digit_val c \<le> 2 ^ 63"
    using Cons.prems c digits_val_ge [of s "x * 10 + digit_val c"] by simp
  with c have "\<not> x > 2 ^ 63 div 10" by simp
  with c le Cons show ?case by simp
qed simp

lemma unitMap_word:
  assumes "map_of unitMap u = Some unit"
  shows "u \<noteq> []" "\<forall>c \<in> set u. \<not> number_char c" "0 < unit"
  using assms by (auto simp: unitMap_def number_char_def isDigit_def less_eq_char_def Second_def Minute_def Hour_def split: if_splits)

text \<open>
  C36. A duration setting written as a decimal and a unit is read back as that number of
  units, for every unit and every number that fits.
\<close>

theorem env_duration_roundtrip:
  assumes u: "map_of unitMap u = Some unit" and n: "int n * unit < 2 ^ 63" and E: "E key = Some (decimal n @ u)"
  shows "envDuration E key def = int n * unit"
proof -
  note uw = unitMap_word [OF u]
  let ?s = "decimal n @ u"
  have dig: "\<forall>c \<in> set (decimal n). isDigit c" using decimal_digits by blast
  have "int n * 1 \<le> int n * unit" using uw(3) by (intro mult_left_mono) auto
  then have n63: "int n < 2 ^ 63" using n by simp
  obtain c w where c: "u = c # w" using uw(1) by (cases u) auto
  then have nc: "\<not> isDigit c" "c \<noteq> CHR ''.''" using uw(2) by (auto simp: number_char_def)
  have hp: "\<not> HasPrefix u ''.''" using nc by (simp add: c)
  have lead: "leadingInt ?s 0 = Some (int n, u)"
    using leadingInt_digits [OF dig, of 0 u] n63 nc by (simp add: digits_val_decimal c)
  have num: "leadingNumber ?s = Some (int n, 0, 1, u)"
    using hp by (simp add: leadingNumber_def lead Let_def)
  have tw: "takeWhile (\<lambda>c. \<not> number_char c) u = u" using uw(2) by simp
  have "int n \<le> 2 ^ 63 div unit"
    using n uw(3) by (simp add: zdiv_mono1 div_le_mono pos_le_divide_eq) (metis less_imp_le nonzero_mult_div_cancel_right zdiv_mono1 less_irrefl)
  then have sc: "scaled (int n) 0 1 unit = Some (int n * unit)" by (simp add: scaled_def)
  have hd: "number_char (hd ?s)" using dig decimal_ne [of n] by (cases "decimal n") (auto simp: number_char_def)
  have "durations ?s 0 = durations [] (int n * unit)"
    using n uw hd by (subst durations.simps) (simp add: num tw u sc Let_def)
  also have "\<dots> = Some (int n * unit)" by (subst durations.simps) simp
  finally have d: "durations ?s 0 = Some (int n * unit)" .
  have pre: "\<not> HasPrefix ?s ''-''" "\<not> HasPrefix ?s ''+''"
    using decimal_sign [of n] by (cases "decimal n"; simp)+
  have "?s \<noteq> ''0''"
  proof
    assume eq: "?s = ''0''"
    then have "length (decimal n) + length u = 1" by (metis One_nat_def length_append list.size(3) list.size(4) add_0)
    with uw(1) show False using decimal_ne [of n] by (cases "decimal n"; cases u) auto
  qed
  then have "ParseDuration ?s = Some (int n * unit)"
    using n pre d by (simp add: ParseDuration_def Let_def)
  then show ?thesis by (simp add: envDuration_def env_parsed_def E)
qed

theorem env_duration_roundtrip_witness:
  "envDuration ((\<lambda>_. None)(''SEND_MAX_TTL'' := Some ''168h'')) ''SEND_MAX_TTL'' Hour = 168 * Hour"
proof -
  have "decimal 168 @ ''h'' = ''168h''" by (simp add: decimal.simps digit_char_def char_of_def)
  moreover have "map_of unitMap ''h'' = Some Hour" by (simp add: unitMap_def)
  ultimately show ?thesis
    using env_duration_roundtrip [of "''h''" Hour 168] by (simp add: Hour_def Minute_def Second_def)
qed

section \<open>Defaults\<close>

definition default_config :: Config where
  "default_config =
     \<lparr>Listen = '':8080'', PublicURL = [], DBPath = ''data/sends.db'', BlobDir = ''data/blobs'', RequestLog = [],
      DefaultTTL = 3600 * Second, MaxTTL = 86400 * Second, GrantTTL = 600 * Second, GCInterval = 120 * Second,
      MaxTotalBytes = 26214400, MaxPartBytes = 26214400, MaxPartCount = 64, RateCreatePerMin = 30,
      RateUploadPerMin = 240, RateWindow = 60 * Second, TrustProxy = False, TeamToken = []\<rparr>"

lemma Load_default: "Load (\<lambda>_. None) = Inr default_config"
  by (simp add: default_config_def Load_def env_string_def envDuration_def envInt64_def envInt_def envBool_def env_parsed_def validate_def
      hardMaxTTL_def Hour_def Minute_def Second_def)

theorem default_configuration:
  "Load (\<lambda>_. None) = Inr
     \<lparr>Listen = '':8080'', PublicURL = [], DBPath = ''data/sends.db'', BlobDir = ''data/blobs'', RequestLog = [],
      DefaultTTL = 3600 * Second, MaxTTL = 86400 * Second, GrantTTL = 600 * Second, GCInterval = 120 * Second,
      MaxTotalBytes = 26214400, MaxPartBytes = 26214400, MaxPartCount = 64, RateCreatePerMin = 30,
      RateUploadPerMin = 240, RateWindow = 60 * Second, TrustProxy = False, TeamToken = []\<rparr>"
  by (simp add: Load_default default_config_def)

section \<open>What the components get\<close>



end
