(* ===== verification/Timefmt.thy ===== *)
theory Timefmt
  imports Strconv
begin

text \<open>
  \<open>t.UTC().Format(time.RFC3339)\<close>: the proleptic Gregorian date of a count of nanoseconds
  since the Unix epoch. A date is counted in eras of 400 years that begin on a first of March.
\<close>

definition pad :: "nat \<Rightarrow> int \<Rightarrow> string" where
  "pad w n = (let s = decimal (nat \<bar>n\<bar>) in (if n < 0 then ''-'' else []) @ replicate (w - length s) CHR ''0'' @ s)"

definition civil :: "int \<Rightarrow> int \<times> int \<times> int" where
  "civil days =
     (let z = days + 719468; era = z div 146097; doe = z mod 146097;
          yoe = (doe - doe div 1460 + doe div 36524 - doe div 146096) div 365;
          doy = doe - (365 * yoe + yoe div 4 - yoe div 100);
          mp = (5 * doy + 2) div 153;
          d = doy - (153 * mp + 2) div 5 + 1;
          m = (if mp < 10 then mp + 3 else mp - 9)
      in (yoe + era * 400 + (if m \<le> 2 then 1 else 0), m, d))"

definition RFC3339 :: "int \<Rightarrow> string" where
  "RFC3339 t =
     (let (y, m, d) = civil (Unix t div 86400); s = Unix t mod 86400
      in pad 4 y @ ''-'' @ pad 2 m @ ''-'' @ pad 2 d @ ''T'' @ pad 2 (s div 3600) @ '':'' @ pad 2 (s div 60 mod 60)
         @ '':'' @ pad 2 (s mod 60) @ ''Z'')"

lemma RFC3339_examples:
  "RFC3339 (951782400 * Second) = ''2000-02-29T00:00:00Z''"
  "RFC3339 (1735689599 * Second) = ''2024-12-31T23:59:59Z''"
  by code_simp+

end
