(* ===== verification/Logx.thy ===== *)
theory Logx
  imports Timefmt
begin

text \<open>
  \<open>server/internal/logx/logx.go\<close>: the request log. The logger is what has been written to its
  writer, whose errors the source ignores; the mutex makes a line one atomic write.
\<close>

type_synonym Logger = string

definition New_logger :: Logger where
  "New_logger = []"

definition Milliseconds :: "int \<Rightarrow> int" where
  "Milliseconds d = d sdiv 1000000"

definition log_line :: "int \<Rightarrow> string \<Rightarrow> string \<Rightarrow> int \<Rightarrow> int \<Rightarrow> int \<Rightarrow> string \<Rightarrow> string" where
  "log_line now method path status bytes dur errCode =
     RFC3339 now @ '' '' @ method @ '' '' @ path @ '' '' @ Itoa status @ '' dur='' @ Itoa (Milliseconds dur) @ ''ms''
     @ (if bytes > 0 then '' bytes='' @ Itoa bytes else [])
     @ (if errCode \<noteq> [] then '' err='' @ errCode else [])
     @ [CHR 0x0A]"

definition Log_Request :: "int \<Rightarrow> string \<Rightarrow> string \<Rightarrow> int \<Rightarrow> int \<Rightarrow> int \<Rightarrow> string \<Rightarrow> string \<Rightarrow> string" where
  "Log_Request now method path status bytes dur errCode out = out @ log_line now method path status bytes dur errCode"

section \<open>Lines\<close>

definition newline :: char where
  "newline = CHR 0x0A"

lemma digit_char_no_nl: "0 \<le> d \<Longrightarrow> d < 10 \<Longrightarrow> digit_char d \<noteq> newline"
proof -
  assume "0 \<le> d" "d < 10"
  then have "isDigit (digit_char d)" by (simp add: digit_char_val)
  then show ?thesis by (auto simp: newline_def isDigit_def less_eq_char_def)
qed

lemma decimal_no_nl: "newline \<notin> set (decimal n)"
  using decimal_digits [of newline n] by (auto simp: newline_def isDigit_def less_eq_char_def)

lemma Itoa_no_nl: "newline \<notin> set (Itoa n)"
  using decimal_no_nl by (auto simp: Itoa_def newline_def)

lemma RFC3339_no_nl: "newline \<notin> set (RFC3339 t)"
  using decimal_no_nl by (auto simp: RFC3339_def pad_def newline_def Let_def split: prod.split)

text \<open>One request is one line when method, path and code hold no newline.\<close>

theorem log_line_is_one_line:
  assumes "newline \<notin> set method" "newline \<notin> set path" "newline \<notin> set errCode"
  shows "count_list (log_line now method path status bytes dur errCode) newline = 1
     \<and> last (log_line now method path status bytes dur errCode) = newline"
proof -
  have c: "count_list xs newline = 0" if "newline \<notin> set xs" for xs
    using that by (simp add: count_notin)
  show ?thesis
    using assms RFC3339_no_nl Itoa_no_nl by (simp add: log_line_def c) (simp add: newline_def)
qed

theorem log_line_is_one_line_witness:
  "count_list (log_line 0 ''GET'' ''/healthz'' 200 12 1500000 []) newline = 1"
  using log_line_is_one_line [of "''GET''" "''/healthz''" "[]"] by (simp add: newline_def)

text \<open>A path is logged as decoded: a newline in it starts a second line that the client wrote.\<close>

theorem path_newline_forges_a_line:
  "Log_Request now ''GET'' (''/s/x 404'' @ newline # forged) status bytes dur [] out =
     (out @ RFC3339 now @ '' GET /s/x 404'' @ [newline]) @ forged @ '' '' @ Itoa status @ '' dur='' @ Itoa (Milliseconds dur) @ ''ms''
       @ (if bytes > 0 then '' bytes='' @ Itoa bytes else []) @ [newline]"
  by (simp add: Log_Request_def log_line_def newline_def)

end
