(* ===== verification/Json.thy ===== *)
theory Json
  imports Strconv "HOL-Library.Monad_Syntax"
begin

text \<open>
  Package \<open>encoding/json\<close> as the server uses it: the encoder of response bodies and the
  parser behind \<open>Decoder.Decode\<close>, which reads one value from the front of the body and
  ignores what follows. Strings are byte strings; the decoder replaces what is not UTF-8 by
  U+FFFD, the encoder by its escape. A number is kept as its literal.
\<close>

datatype json =
    JNull
  | JBool bool
  | JNum string
  | JStr string
  | JArr "json list"
  | JObj "(string \<times> json) list"

section \<open>UTF-8\<close>

definition byte_in :: "nat \<Rightarrow> nat \<Rightarrow> char \<Rightarrow> bool" where
  "byte_in a b c \<longleftrightarrow> a \<le> of_char c \<and> of_char c \<le> b"

text \<open>The length of the UTF-8 sequence at the front of a string, 0 when it is not one.\<close>

definition utf8_len :: "string \<Rightarrow> nat" where
  "utf8_len s =
     (let tail = (\<lambda>n. length s > n \<and> (\<forall>c \<in> set (take n (tl s)). byte_in 128 191 c)) in
      if s = [] then 0
      else if byte_in 0 127 (hd s) then 1
      else if byte_in 194 223 (hd s) \<and> tail 1 then 2
      else if (byte_in 225 236 (hd s) \<or> byte_in 238 239 (hd s)
               \<or> (byte_in 224 224 (hd s) \<and> s \<noteq> [hd s] \<and> byte_in 160 191 (s ! 1))
               \<or> (byte_in 237 237 (hd s) \<and> s \<noteq> [hd s] \<and> byte_in 128 159 (s ! 1))) \<and> tail 2 then 3
      else if (byte_in 241 243 (hd s)
               \<or> (byte_in 240 240 (hd s) \<and> s \<noteq> [hd s] \<and> byte_in 144 191 (s ! 1))
               \<or> (byte_in 244 244 (hd s) \<and> s \<noteq> [hd s] \<and> byte_in 128 143 (s ! 1))) \<and> tail 3 then 4
      else 0)"

definition utf8_rune :: "nat \<Rightarrow> string" where
  "utf8_rune r =
     map char_of
       (if r < 128 then [r]
        else if r < 2048 then [192 + r div 64, 128 + r mod 64]
        else if r < 65536 then [224 + r div 4096, 128 + r div 64 mod 64, 128 + r mod 64]
        else [240 + r div 262144, 128 + r div 4096 mod 64, 128 + r div 64 mod 64, 128 + r mod 64])"

definition replacement :: nat where
  "replacement = 65533"

section \<open>Parsing\<close>

definition space :: "char \<Rightarrow> bool" where
  "space c \<longleftrightarrow> c = CHR '' '' \<or> c = CHR 0x09 \<or> c = CHR 0x0A \<or> c = CHR 0x0D"

definition hex_val :: "char \<Rightarrow> nat option" where
  "hex_val c =
     (if isDigit c then Some (of_char c - 48)
      else if CHR ''a'' \<le> c \<and> c \<le> CHR ''f'' then Some (of_char c - 87)
      else if CHR ''A'' \<le> c \<and> c \<le> CHR ''F'' then Some (of_char c - 55) else None)"

definition hex4 :: "string \<Rightarrow> nat option" where
  "hex4 s =
     (if length s < 4 then None
      else do { a \<leftarrow> hex_val (s ! 0); b \<leftarrow> hex_val (s ! 1); c \<leftarrow> hex_val (s ! 2); d \<leftarrow> hex_val (s ! 3);
                Some (a * 4096 + b * 256 + c * 16 + d) })"

text \<open>An escape, after its backslash: the bytes it stands for and its length.\<close>

definition simple_escapes :: "(char \<times> char) list" where
  "simple_escapes =
     [(CHR 0x22, CHR 0x22), (CHR 0x5C, CHR 0x5C), (CHR ''/'', CHR ''/''), (CHR ''b'', CHR 0x08),
      (CHR ''f'', CHR 0x0C), (CHR ''n'', CHR 0x0A), (CHR ''r'', CHR 0x0D), (CHR ''t'', CHR 0x09)]"

definition surrogate :: "nat \<Rightarrow> bool" where
  "surrogate r \<longleftrightarrow> 55296 \<le> r \<and> r < 57344"

definition escape :: "string \<Rightarrow> (string \<times> nat) option" where
  "escape s =
     (case s of
        [] \<Rightarrow> None
      | e # r \<Rightarrow>
          if e = CHR ''u'' then
            (case hex4 r of
               None \<Rightarrow> None
             | Some x \<Rightarrow>
                 if \<not> surrogate x then Some (utf8_rune x, 5)
                 else
                   (case (if HasPrefix (drop 4 r) [CHR 0x5C, CHR ''u''] then hex4 (drop 6 r) else None) of
                      Some y \<Rightarrow>
                        if x < 56320 \<and> 56320 \<le> y \<and> y < 57344
                        then Some (utf8_rune ((x - 55296) * 1024 + (y - 56320) + 65536), 11)
                        else Some (utf8_rune replacement, 5)
                    | None \<Rightarrow> Some (utf8_rune replacement, 5)))
          else (case map_of simple_escapes e of None \<Rightarrow> None | Some c \<Rightarrow> Some ([c], 1)))"

text \<open>The rest of a string literal after its opening quote.\<close>

function str_body :: "string \<Rightarrow> (string \<times> string) option" where
  "str_body s =
     (case s of
        [] \<Rightarrow> None
      | c # r \<Rightarrow>
          if c = CHR 0x22 then Some ([], r)
          else if c = CHR 0x5C then
            (case escape r of
               None \<Rightarrow> None
             | Some (t, n) \<Rightarrow> map_option (\<lambda>(u, q). (t @ u, q)) (str_body (drop n r)))
          else if c < CHR '' '' then None
          else if utf8_len s = 0 then map_option (\<lambda>(u, q). (utf8_rune replacement @ u, q)) (str_body r)
          else map_option (\<lambda>(u, q). (take (utf8_len s) s @ u, q)) (str_body (drop (utf8_len s) s)))"
  by pat_completeness auto
termination
  by (relation "measure length") (auto simp: le_imp_less_Suc)

declare str_body.simps [simp del]

definition skip :: "string \<Rightarrow> string" where
  "skip s = dropWhile space s"

definition expect :: "char \<Rightarrow> string \<Rightarrow> string option" where
  "expect c s = (case skip s of [] \<Rightarrow> None | x # r \<Rightarrow> if x = c then Some r else None)"

definition word_value :: "string \<Rightarrow> json \<Rightarrow> string \<Rightarrow> (json \<times> string) option" where
  "word_value w v s = (if HasPrefix s w then Some (v, drop (length w) s) else None)"

text \<open>A number literal: sign, integer part, fraction and exponent, each as far as it goes.\<close>

definition digits_of :: "string \<Rightarrow> string \<times> string" where
  "digits_of s = (takeWhile isDigit s, dropWhile isDigit s)"

definition exponent_part :: "string \<Rightarrow> (string \<times> string) option" where
  "exponent_part s =
     (if HasPrefix s ''e'' \<or> HasPrefix s ''E'' then
        (let t = tl s;
             (sg, t') = (if HasPrefix t ''+'' \<or> HasPrefix t ''-'' then ([hd t], tl t) else ([], t));
             (ds, r) = digits_of t'
         in if ds = [] then None else Some (hd s # sg @ ds, r))
      else Some ([], s))"

definition fraction_part :: "string \<Rightarrow> (string \<times> string) option" where
  "fraction_part s =
     (if HasPrefix s ''.'' then
        (let (ds, r) = digits_of (tl s) in if ds = [] then None else Some (CHR ''.'' # ds, r))
      else Some ([], s))"

definition number_value :: "string \<Rightarrow> (json \<times> string) option" where
  "number_value s =
     (let (sg, t) = (if HasPrefix s ''-'' then (''-'', tl s) else ([], s));
          (ds, t1) = (if HasPrefix t ''0'' then (''0'', tl t) else digits_of t)
      in if ds = [] then None
         else do { (fr, t2) \<leftarrow> fraction_part t1; (ex, t3) \<leftarrow> exponent_part t2; Some (JNum (sg @ ds @ fr @ ex), t3) })"

definition maxNestingDepth :: nat where
  "maxNestingDepth = 10000"

text \<open>
  \<open>parse_value fuel depth s\<close>: a value at the front of \<open>s\<close>, inside \<open>depth\<close> arrays and
  objects, and what follows it. Every level consumes a byte, so the length of the input is
  fuel enough.
\<close>

fun parse_value :: "nat \<Rightarrow> nat \<Rightarrow> string \<Rightarrow> (json \<times> string) option"
and parse_elems :: "nat \<Rightarrow> nat \<Rightarrow> string \<Rightarrow> (json list \<times> string) option"
and parse_members :: "nat \<Rightarrow> nat \<Rightarrow> string \<Rightarrow> ((string \<times> json) list \<times> string) option" where
  "parse_value 0 d s = None"
| "parse_value (Suc n) d s =
     (case skip s of
        [] \<Rightarrow> None
      | c # r \<Rightarrow>
          if c = CHR ''{'' then
            (if d \<ge> maxNestingDepth then None
             else (case expect CHR ''}'' r of
                     Some q \<Rightarrow> Some (JObj [], q)
                   | None \<Rightarrow> do { (ms, q) \<leftarrow> parse_members n (Suc d) r; Some (JObj ms, q) }))
          else if c = CHR ''['' then
            (if d \<ge> maxNestingDepth then None
             else (case expect CHR '']'' r of
                     Some q \<Rightarrow> Some (JArr [], q)
                   | None \<Rightarrow> do { (vs, q) \<leftarrow> parse_elems n (Suc d) r; Some (JArr vs, q) }))
          else if c = CHR 0x22 then do { (t, q) \<leftarrow> str_body r; Some (JStr t, q) }
          else if c = CHR ''t'' then word_value ''true'' (JBool True) (c # r)
          else if c = CHR ''f'' then word_value ''false'' (JBool False) (c # r)
          else if c = CHR ''n'' then word_value ''null'' JNull (c # r)
          else number_value (c # r))"
| "parse_elems 0 d s = None"
| "parse_elems (Suc n) d s =
     do { (v, r) \<leftarrow> parse_value n d s;
          (case expect CHR '']'' r of
             Some q \<Rightarrow> Some ([v], q)
           | None \<Rightarrow> do { r' \<leftarrow> expect CHR '','' r; (vs, q) \<leftarrow> parse_elems n d r'; Some (v # vs, q) }) }"
| "parse_members 0 d s = None"
| "parse_members (Suc n) d s =
     do { r \<leftarrow> expect CHR 0x22 s; (k, r1) \<leftarrow> str_body r; r2 \<leftarrow> expect CHR '':'' r1; (v, r3) \<leftarrow> parse_value n d r2;
          (case expect CHR ''}'' r3 of
             Some q \<Rightarrow> Some ([(k, v)], q)
           | None \<Rightarrow> do { r4 \<leftarrow> expect CHR '','' r3; (ms, q) \<leftarrow> parse_members n d r4; Some ((k, v) # ms, q) }) }"

definition read_value :: "string \<Rightarrow> json option" where
  "read_value s = map_option fst (parse_value (2 * length s + 1) 0 s)"

section \<open>Encoding\<close>

definition uescape :: "nat \<Rightarrow> string" where
  "uescape r = [CHR 0x5C, CHR ''u''] @
     map (\<lambda>d. hex_digits ! d) [r div 4096 mod 16, r div 256 mod 16, r div 16 mod 16, r mod 16]"

text \<open>The escape of a byte below 128, or the byte itself.\<close>

definition encode_ascii :: "char \<Rightarrow> string" where
  "encode_ascii c =
     (if c = CHR 0x22 \<or> c = CHR 0x5C then [CHR 0x5C, c]
      else if c = CHR 0x08 then [CHR 0x5C, CHR ''b'']
      else if c = CHR 0x0C then [CHR 0x5C, CHR ''f'']
      else if c = CHR 0x0A then [CHR 0x5C, CHR ''n'']
      else if c = CHR 0x0D then [CHR 0x5C, CHR ''r'']
      else if c = CHR 0x09 then [CHR 0x5C, CHR ''t'']
      else if c < CHR '' '' \<or> c = CHR ''<'' \<or> c = CHR ''>'' \<or> c = CHR ''&'' then uescape (of_char c)
      else [c])"

function encode_body :: "string \<Rightarrow> string" where
  "encode_body s =
     (case s of
        [] \<Rightarrow> []
      | c # r \<Rightarrow>
          if byte_in 0 127 c then encode_ascii c @ encode_body r
          else if utf8_len s = 0 then uescape replacement @ encode_body r
          else (let t = take (utf8_len s) s in
                (if t = utf8_rune 8232 then uescape 8232 else if t = utf8_rune 8233 then uescape 8233 else t)
                @ encode_body (drop (utf8_len s) s)))"
  by pat_completeness auto
termination
  by (relation "measure length") (auto simp: le_imp_less_Suc)

declare encode_body.simps [simp del]

definition encode_string :: "string \<Rightarrow> string" where
  "encode_string s = CHR 0x22 # encode_body s @ [CHR 0x22]"

fun encode_json :: "json \<Rightarrow> string" where
  "encode_json JNull = ''null''"
| "encode_json (JBool b) = (if b then ''true'' else ''false'')"
| "encode_json (JNum n) = n"
| "encode_json (JStr s) = encode_string s"
| "encode_json (JArr vs) = ''['' @ Join (map encode_json vs) '','' @ '']''"
| "encode_json (JObj ms) = ''{'' @ Join (map (\<lambda>(k, v). encode_string k @ '':'' @ encode_json v) ms) '','' @ ''}''"

end
