(* ===== verification/Http.thy ===== *)
theory Http
  imports Config Filepath Fsblob Logx Json
begin

text \<open>
  The parts of package \<open>net/http\<close> under the API: the request a handler sees, the response
  writer, and the request multiplexer with its method and wildcard patterns. Header values are
  kept under their canonical names. The body of a redirect is left empty.
\<close>

section \<open>Requests\<close>

record request =
  r_method :: string
  r_escaped :: string
  r_query :: string
  r_headers :: "(string \<times> string) list"
  r_body :: reader
  r_host :: string
  r_remote :: string
  r_tls :: bool

definition Header_Get :: "request \<Rightarrow> string \<Rightarrow> string" where
  "Header_Get r name = (case map_of (r_headers r) name of None \<Rightarrow> [] | Some v \<Rightarrow> v)"

text \<open>\<open>url.PathUnescape\<close>, on an escaped path that \<open>net/url\<close> has accepted.\<close>

fun PathUnescape :: "string \<Rightarrow> string" where
  "PathUnescape (p # a # b # s) =
     (if p = CHR ''%'' then
        (case (hex_val a, hex_val b) of
           (Some x, Some y) \<Rightarrow> char_of (16 * x + y) # PathUnescape s
         | _ \<Rightarrow> p # PathUnescape (a # b # s))
      else p # PathUnescape (a # b # s))"
| "PathUnescape s = s"

definition URL_Path :: "request \<Rightarrow> string" where
  "URL_Path r = PathUnescape (r_escaped r)"

section \<open>The response writer\<close>

text \<open>
  \<open>wire\<close> is what \<open>net/http\<close> sends: a status is fixed by the first \<open>WriteHeader\<close> or
  \<open>Write\<close>, and the body of the answer to a HEAD request is dropped.
\<close>

record wire =
  w_head :: bool
  w_status :: int
  w_headers :: "(string \<times> string) list"
  w_body :: string

definition new_wire :: "request \<Rightarrow> wire" where
  "new_wire r = \<lparr>w_head = (r_method r = ''HEAD''), w_status = 0, w_headers = [], w_body = []\<rparr>"

definition wire_set_header :: "string \<Rightarrow> string \<Rightarrow> wire \<Rightarrow> wire" where
  "wire_set_header k v w = (if w_status w = 0 then w\<lparr>w_headers := AList.update k v (w_headers w)\<rparr> else w)"

definition wire_header :: "int \<Rightarrow> wire \<Rightarrow> wire" where
  "wire_header code w = (if w_status w = 0 then w\<lparr>w_status := code\<rparr> else w)"

definition wire_write :: "string \<Rightarrow> wire \<Rightarrow> wire" where
  "wire_write b w =
     (let w' = wire_header 200 w in if w_head w then w' else w'\<lparr>w_body := w_body w' @ b\<rparr>)"

section \<open>Patterns\<close>

datatype target =
    Health
  | Create
  | Upload string string
  | Finalize string
  | Redeem string
  | Download string string
  | Meta string
  | LinkPage string
  | Landing
  | MovedTo string
  | NotFound
  | NotAllowed "string list"

text \<open>
  The segments of a clean escaped path, each unescaped; a trailing slash is the segment \<open>/\<close>,
  which a literal may match and a wildcard may not.
\<close>

definition segments :: "string \<Rightarrow> string list" where
  "segments p = map (\<lambda>w. if w = [] then ''/'' else PathUnescape w) (tl (splitc CHR ''/'' p))"

text \<open>\<open>cleanPath\<close> keeps a trailing slash.\<close>

definition cleanPath :: "string \<Rightarrow> string" where
  "cleanPath p =
     (if p = [] then ''/''
      else
        (let q = (if HasPrefix p ''/'' then p else ''/'' @ p); np = Clean q
         in if last q = CHR ''/'' \<and> np \<noteq> ''/'' then np @ ''/'' else np))"

datatype pat = Lit string | Wild

fun match_pats :: "pat list \<Rightarrow> string list \<Rightarrow> string list option" where
  "match_pats [] [] = Some []"
| "match_pats (Lit l # ps) (w # ws) = (if w = l then match_pats ps ws else None)"
| "match_pats (Wild # ps) (w # ws) = (if w = ''/'' then None else map_option (Cons w) (match_pats ps ws))"
| "match_pats _ _ = None"

type_synonym pattern = "string \<times> pat list \<times> (string list \<Rightarrow> target)"

definition method_matches :: "string \<Rightarrow> string \<Rightarrow> bool" where
  "method_matches m pm \<longleftrightarrow> m = pm \<or> (m = ''HEAD'' \<and> pm = ''GET'')"

fun find_pattern :: "string \<Rightarrow> string list \<Rightarrow> pattern list \<Rightarrow> target option" where
  "find_pattern m ws [] = None"
| "find_pattern m ws ((pm, ps, f) # rest) =
     (case match_pats ps ws of
        Some vs \<Rightarrow> if method_matches m pm then Some (f vs) else find_pattern m ws rest
      | None \<Rightarrow> find_pattern m ws rest)"

definition allowed_methods :: "string list \<Rightarrow> pattern list \<Rightarrow> string list" where
  "allowed_methods ws pats =
     sort (remdups (concat (map (\<lambda>(pm, ps, f). if match_pats ps ws = None then []
                                  else if pm = ''GET'' then [pm, ''HEAD''] else [pm]) pats)))"

definition route_request :: "pattern list \<Rightarrow> request \<Rightarrow> target" where
  "route_request pats r =
     (let path = (if r_method r = ''CONNECT'' then r_escaped r else cleanPath (r_escaped r));
          ws = segments path
      in if path \<noteq> r_escaped r then MovedTo path
         else
           (case find_pattern (r_method r) ws pats of
              Some t \<Rightarrow> t
            | None \<Rightarrow> (let ms = allowed_methods ws pats in if ms = [] then NotFound else NotAllowed ms)))"

end
