(* ===== verification/ApiTypes.thy ===== *)
theory ApiTypes
  imports Http Ratelimit Interfaces
begin

text \<open>
  The types of package \<open>api\<close>: the interface \<open>SendStore\<close> of \<open>store.go\<close> as a record of
  functions over the state of its implementation, the server, the response writers, and the
  body of a create request with the way \<open>encoding/json\<close> fills it in.
\<close>

section \<open>The server\<close>

record 'c send_ops =
  sd_CreateSend :: "env \<Rightarrow> CreateSendInput \<Rightarrow> 'c \<Rightarrow> SendRecord result \<times> 'c"
  sd_PutPart :: "env \<Rightarrow> string \<Rightarrow> string \<Rightarrow> reader \<Rightarrow> PartMeta \<Rightarrow> 'c \<Rightarrow> int result \<times> 'c"
  sd_FinalizeSend :: "env \<Rightarrow> string \<Rightarrow> 'c \<Rightarrow> unit result \<times> 'c"
  sd_RedeemSend :: "env \<Rightarrow> string \<Rightarrow> 'c \<Rightarrow> RedeemGrant result \<times> 'c"
  sd_GetPart :: "env \<Rightarrow> string \<Rightarrow> string \<Rightarrow> string \<Rightarrow> 'c \<Rightarrow> handle result \<times> 'c"
  sd_GetSendMeta :: "string \<Rightarrow> 'c \<Rightarrow> SendMeta result \<times> 'c"
  sd_DeleteExpired :: "int \<Rightarrow> 'c \<Rightarrow> nat result \<times> 'c"

record 'c server =
  sv_store :: 'c
  sv_cfg :: Config
  sv_log :: "string option"
  sv_createLimiter :: "limiter option"
  sv_uploadLimiter :: "limiter option"

text \<open>What a request takes from its surroundings: the store's, and the times it begins and ends.\<close>

record http_env =
  he_env :: env
  he_start :: int
  he_end :: int

section \<open>Response writers\<close>

record status_writer =
  sw_wire :: wire
  sw_status :: int
  sw_bytes :: int
  sw_errCode :: string

datatype ResponseWriter = Plain wire | Status status_writer

fun wire_of :: "ResponseWriter \<Rightarrow> wire" where
  "wire_of (Plain w) = w"
| "wire_of (Status sw) = sw_wire sw"

fun SetHeader :: "string \<Rightarrow> string \<Rightarrow> ResponseWriter \<Rightarrow> ResponseWriter" where
  "SetHeader k v (Plain w) = Plain (wire_set_header k v w)"
| "SetHeader k v (Status sw) = Status (sw\<lparr>sw_wire := wire_set_header k v (sw_wire sw)\<rparr>)"

fun WriteHeader :: "int \<Rightarrow> ResponseWriter \<Rightarrow> ResponseWriter" where
  "WriteHeader code (Plain w) = Plain (wire_header code w)"
| "WriteHeader code (Status sw) = Status (sw\<lparr>sw_status := code, sw_wire := wire_header code (sw_wire sw)\<rparr>)"

fun Write :: "string \<Rightarrow> ResponseWriter \<Rightarrow> ResponseWriter" where
  "Write b (Plain w) = Plain (wire_write b w)"
| "Write b (Status sw) =
     Status (sw\<lparr>sw_status := (if sw_status sw = 0 then 200 else sw_status sw), sw_wire := wire_write b (sw_wire sw),
                sw_bytes := sw_bytes sw + int (length b)\<rparr>)"

definition statusOr200 :: "status_writer \<Rightarrow> int" where
  "statusOr200 sw = (if sw_status sw = 0 then 200 else sw_status sw)"

section \<open>The body of a create request\<close>

record part_decl =
  pd_PartID :: string
  pd_EncryptedSize :: int
  pd_SHA256 :: string

record createReq =
  cr_Version :: string
  cr_OneTime :: "bool option"
  cr_TTLSeconds :: int
  cr_Parts :: "part_decl list"

definition zero_part :: part_decl where
  "zero_part = \<lparr>pd_PartID = [], pd_EncryptedSize = 0, pd_SHA256 = []\<rparr>"

definition zero_req :: createReq where
  "zero_req = \<lparr>cr_Version = [], cr_OneTime = None, cr_TTLSeconds = 0, cr_Parts = []\<rparr>"

text \<open>
  A key names a field by its exact name, else by its name up to Unicode case folding, in which
  U+017F is an S and U+212A a K.
\<close>

fun fold_name :: "string \<Rightarrow> string" where
  "fold_name (a # b # c # s) =
     (if [a, b, c] = [CHR 0xE2, CHR 0x84, CHR 0xAA] then CHR ''K'' # fold_name s
      else if [a, b] = [CHR 0xC5, CHR 0xBF] then CHR ''S'' # fold_name (c # s)
      else (if CHR ''a'' \<le> a \<and> a \<le> CHR ''z'' then char_of (of_char a - 32 :: nat) else a) # fold_name (b # c # s))"
| "fold_name [a, b] =
     (if [a, b] = [CHR 0xC5, CHR 0xBF] then ''S''
      else map (\<lambda>c. if CHR ''a'' \<le> c \<and> c \<le> CHR ''z'' then char_of (of_char c - 32 :: nat) else c) [a, b])"
| "fold_name s = map (\<lambda>c. if CHR ''a'' \<le> c \<and> c \<le> CHR ''z'' then char_of (of_char c - 32 :: nat) else c) s"

definition field_of :: "string list \<Rightarrow> string \<Rightarrow> string option" where
  "field_of ns key = (if key \<in> set ns then Some key else List.find (\<lambda>n. fold_name n = fold_name key) ns)"

text \<open>A value that does not fit its field makes the whole decoding fail; null leaves most fields alone.\<close>

definition set_string :: "json \<Rightarrow> string \<Rightarrow> string option" where
  "set_string v old = (case v of JStr s \<Rightarrow> Some s | JNull \<Rightarrow> Some old | _ \<Rightarrow> None)"

definition set_int :: "json \<Rightarrow> int \<Rightarrow> int option" where
  "set_int v old = (case v of JNum s \<Rightarrow> ParseInt s | JNull \<Rightarrow> Some old | _ \<Rightarrow> None)"

definition set_bool :: "json \<Rightarrow> bool option \<Rightarrow> bool option option" where
  "set_bool v old = (case v of JBool b \<Rightarrow> Some (Some b) | JNull \<Rightarrow> Some None | _ \<Rightarrow> None)"

fun set_part :: "(string \<times> json) list \<Rightarrow> part_decl \<Rightarrow> part_decl option" where
  "set_part [] p = Some p"
| "set_part ((k, v) # ms) p =
     (let f = field_of [''part_id'', ''encrypted_size'', ''sha256''] k in
      if f = Some ''part_id'' then do { x \<leftarrow> set_string v (pd_PartID p); set_part ms (p\<lparr>pd_PartID := x\<rparr>) }
      else if f = Some ''encrypted_size'' then do { x \<leftarrow> set_int v (pd_EncryptedSize p); set_part ms (p\<lparr>pd_EncryptedSize := x\<rparr>) }
      else if f = Some ''sha256'' then do { x \<leftarrow> set_string v (pd_SHA256 p); set_part ms (p\<lparr>pd_SHA256 := x\<rparr>) }
      else set_part ms p)"

definition decode_part :: "json \<Rightarrow> part_decl \<Rightarrow> part_decl option" where
  "decode_part v old = (case v of JObj ms \<Rightarrow> set_part ms old | JNull \<Rightarrow> Some old | _ \<Rightarrow> None)"

text \<open>
  A slice is decoded into its backing array, whose elements keep what an earlier value of the
  same field left in them.
\<close>

fun decode_elems :: "json list \<Rightarrow> part_decl list \<Rightarrow> part_decl list option" where
  "decode_elems [] back = Some []"
| "decode_elems (v # vs) back =
     do { p \<leftarrow> decode_part v (case back of [] \<Rightarrow> zero_part | b # _ \<Rightarrow> b);
          ps \<leftarrow> decode_elems vs (tl back);
          Some (p # ps) }"

fun set_req :: "(string \<times> json) list \<Rightarrow> createReq \<Rightarrow> part_decl list \<Rightarrow> createReq option" where
  "set_req [] q back = Some q"
| "set_req ((k, v) # ms) q back =
     (let f = field_of [''version'', ''one_time'', ''ttl_seconds'', ''parts''] k in
      if f = Some ''version'' then do { x \<leftarrow> set_string v (cr_Version q); set_req ms (q\<lparr>cr_Version := x\<rparr>) back }
      else if f = Some ''one_time'' then do { x \<leftarrow> set_bool v (cr_OneTime q); set_req ms (q\<lparr>cr_OneTime := x\<rparr>) back }
      else if f = Some ''ttl_seconds'' then do { x \<leftarrow> set_int v (cr_TTLSeconds q); set_req ms (q\<lparr>cr_TTLSeconds := x\<rparr>) back }
      else if f = Some ''parts'' then
        (case v of
           JNull \<Rightarrow> set_req ms (q\<lparr>cr_Parts := []\<rparr>) []
         | JArr [] \<Rightarrow> set_req ms (q\<lparr>cr_Parts := []\<rparr>) []
         | JArr vs \<Rightarrow>
             do { ps \<leftarrow> decode_elems vs back; set_req ms (q\<lparr>cr_Parts := ps\<rparr>) (ps @ drop (length ps) back) }
         | _ \<Rightarrow> None)
      else set_req ms q back)"

definition is_container :: "json \<Rightarrow> bool" where
  "is_container v = (case v of JObj _ \<Rightarrow> True | JArr _ \<Rightarrow> True | _ \<Rightarrow> False)"

text \<open>
  The body, cut off by its limit, ends in EOF or fails; a value other than an array or an
  object ends only with the byte after it or with EOF.
\<close>

definition decode_with :: "nat \<Rightarrow> string \<times> bool \<Rightarrow> createReq option" where
  "decode_with fuel src =
     (case parse_value fuel 0 (fst src) of
        None \<Rightarrow> None
      | Some (v, rest) \<Rightarrow>
          if snd src \<and> rest = [] \<and> \<not> is_container v then None
          else (case v of JObj ms \<Rightarrow> set_req ms zero_req [] | JNull \<Rightarrow> Some zero_req | _ \<Rightarrow> None))"

definition decode_body :: "string \<times> bool \<Rightarrow> createReq option" where
  "decode_body src = decode_with (2 * length (fst src) + 1) src"

end
