(* ===== verification/Api.thy ===== *)
theory Api
  imports ApiTypes
begin

text \<open>
  \<open>server/internal/api\<close>: \<open>errors.go\<close>, \<open>server.go\<close> and \<open>handlers.go\<close>. A handler takes the
  surroundings of the request, the request and the server, writes to a \<open>ResponseWriter\<close>, and
  returns whether it panicked, the server and the writer. Writes to the connection never fail;
  an error of a write is ignored by the source.
\<close>

type_synonym 'c exchange = "bool \<times> 'c server \<times> ResponseWriter"
type_synonym 'c handler = "http_env \<Rightarrow> request \<Rightarrow> 'c server \<Rightarrow> ResponseWriter \<Rightarrow> 'c exchange"

definition finish :: "'c server \<Rightarrow> ResponseWriter \<Rightarrow> 'c exchange" where
  "finish sv w = (False, sv, w)"

section \<open>errors.go\<close>

definition errorBody :: "string \<Rightarrow> string \<Rightarrow> json" where
  "errorBody code msg = JObj [(''error_code'', JStr code), (''message'', JStr msg)]"

definition writeJSON :: "int \<Rightarrow> json \<Rightarrow> ResponseWriter \<Rightarrow> ResponseWriter" where
  "writeJSON status v w =
     Write (encode_json v @ [CHR 0x0A]) (WriteHeader status (SetHeader ''Content-Type'' ''application/json'' w))"

fun record_code :: "string \<Rightarrow> ResponseWriter \<Rightarrow> ResponseWriter" where
  "record_code code (Plain w) = Plain w"
| "record_code code (Status sw) = Status (sw\<lparr>sw_errCode := code\<rparr>)"

definition writeError :: "int \<Rightarrow> string \<Rightarrow> string \<Rightarrow> ResponseWriter \<Rightarrow> ResponseWriter" where
  "writeError status code msg w = writeJSON status (errorBody code msg) (record_code code w)"

fun mapStoreError :: "store_error \<Rightarrow> int \<times> string \<times> string" where
  "mapStoreError ErrNotFound = (404, ''SEND_NOT_FOUND'', ''send not found'')"
| "mapStoreError ErrNotFinalized = (409, ''SEND_NOT_FINALIZED'', ''send is not finalized'')"
| "mapStoreError ErrConflict = (409, ''SEND_FINALIZED'', ''send is no longer accepting uploads'')"
| "mapStoreError ErrAlreadyRedeemed = (410, ''SEND_ALREADY_REDEEMED'', ''send has already been redeemed'')"
| "mapStoreError ErrExpired = (410, ''SEND_EXPIRED'', ''send has expired'')"
| "mapStoreError ErrIncomplete = (400, ''INCOMPLETE'', ''not all declared parts were uploaded'')"
| "mapStoreError ErrUnknownPart = (400, ''BAD_REQUEST'', ''unknown part id'')"
| "mapStoreError ErrIntegrity = (422, ''INTEGRITY_FAILED'', ''ciphertext failed integrity check'')"
| "mapStoreError ErrPartTooLarge = (413, ''PAYLOAD_TOO_LARGE'', ''part exceeds the size cap'')"
| "mapStoreError ErrInvalidGrant = (403, ''INVALID_REDEEM'', ''missing, invalid, or expired redeem grant'')"
| "mapStoreError _ = (500, ''STORAGE_ERROR'', ''internal error'')"

definition writeStoreError :: "store_error \<Rightarrow> ResponseWriter \<Rightarrow> ResponseWriter" where
  "writeStoreError e w = (let (status, code, msg) = mapStoreError e in writeError status code msg w)"

text \<open>A call of the store: a panic unwinds, an error goes to the handler's error branch.\<close>

definition store_call ::
  "('c \<Rightarrow> 'a result \<times> 'c) \<Rightarrow> (store_error \<Rightarrow> ResponseWriter \<Rightarrow> ResponseWriter) \<Rightarrow> 'c server \<Rightarrow> ResponseWriter
   \<Rightarrow> ('a \<Rightarrow> 'c server \<Rightarrow> 'c exchange) \<Rightarrow> 'c exchange" where
  "store_call f onerr sv w k =
     (case f (sv_store sv) of
        (Inl (Panicked _), c) \<Rightarrow> (True, sv\<lparr>sv_store := c\<rparr>, w)
      | (Inl e, c) \<Rightarrow> finish (sv\<lparr>sv_store := c\<rparr>) (onerr e w)
      | (Inr x, c) \<Rightarrow> k x (sv\<lparr>sv_store := c\<rparr>))"

section \<open>server.go\<close>

text \<open>\<open>strings.TrimSpace\<close> trims the Unicode white space, here by its UTF-8 sequences.\<close>

definition white_spaces :: "string list" where
  "white_spaces =
     map (\<lambda>n. [char_of (n :: nat)]) [9, 10, 11, 12, 13, 32]
     @ [[CHR 0xC2, CHR 0x85], [CHR 0xC2, CHR 0xA0], [CHR 0xE1, CHR 0x9A, CHR 0x80]]
     @ map (\<lambda>n. [CHR 0xE2, CHR 0x80, char_of (n :: nat)]) ([128..<139] @ [168, 169, 175])
     @ [[CHR 0xE2, CHR 0x81, CHR 0x9F], [CHR 0xE3, CHR 0x80, CHR 0x80]]"

fun trim_front :: "string list \<Rightarrow> nat \<Rightarrow> string \<Rightarrow> string" where
  "trim_front ws 0 s = s"
| "trim_front ws (Suc n) s =
     (case List.find (HasPrefix s) ws of None \<Rightarrow> s | Some w \<Rightarrow> trim_front ws n (drop (length w) s))"

definition TrimSpace :: "string \<Rightarrow> string" where
  "TrimSpace s =
     (let t = trim_front white_spaces (length s) s
      in rev (trim_front (map rev white_spaces) (length t) (rev t)))"

definition without_port :: "string \<Rightarrow> string" where
  "without_port ip = (if CHR '':'' \<in> set ip then rev (tl (dropWhile (\<lambda>c. c \<noteq> CHR '':'') (rev ip))) else ip)"

definition clientKey :: "Config \<Rightarrow> request \<Rightarrow> string" where
  "clientKey cfg r =
     (let xff = Header_Get r ''X-Forwarded-For'';
          ip0 = (if TrustProxy cfg \<and> xff \<noteq> [] then TrimSpace (takeWhile (\<lambda>c. c \<noteq> CHR '','') xff) else []);
          ip = (if ip0 = [] then without_port (r_remote r) else ip0)
      in EncodeToString (take 8 (Sum256 ip)))"

text \<open>\<open>allow\<close> draws on the limiter of its bucket; without a limiter everything passes.\<close>

definition limit_by :: "string \<Rightarrow> int \<Rightarrow> limiter option \<Rightarrow> bool \<times> limiter option" where
  "limit_by key now ol =
     (case ol of None \<Rightarrow> (True, None) | Some l \<Rightarrow> (let (ok, l') = Allow key now l in (ok, Some l')))"

definition allow :: "http_env \<Rightarrow> request \<Rightarrow> string \<Rightarrow> 'c server \<Rightarrow> bool \<times> 'c server" where
  "allow h r bucket sv =
     (let key = clientKey (sv_cfg sv) r in
      if bucket \<in> {''create'', ''finalize'', ''redeem''} then
        (let (ok, l) = limit_by key (he_start h) (sv_createLimiter sv) in (ok, sv\<lparr>sv_createLimiter := l\<rparr>))
      else if bucket \<in> {''upload'', ''download'', ''meta''} then
        (let (ok, l) = limit_by key (he_start h) (sv_uploadLimiter sv) in (ok, sv\<lparr>sv_uploadLimiter := l\<rparr>))
      else (True, sv))"

definition rate_limited :: "ResponseWriter \<Rightarrow> ResponseWriter" where
  "rate_limited w = writeError 429 ''RATE_LIMITED'' ''rate limit exceeded'' w"

definition limited_handler :: "string \<Rightarrow> 'c handler \<Rightarrow> 'c handler" where
  "limited_handler bucket f h r sv w =
     (let (ok, sv') = allow h r bucket sv in if ok then f h r sv' w else finish sv' (rate_limited w))"

definition TrimRight :: "char \<Rightarrow> string \<Rightarrow> string" where
  "TrimRight c s = rev (dropWhile (\<lambda>x. x = c) (rev s))"

definition publicBase :: "Config \<Rightarrow> request \<Rightarrow> string" where
  "publicBase cfg r =
     (if PublicURL cfg \<noteq> [] then TrimRight CHR ''/'' (PublicURL cfg)
      else (if r_tls r \<or> fold_name (Header_Get r ''X-Forwarded-Proto'') = fold_name ''https'' then ''https'' else ''http'')
           @ ''://'' @ r_host r)"

definition bearerToken :: "request \<Rightarrow> string" where
  "bearerToken r =
     (let h = Header_Get r ''Authorization'' in if HasPrefix h ''Bearer '' then TrimPrefix h ''Bearer '' else [])"

definition requireTeamToken :: "'c handler \<Rightarrow> 'c handler" where
  "requireTeamToken next h r sv w =
     (if TeamToken (sv_cfg sv) = [] then next h r sv w
      else if bearerToken r \<noteq> TeamToken (sv_cfg sv)
      then finish sv (writeError 401 ''UNAUTHORIZED'' ''team token required'' w)
      else next h r sv w)"

section \<open>handlers.go\<close>

definition maxCreateBody :: int where
  "maxCreateBody = 2 ^ 20"

definition validSHA256Hex :: "string \<Rightarrow> bool" where
  "validSHA256Hex s \<longleftrightarrow>
     length s = 64 \<and> (\<forall>c \<in> set s. (CHR ''0'' \<le> c \<and> c \<le> CHR ''9'') \<or> (CHR ''a'' \<le> c \<and> c \<le> CHR ''f''))"

definition handleHealth :: "'c handler" where
  "handleHealth h r sv w = finish sv (writeJSON 200 (JObj [(''ok'', JBool True)]) w)"

definition bad_request :: "string \<Rightarrow> int \<times> string \<times> string" where
  "bad_request msg = (400, ''BAD_REQUEST'', msg)"

definition too_large :: "string \<Rightarrow> int \<times> string \<times> string" where
  "too_large msg = (413, ''PAYLOAD_TOO_LARGE'', msg)"

text \<open>The loop over the declared parts.\<close>

fun check_parts :: "Config \<Rightarrow> part_decl list \<Rightarrow> string list \<Rightarrow> int \<Rightarrow> (int \<times> string \<times> string) + (PartMeta list \<times> int)" where
  "check_parts cfg [] seen tot = Inr ([], tot)"
| "check_parts cfg (p # ps) seen tot =
     (if pd_PartID p = [] \<or> pd_SHA256 p = [] \<or> pd_EncryptedSize p \<le> 0 then Inl (bad_request ''invalid part declaration'')
      else if pd_PartID p \<in> set seen then Inl (bad_request ''duplicate part id'')
      else if pd_EncryptedSize p > MaxPartBytes cfg then Inl (too_large ''part exceeds the size cap'')
      else
        (case check_parts cfg ps (pd_PartID p # seen) (add64 tot (pd_EncryptedSize p)) of
           Inl e \<Rightarrow> Inl e
         | Inr (ms, t) \<Rightarrow>
             Inr (\<lparr>PartID = pd_PartID p, EncryptedSize = pd_EncryptedSize p, SHA256 = pd_SHA256 p\<rparr> # ms, t)))"

definition effective_ttl :: "Config \<Rightarrow> createReq \<Rightarrow> int" where
  "effective_ttl cfg q = (let ttl = mul64 (cr_TTLSeconds q) Second in if ttl \<le> 0 then DefaultTTL cfg else ttl)"

text \<open>\<open>handleCreate\<close> up to the call of the store: an error response, or the input of that call.\<close>

definition check_create :: "Config \<Rightarrow> request \<Rightarrow> (int \<times> string \<times> string) + CreateSendInput" where
  "check_create cfg r =
     (case decode_body (limited maxCreateBody (r_body r)) of
        None \<Rightarrow> Inl (bad_request ''invalid request body'')
      | Some q \<Rightarrow>
          if cr_Version q \<noteq> ''send.v1'' then Inl (400, ''UNSUPPORTED_VERSION'', ''unsupported send version'')
          else if cr_Parts q = [] then Inl (bad_request ''a send must declare at least one part'')
          else if int (length (cr_Parts q)) > MaxPartCount cfg then Inl (bad_request ''too many parts'')
          else if effective_ttl cfg q > MaxTTL cfg then Inl (bad_request ''ttl exceeds the server maximum'')
          else
            (case check_parts cfg (cr_Parts q) [] 0 of
               Inl e \<Rightarrow> Inl e
             | Inr (parts, tot) \<Rightarrow>
                 if tot > MaxTotalBytes cfg then Inl (too_large ''total send size exceeds the cap'')
                 else Inr \<lparr>in_Version = cr_Version q,
                           in_OneTime = (case cr_OneTime q of None \<Rightarrow> True | Some b \<Rightarrow> b),
                           in_TTL = effective_ttl cfg q, in_Parts = parts\<rparr>))"

definition partBrief :: "PartMeta \<Rightarrow> json" where
  "partBrief p = JObj [(''part_id'', JStr (PartID p)), (''encrypted_size'', JNum (Itoa (EncryptedSize p)))]"

text \<open>A Go map is encoded in the order of its keys.\<close>

definition upload_urls :: "SendRecord \<Rightarrow> (string \<times> json) list" where
  "upload_urls rec =
     sort_key fst
       (fold (\<lambda>p m. AList.update (PartID p) (JStr (''/v1/sends/'' @ rec_ID rec @ ''/parts/'' @ PartID p)) m) (rec_Parts rec) [])"

definition handleCreate :: "'c send_ops \<Rightarrow> 'c handler" where
  "handleCreate A =
     limited_handler ''create'' (\<lambda>h r sv w.
       (case check_create (sv_cfg sv) r of
          Inl (status, code, msg) \<Rightarrow> finish sv (writeError status code msg w)
        | Inr inp \<Rightarrow>
            store_call (sd_CreateSend A (he_env h) inp) writeStoreError sv w (\<lambda>rec sv.
              finish sv (writeJSON 201 (JObj
                [(''expires_at'', JStr (RFC3339 (rec_ExpiresAt rec))), (''id'', JStr (rec_ID rec)),
                 (''one_time'', JBool (rec_OneTime rec)),
                 (''public_url'', JStr (publicBase (sv_cfg sv) r @ ''/s/'' @ rec_ID rec)),
                 (''upload_urls'', JObj (upload_urls rec))]) w))))"

definition handleUpload :: "'c send_ops \<Rightarrow> string \<Rightarrow> string \<Rightarrow> 'c handler" where
  "handleUpload A sid pid =
     limited_handler ''upload'' (\<lambda>h r sv w.
       (let sha = Header_Get r ''X-Send-Ciphertext-Sha256'' in
        if \<not> validSHA256Hex sha
        then finish sv (writeError 400 ''BAD_REQUEST'' ''missing or malformed X-Send-Ciphertext-Sha256 header'' w)
        else
          store_call (sd_PutPart A (he_env h) sid pid (r_body r) \<lparr>PartID = pid, EncryptedSize = 0, SHA256 = sha\<rparr>)
            writeStoreError sv w (\<lambda>n sv.
            finish sv (writeJSON 200 (JObj
              [(''encrypted_size'', JNum (Itoa n)), (''ok'', JBool True), (''part_id'', JStr pid)]) w))))"

definition handleFinalize :: "'c send_ops \<Rightarrow> string \<Rightarrow> 'c handler" where
  "handleFinalize A sid =
     limited_handler ''finalize'' (\<lambda>h r sv w.
       store_call (sd_FinalizeSend A (he_env h) sid) writeStoreError sv w (\<lambda>_ sv.
       store_call (sd_GetSendMeta A sid) writeStoreError sv w (\<lambda>meta sv.
         finish sv (writeJSON 200 (JObj
           [(''expires_at'', JStr (RFC3339 (meta_ExpiresAt meta))), (''ok'', JBool True),
            (''public_url'', JStr (publicBase (sv_cfg sv) r @ ''/s/'' @ sid))]) w))))"

definition handleMeta :: "'c send_ops \<Rightarrow> string \<Rightarrow> 'c handler" where
  "handleMeta A sid =
     limited_handler ''meta'' (\<lambda>h r sv w.
       store_call (sd_GetSendMeta A sid) writeStoreError sv w (\<lambda>meta sv.
         finish sv (writeJSON 200 (JObj
           [(''expires_at'', JStr (RFC3339 (meta_ExpiresAt meta))), (''id'', JStr (meta_ID meta)),
            (''one_time'', JBool (meta_OneTime meta)), (''part_count'', JNum (Itoa (meta_PartCount meta))),
            (''parts'', JArr (map partBrief (meta_Parts meta))), (''status'', JStr (status_text (meta_Status meta))),
            (''total_encrypted_size'', JNum (Itoa (meta_TotalEncryptedSize meta)))]) w)))"

definition handleRedeem :: "'c send_ops \<Rightarrow> string \<Rightarrow> 'c handler" where
  "handleRedeem A sid =
     limited_handler ''redeem'' (\<lambda>h r sv w.
       store_call (sd_RedeemSend A (he_env h) sid) writeStoreError sv w (\<lambda>grant sv.
         finish sv (writeJSON 200 (JObj
           [(''expires_at'', JStr (RFC3339 (gr_ExpiresAt grant))), (''parts'', JArr (map partBrief (gr_Parts grant))),
            (''redeem_token'', JStr (gr_Token grant))]) w)))"

text \<open>A handle that is a directory fails on the first read, after the header is out.\<close>

definition download_error :: "store_error \<Rightarrow> ResponseWriter \<Rightarrow> ResponseWriter" where
  "download_error e w =
     (if e = ErrUnknownPart then writeError 404 ''SEND_NOT_FOUND'' ''part not found'' w else writeStoreError e w)"

definition handleDownload :: "'c send_ops \<Rightarrow> string \<Rightarrow> string \<Rightarrow> 'c handler" where
  "handleDownload A sid pid =
     limited_handler ''download'' (\<lambda>h r sv w.
       store_call (sd_GetPart A (he_env h) sid pid (bearerToken r)) download_error sv w (\<lambda>f sv.
         (let w' = WriteHeader 200 (SetHeader ''Content-Type'' ''application/octet-stream'' w)
          in finish sv (case f of File d \<Rightarrow> (if d = [] then w' else Write d w') | Directory \<Rightarrow> w'))))"

end
