(* ===== verification/Serve.thy ===== *)
theory Serve
  imports Api Landing
begin

text \<open>
  The handler of the server: the pages of \<open>landing.go\<close>, the routes, the log middleware and
  the recovery middleware of \<open>server.go\<close>.
\<close>

section \<open>Pages\<close>

definition html_page :: "string \<Rightarrow> ResponseWriter \<Rightarrow> ResponseWriter" where
  "html_page page w = Write page (WriteHeader 200 (SetHeader ''Content-Type'' ''text/html; charset=utf-8'' w))"

definition handleLanding :: "'c handler" where
  "handleLanding h r sv w = finish sv (html_page (landing_page (publicBase (sv_cfg sv) r)) w)"

definition handleLinkPage :: "'c handler" where
  "handleLinkPage h r sv w = finish sv (html_page linkHTML w)"

section \<open>Routes\<close>

definition routes :: "pattern list" where
  "routes =
     [(''GET'', [Lit ''healthz''], \<lambda>_. Health),
      (''POST'', [Lit ''v1'', Lit ''sends''], \<lambda>_. Create),
      (''PUT'', [Lit ''v1'', Lit ''sends'', Wild, Lit ''parts'', Wild], \<lambda>vs. Upload (vs ! 0) (vs ! 1)),
      (''POST'', [Lit ''v1'', Lit ''sends'', Wild, Lit ''finalize''], \<lambda>vs. Finalize (vs ! 0)),
      (''POST'', [Lit ''v1'', Lit ''sends'', Wild, Lit ''redeem''], \<lambda>vs. Redeem (vs ! 0)),
      (''GET'', [Lit ''v1'', Lit ''sends'', Wild, Lit ''parts'', Wild], \<lambda>vs. Download (vs ! 0) (vs ! 1)),
      (''GET'', [Lit ''v1'', Lit ''sends'', Wild], \<lambda>vs. Meta (vs ! 0)),
      (''GET'', [Lit ''s'', Wild], \<lambda>vs. LinkPage (vs ! 0)),
      (''GET'', [Lit ''/''], \<lambda>_. Landing)]"

text \<open>The answers of the multiplexer itself.\<close>

definition http_Error :: "string \<Rightarrow> int \<Rightarrow> ResponseWriter \<Rightarrow> ResponseWriter" where
  "http_Error msg code w =
     Write (msg @ [CHR 0x0A])
       (WriteHeader code
         (SetHeader ''X-Content-Type-Options'' ''nosniff'' (SetHeader ''Content-Type'' ''text/plain; charset=utf-8'' w)))"

definition mux_answer :: "target \<Rightarrow> ResponseWriter \<Rightarrow> ResponseWriter" where
  "mux_answer t w =
     (case t of
        MovedTo p \<Rightarrow> WriteHeader 301 w
      | NotAllowed ms \<Rightarrow> http_Error ''Method Not Allowed'' 405 (SetHeader ''Allow'' (Join ms '', '') w)
      | _ \<Rightarrow> http_Error ''404 page not found'' 404 w)"

definition dispatch :: "'c send_ops \<Rightarrow> target \<Rightarrow> 'c handler" where
  "dispatch A t =
     (case t of
        Health \<Rightarrow> handleHealth
      | Create \<Rightarrow> requireTeamToken (handleCreate A)
      | Upload sid pid \<Rightarrow> requireTeamToken (handleUpload A sid pid)
      | Finalize sid \<Rightarrow> requireTeamToken (handleFinalize A sid)
      | Redeem sid \<Rightarrow> handleRedeem A sid
      | Download sid pid \<Rightarrow> handleDownload A sid pid
      | Meta sid \<Rightarrow> handleMeta A sid
      | LinkPage _ \<Rightarrow> handleLinkPage
      | Landing \<Rightarrow> handleLanding
      | _ \<Rightarrow> (\<lambda>h r sv w. finish sv (mux_answer t w)))"

section \<open>Middleware\<close>

definition new_status_writer :: "wire \<Rightarrow> status_writer" where
  "new_status_writer w = \<lparr>sw_wire = w, sw_status = 0, sw_bytes = 0, sw_errCode = []\<rparr>"

text \<open>A panic unwinds through \<open>logging\<close> before its line is written.\<close>

definition logging :: "'c handler \<Rightarrow> http_env \<Rightarrow> request \<Rightarrow> 'c server \<Rightarrow> wire \<Rightarrow> bool \<times> 'c server \<times> wire" where
  "logging next h r sv w =
     (case next h r sv (Status (new_status_writer w)) of
        (True, sv', rw) \<Rightarrow> (True, sv', wire_of rw)
      | (False, sv', Plain w') \<Rightarrow> (False, sv', w')
      | (False, sv', Status sw) \<Rightarrow>
          (False,
           (case sv_log sv' of
              None \<Rightarrow> sv'
            | Some out \<Rightarrow>
                sv'\<lparr>sv_log := Some (Log_Request (he_end h) (r_method r) (URL_Path r) (statusOr200 sw) (sw_bytes sw)
                                      (he_end h - he_start h) (sw_errCode sw) out)\<rparr>),
           sw_wire sw))"

definition recoverer :: "bool \<times> 'c server \<times> wire \<Rightarrow> wire \<times> 'c server" where
  "recoverer m =
     (case m of
        (True, sv, w) \<Rightarrow> (wire_of (writeError 500 ''STORAGE_ERROR'' ''internal error'' (Plain w)), sv)
      | (False, sv, w) \<Rightarrow> (w, sv))"

definition ServeHTTP :: "'c send_ops \<Rightarrow> http_env \<Rightarrow> request \<Rightarrow> 'c server \<Rightarrow> wire \<times> 'c server" where
  "ServeHTTP A h r sv = recoverer (logging (dispatch A (route_request routes r)) h r sv (new_wire r))"

definition New_server :: "'c \<Rightarrow> Config \<Rightarrow> string option \<Rightarrow> limiter option \<Rightarrow> limiter option \<Rightarrow> 'c server" where
  "New_server st cfg lg c u =
     \<lparr>sv_store = st, sv_cfg = cfg, sv_log = lg, sv_createLimiter = c, sv_uploadLimiter = u\<rparr>"

section \<open>Writers\<close>

text \<open>Every operation of a \<open>Status\<close> writer leaves a \<open>Status\<close> writer.\<close>

definition is_status :: "ResponseWriter \<Rightarrow> bool" where
  "is_status w = (case w of Status _ \<Rightarrow> True | Plain _ \<Rightarrow> False)"

lemma is_status_ops [simp]:
  "is_status (SetHeader k v w) = is_status w" "is_status (WriteHeader c w) = is_status w" "is_status (Write b w) = is_status w"
  "is_status (record_code e w) = is_status w" "is_status (Status sw)"
  by (cases w; simp add: is_status_def)+

lemma is_status_answers [simp]:
  "is_status (writeJSON c v w) = is_status w" "is_status (writeError c e m w) = is_status w"
  "is_status (writeStoreError x w) = is_status w" "is_status (download_error x w) = is_status w"
  "is_status (rate_limited w) = is_status w" "is_status (html_page p w) = is_status w" "is_status (http_Error m c w) = is_status w"
  "is_status (mux_answer t w) = is_status w"
  by (simp_all add: writeJSON_def writeError_def writeStoreError_def download_error_def rate_limited_def html_page_def
      http_Error_def mux_answer_def split: prod.split target.split)

end
