(* ===== verification/ApiSpec.thy ===== *)
theory ApiSpec
  imports Serve
begin

text \<open>
  What the HTTP server promises, without writers, middleware and limiters: \<open>respond\<close> maps a
  routed request and the state of the store to a reply and the next state. The lemmas of this
  theory show that the handler chain of the code computes exactly that reply.
\<close>

section \<open>Replies\<close>

datatype reply =
    JsonReply int json
  | ErrorReply int string string
  | BytesReply string
  | PageReply string
  | MuxReply target

definition answer :: "int \<Rightarrow> string \<Rightarrow> string \<Rightarrow> request \<Rightarrow> wire" where
  "answer status ctype body r =
     \<lparr>w_head = (r_method r = ''HEAD''), w_status = status, w_headers = [(''Content-Type'', ctype)],
      w_body = (if r_method r = ''HEAD'' then [] else body)\<rparr>"

fun render :: "request \<Rightarrow> reply \<Rightarrow> wire" where
  "render r (JsonReply status v) = answer status ''application/json'' (encode_json v @ [CHR 0x0A]) r"
| "render r (ErrorReply status code msg) = answer status ''application/json'' (encode_json (errorBody code msg) @ [CHR 0x0A]) r"
| "render r (BytesReply d) = answer 200 ''application/octet-stream'' d r"
| "render r (PageReply p) = answer 200 ''text/html; charset=utf-8'' p r"
| "render r (MuxReply t) = wire_of (mux_answer t (Plain (new_wire r)))"

fun reply_code :: "reply \<Rightarrow> string" where
  "reply_code (ErrorReply status code msg) = code"
| "reply_code _ = []"

definition store_reply :: "store_error \<Rightarrow> reply" where
  "store_reply e = (let (status, code, msg) = mapStoreError e in ErrorReply status code msg)"

definition download_reply :: "store_error \<Rightarrow> reply" where
  "download_reply e = (if e = ErrUnknownPart then ErrorReply 404 ''SEND_NOT_FOUND'' ''part not found'' else store_reply e)"

section \<open>The specification\<close>

definition call :: "('c \<Rightarrow> 'a result \<times> 'c) \<Rightarrow> 'c \<Rightarrow> (store_error \<Rightarrow> reply) \<Rightarrow> ('a \<Rightarrow> 'c \<Rightarrow> reply \<times> 'c) \<Rightarrow> reply \<times> 'c" where
  "call f c onerr k = (case f c of (Inl e, c') \<Rightarrow> (onerr e, c') | (Inr x, c') \<Rightarrow> k x c')"

definition created_body :: "Config \<Rightarrow> request \<Rightarrow> SendRecord \<Rightarrow> json" where
  "created_body cfg r rec =
     JObj [(''expires_at'', JStr (RFC3339 (rec_ExpiresAt rec))), (''id'', JStr (rec_ID rec)),
           (''one_time'', JBool (rec_OneTime rec)), (''public_url'', JStr (publicBase cfg r @ ''/s/'' @ rec_ID rec)),
           (''upload_urls'', JObj (upload_urls rec))]"

definition meta_body :: "SendMeta \<Rightarrow> json" where
  "meta_body meta =
     JObj [(''expires_at'', JStr (RFC3339 (meta_ExpiresAt meta))), (''id'', JStr (meta_ID meta)),
           (''one_time'', JBool (meta_OneTime meta)), (''part_count'', JNum (Itoa (meta_PartCount meta))),
           (''parts'', JArr (map partBrief (meta_Parts meta))), (''status'', JStr (status_text (meta_Status meta))),
           (''total_encrypted_size'', JNum (Itoa (meta_TotalEncryptedSize meta)))]"

definition grant_body :: "RedeemGrant \<Rightarrow> json" where
  "grant_body grant =
     JObj [(''expires_at'', JStr (RFC3339 (gr_ExpiresAt grant))), (''parts'', JArr (map partBrief (gr_Parts grant))),
           (''redeem_token'', JStr (gr_Token grant))]"

text \<open>Which requests need the team token, and which limiter a request draws on.\<close>

definition authorized :: "Config \<Rightarrow> target \<Rightarrow> request \<Rightarrow> bool" where
  "authorized cfg t r \<longleftrightarrow>
     (case t of Create \<Rightarrow> True | Upload _ _ \<Rightarrow> True | Finalize _ \<Rightarrow> True | _ \<Rightarrow> False) \<longrightarrow>
       TeamToken cfg = [] \<or> bearerToken r = TeamToken cfg"

definition bucket_name :: "target \<Rightarrow> string option" where
  "bucket_name t =
     (case t of Create \<Rightarrow> Some ''create'' | Upload _ _ \<Rightarrow> Some ''upload'' | Finalize _ \<Rightarrow> Some ''finalize''
      | Redeem _ \<Rightarrow> Some ''redeem'' | Download _ _ \<Rightarrow> Some ''download'' | Meta _ \<Rightarrow> Some ''meta'' | _ \<Rightarrow> None)"

definition admitted :: "http_env \<Rightarrow> target \<Rightarrow> request \<Rightarrow> 'c server \<Rightarrow> bool" where
  "admitted h t r sv = (case bucket_name t of None \<Rightarrow> True | Some b \<Rightarrow> fst (allow h r b sv))"

text \<open>The reply to an authorized, admitted request.\<close>

fun handle :: "'c send_ops \<Rightarrow> env \<Rightarrow> Config \<Rightarrow> request \<Rightarrow> target \<Rightarrow> 'c \<Rightarrow> reply \<times> 'c" where
  "handle A e cfg r Health c = (JsonReply 200 (JObj [(''ok'', JBool True)]), c)"
| "handle A e cfg r Create c =
     (case check_create cfg r of
        Inl (status, code, msg) \<Rightarrow> (ErrorReply status code msg, c)
      | Inr inp \<Rightarrow> call (sd_CreateSend A e inp) c store_reply (\<lambda>rec c. (JsonReply 201 (created_body cfg r rec), c)))"
| "handle A e cfg r (Upload sid pid) c =
     (let sha = Header_Get r ''X-Send-Ciphertext-Sha256'' in
      if \<not> validSHA256Hex sha
      then (ErrorReply 400 ''BAD_REQUEST'' ''missing or malformed X-Send-Ciphertext-Sha256 header'', c)
      else
        call (sd_PutPart A e sid pid (r_body r) \<lparr>PartID = pid, EncryptedSize = 0, SHA256 = sha\<rparr>) c store_reply (\<lambda>n c.
          (JsonReply 200 (JObj [(''encrypted_size'', JNum (Itoa n)), (''ok'', JBool True), (''part_id'', JStr pid)]), c)))"
| "handle A e cfg r (Finalize sid) c =
     call (sd_FinalizeSend A e sid) c store_reply (\<lambda>_ c.
     call (sd_GetSendMeta A sid) c store_reply (\<lambda>meta c.
       (JsonReply 200 (JObj [(''expires_at'', JStr (RFC3339 (meta_ExpiresAt meta))), (''ok'', JBool True),
          (''public_url'', JStr (publicBase cfg r @ ''/s/'' @ sid))]), c)))"
| "handle A e cfg r (Redeem sid) c = call (sd_RedeemSend A e sid) c store_reply (\<lambda>grant c. (JsonReply 200 (grant_body grant), c))"
| "handle A e cfg r (Download sid pid) c =
     call (sd_GetPart A e sid pid (bearerToken r)) c download_reply (\<lambda>f c.
       (BytesReply (case f of File d \<Rightarrow> d | Directory \<Rightarrow> []), c))"
| "handle A e cfg r (Meta sid) c = call (sd_GetSendMeta A sid) c store_reply (\<lambda>meta c. (JsonReply 200 (meta_body meta), c))"
| "handle A e cfg r (LinkPage x) c = (PageReply linkHTML, c)"
| "handle A e cfg r Landing c = (PageReply (landing_page (publicBase cfg r)), c)"
| "handle A e cfg r t c = (MuxReply t, c)"

definition respond :: "'c send_ops \<Rightarrow> bool \<Rightarrow> env \<Rightarrow> Config \<Rightarrow> request \<Rightarrow> target \<Rightarrow> 'c \<Rightarrow> reply \<times> 'c" where
  "respond A ok e cfg r t c =
     (if \<not> authorized cfg t r then (ErrorReply 401 ''UNAUTHORIZED'' ''team token required'', c)
      else if \<not> ok then (ErrorReply 429 ''RATE_LIMITED'' ''rate limit exceeded'', c)
      else handle A e cfg r t c)"

section \<open>The writers compute the rendering\<close>

definition fresh_writer :: "request \<Rightarrow> ResponseWriter" where
  "fresh_writer r = Status (new_status_writer (new_wire r))"

definition internal_error :: reply where
  "internal_error = ErrorReply 500 ''STORAGE_ERROR'' ''internal error''"

text \<open>What the middleware logs of a reply: its length before a HEAD drops the body.\<close>

definition reply_bytes :: "request \<Rightarrow> reply \<Rightarrow> int" where
  "reply_bytes r rep = int (length (w_body (render (r\<lparr>r_method := ''GET''\<rparr>) rep)))"

definition written :: "request \<Rightarrow> reply \<Rightarrow> ResponseWriter \<Rightarrow> bool" where
  "written r rep w \<longleftrightarrow>
     (case w of
        Plain _ \<Rightarrow> False
      | Status sw \<Rightarrow> sw_wire sw = render r rep \<and> statusOr200 sw = w_status (render r rep)
          \<and> sw_bytes sw = reply_bytes r rep \<and> sw_errCode sw = reply_code rep)"

lemmas writer_defs =
  written_def reply_bytes_def fresh_writer_def new_status_writer_def new_wire_def answer_def statusOr200_def
  wire_set_header_def wire_header_def wire_write_def

lemma written_json [simp]: "c \<noteq> 0 \<Longrightarrow> written r (JsonReply c v) (writeJSON c v (fresh_writer r))"
  by (simp add: writeJSON_def writer_defs Let_def)

lemma written_error [simp]: "c \<noteq> 0 \<Longrightarrow> written r (ErrorReply c code msg) (writeError c code msg (fresh_writer r))"
  by (simp add: writeError_def writeJSON_def writer_defs Let_def)

lemma mapStoreError_status: "mapStoreError e = (status, code, msg) \<Longrightarrow> 400 \<le> status \<and> status \<le> 500"
  by (cases e) auto

lemma written_store_error [simp]: "written r (store_reply e) (writeStoreError e (fresh_writer r))"
  using mapStoreError_status [of e]
  by (auto simp: store_reply_def writeStoreError_def split: prod.split intro!: written_error)

lemma written_download_error [simp]: "written r (download_reply e) (download_error e (fresh_writer r))"
  by (simp add: download_reply_def download_error_def)

lemma written_page [simp]: "written r (PageReply p) (html_page p (fresh_writer r))"
  by (simp add: html_page_def writer_defs Let_def)

lemma written_bytes [simp]:
  "written r (BytesReply d)
     (let w' = WriteHeader 200 (SetHeader ''Content-Type'' ''application/octet-stream'' (fresh_writer r))
      in if d = [] then w' else Write d w')"
  by (simp add: writer_defs Let_def)

lemma written_mux [simp]: "written r (MuxReply t) (mux_answer t (fresh_writer r))"
  by (cases t) (simp_all add: mux_answer_def http_Error_def writer_defs Let_def)

section \<open>The handlers compute the specification\<close>

definition computes :: "request \<Rightarrow> 'c server \<Rightarrow> reply \<times> 'c \<Rightarrow> 'c exchange \<Rightarrow> bool" where
  "computes r sv out m \<longleftrightarrow>
     (case m of (p, sv', w) \<Rightarrow>
        sv_store sv' = snd out \<and> sv_cfg sv' = sv_cfg sv \<and> sv_log sv' = sv_log sv
        \<and> (if p then w = fresh_writer r \<and> fst out = internal_error else written r (fst out) w))"

lemma computes_finish [simp]:
  "computes r sv (rep, c) (finish sv' w) \<longleftrightarrow>
     sv_store sv' = c \<and> sv_cfg sv' = sv_cfg sv \<and> sv_log sv' = sv_log sv \<and> written r rep w"
  by (simp add: computes_def finish_def)

lemma panic_reply: "store_reply (Panicked t) = internal_error" "download_reply (Panicked t) = internal_error"
  by (simp_all add: store_reply_def download_reply_def internal_error_def)

lemma computes_call:
  assumes sv: "sv_cfg sv = sv_cfg sv0" "sv_log sv = sv_log sv0"
    and err: "\<And>e. written r (onerr' e) (onerr e (fresh_writer r))" "\<And>t. onerr' (Panicked t) = internal_error"
    and k: "\<And>x c. computes r sv0 (k' x c) (k x (sv\<lparr>sv_store := c\<rparr>))"
  shows "computes r sv0 (call f (sv_store sv) onerr' k') (store_call f onerr sv (fresh_writer r) k)"
proof (cases "f (sv_store sv)")
  case (Pair m c)
  show ?thesis
  proof (cases m)
    case (Inl e)
    with Pair sv err show ?thesis by (cases e) (simp_all add: call_def store_call_def, simp_all add: computes_def)
  next
    case (Inr x)
    with Pair k show ?thesis by (simp add: call_def store_call_def)
  qed
qed

lemma allow_same [simp]:
  "sv_store (snd (allow h r b sv)) = sv_store sv" "sv_cfg (snd (allow h r b sv)) = sv_cfg sv"
  "sv_log (snd (allow h r b sv)) = sv_log sv"
  by (simp_all add: allow_def Let_def split: prod.split)

lemma computes_limited:
  assumes "\<And>sv' :: 'c server. sv_store sv' = sv_store sv \<Longrightarrow> sv_cfg sv' = sv_cfg sv \<Longrightarrow> sv_log sv' = sv_log sv \<Longrightarrow>
      computes r sv out (f h r sv' (fresh_writer r))"
  shows "computes r sv
     (if fst (allow h r b sv) then out else (ErrorReply 429 ''RATE_LIMITED'' ''rate limit exceeded'', sv_store sv))
     (limited_handler b f h r sv (fresh_writer r))"
proof (cases "allow h r b sv")
  case (Pair ok sv')
  then have "sv_store sv' = sv_store sv" "sv_cfg sv' = sv_cfg sv" "sv_log sv' = sv_log sv"
    using allow_same [of h r b sv] by simp_all
  with assms show ?thesis by (cases ok) (simp_all add: limited_handler_def Pair rate_limited_def)
qed

lemma check_parts_status: "check_parts cfg ps seen tot = Inl (status, code, msg) \<Longrightarrow> status = 400 \<or> status = 413"
  by (induction ps arbitrary: seen tot)
     (auto simp: bad_request_def too_large_def split: if_splits sum.splits prod.splits)

lemma check_create_status: "check_create cfg r = Inl (status, code, msg) \<Longrightarrow> status = 400 \<or> status = 413"
  by (auto simp: check_create_def bad_request_def too_large_def dest: check_parts_status
      split: option.splits if_splits sum.splits prod.splits)

lemma computes_team:
  assumes "\<And>w. computes r sv out (f h r sv (fresh_writer r))"
  shows "computes r sv
     (if TeamToken (sv_cfg sv) = [] \<or> bearerToken r = TeamToken (sv_cfg sv) then out
      else (ErrorReply 401 ''UNAUTHORIZED'' ''team token required'', sv_store sv))
     (requireTeamToken f h r sv (fresh_writer r))"
  using assms by (simp add: requireTeamToken_def)

lemma computes_store:
  assumes "sv_store sv = c" "sv_cfg sv = sv_cfg sv0" "sv_log sv = sv_log sv0"
    and "\<And>x c. computes r sv0 (k' x c) (k x (sv\<lparr>sv_store := c\<rparr>))"
  shows "computes r sv0 (call f c store_reply k') (store_call f writeStoreError sv (fresh_writer r) k)"
  unfolding assms(1) [symmetric]
  by (rule computes_call) (simp_all add: assms panic_reply)

lemma computes_open:
  assumes "sv_store sv = c" "sv_cfg sv = sv_cfg sv0" "sv_log sv = sv_log sv0"
    and "\<And>x c. computes r sv0 (k' x c) (k x (sv\<lparr>sv_store := c\<rparr>))"
  shows "computes r sv0 (call f c download_reply k') (store_call f download_error sv (fresh_writer r) k)"
  unfolding assms(1) [symmetric]
  by (rule computes_call) (simp_all add: assms panic_reply)

lemma written_empty:
  "written r (BytesReply []) (WriteHeader 200 (SetHeader ''Content-Type'' ''application/octet-stream'' (fresh_writer r)))"
  "d \<noteq> [] \<Longrightarrow> written r (BytesReply d)
     (Write d (WriteHeader 200 (SetHeader ''Content-Type'' ''application/octet-stream'' (fresh_writer r))))"
  using written_bytes [of r "[]"] written_bytes [of r d] by (simp_all add: Let_def)

text \<open>Each handler of the store, behind its limiter.\<close>

definition behind :: "'c server \<Rightarrow> bool \<Rightarrow> reply \<times> 'c \<Rightarrow> reply \<times> 'c" where
  "behind sv ok out = (if ok then out else (ErrorReply 429 ''RATE_LIMITED'' ''rate limit exceeded'', sv_store sv))"

lemmas computes_behind = computes_limited [folded behind_def]

lemma computes_create:
  "computes r sv (behind sv (fst (allow h r ''create'' sv)) (handle A (he_env h) (sv_cfg sv) r Create (sv_store sv)))
     (handleCreate A h r sv (fresh_writer r))"
  unfolding handleCreate_def handle.simps
  by (rule computes_behind)
     (auto simp: created_body_def dest: check_create_status split: sum.split
       intro!: computes_store written_error)

lemma computes_handlers:
  "computes r sv (behind sv (fst (allow h r ''upload'' sv)) (handle A (he_env h) (sv_cfg sv) r (Upload sid pid) (sv_store sv)))
     (handleUpload A sid pid h r sv (fresh_writer r))"
  "computes r sv (behind sv (fst (allow h r ''finalize'' sv)) (handle A (he_env h) (sv_cfg sv) r (Finalize sid) (sv_store sv)))
     (handleFinalize A sid h r sv (fresh_writer r))"
  "computes r sv (behind sv (fst (allow h r ''redeem'' sv)) (handle A (he_env h) (sv_cfg sv) r (Redeem sid) (sv_store sv)))
     (handleRedeem A sid h r sv (fresh_writer r))"
  "computes r sv (behind sv (fst (allow h r ''meta'' sv)) (handle A (he_env h) (sv_cfg sv) r (Meta sid) (sv_store sv)))
     (handleMeta A sid h r sv (fresh_writer r))"
  "computes r sv (behind sv (fst (allow h r ''download'' sv)) (handle A (he_env h) (sv_cfg sv) r (Download sid pid) (sv_store sv)))
     (handleDownload A sid pid h r sv (fresh_writer r))"
  unfolding handleUpload_def handleFinalize_def handleRedeem_def handleMeta_def handleDownload_def handle.simps
  by (rule computes_behind;
      auto simp: Let_def grant_body_def meta_body_def written_empty split: node.split intro!: computes_store computes_open)+

lemma dispatch_computes:
  "computes r sv (respond A (admitted h t r sv) (he_env h) (sv_cfg sv) r t (sv_store sv)) (dispatch A t h r sv (fresh_writer r))"
proof -
  have team: "computes r sv
     (if TeamToken (sv_cfg sv) = [] \<or> bearerToken r = TeamToken (sv_cfg sv) then out
      else (ErrorReply 401 ''UNAUTHORIZED'' ''team token required'', sv_store sv))
     (requireTeamToken f h r sv (fresh_writer r))" if "computes r sv out (f h r sv (fresh_writer r))" for f out
    using that by (simp add: requireTeamToken_def)
  show ?thesis
    using team [where f = "handleCreate A", OF computes_create] computes_handlers(3-5) [of r sv h A]
      team [where f = "handleUpload A i p" for i p, OF computes_handlers(1)]
      team [where f = "handleFinalize A i" for i, OF computes_handlers(2)]
    by (cases t)
       (auto simp: dispatch_def respond_def authorized_def admitted_def bucket_name_def behind_def handleHealth_def
          handleLanding_def handleLinkPage_def simp del: handle.simps(2-7) split: if_splits)
qed

section \<open>The server\<close>

lemma recovered: "wire_of (writeError 500 ''STORAGE_ERROR'' ''internal error'' (Plain (wire_of (fresh_writer r)))) = render r internal_error"
  by (simp add: internal_error_def writeError_def writeJSON_def writer_defs Let_def)

lemma serve_respond:
  assumes "ServeHTTP A h r sv = (w, sv')" "route_request routes r = t"
    and "respond A (admitted h t r sv) (he_env h) (sv_cfg sv) r t (sv_store sv) = (rep, c)"
  shows "w = render r rep \<and> sv_store sv' = c \<and> sv_cfg sv' = sv_cfg sv
     \<and> sv_log sv' \<in> {sv_log sv, map_option (Log_Request (he_end h) (r_method r) (URL_Path r) (w_status w) (reply_bytes r rep)
           (he_end h - he_start h) (reply_code rep)) (sv_log sv)}
     \<and> (rep \<noteq> internal_error \<longrightarrow>
         sv_log sv' = map_option (Log_Request (he_end h) (r_method r) (URL_Path r) (w_status w) (reply_bytes r rep)
           (he_end h - he_start h) (reply_code rep)) (sv_log sv))"
proof -
  obtain p sv1 rw where m: "dispatch A t h r sv (fresh_writer r) = (p, sv1, rw)" by (metis prod.collapse)
  from dispatch_computes [of r sv A h t] have c: "computes r sv (rep, c) (p, sv1, rw)" by (simp add: assms(3) m)
  have s: "ServeHTTP A h r sv = recoverer (logging (\<lambda>_ _ _ _. (p, sv1, rw)) h r sv (new_wire r))"
    by (simp add: ServeHTTP_def assms(2) logging_def m [unfolded fresh_writer_def])
  show ?thesis
  proof (cases p)
    case True
    with c s assms(1) recovered [of r] show ?thesis
      by (auto simp: computes_def recoverer_def logging_def)
  next
    case False
    then obtain sw where "rw = Status sw" using c by (cases rw) (auto simp: computes_def written_def)
    with c s assms(1) False show ?thesis
      by (auto simp: computes_def recoverer_def logging_def written_def split: option.splits)
  qed
qed

end
