(* ===== verification/ApiLaws.thy ===== *)
theory ApiLaws
  imports ApiSpec Gc
begin

text \<open>
  What a request may do to the store behind the API: \<open>R e c c'\<close> is any relation between the
  states of the store that its operations respect; every request respects it too. The client
  lemma is proved once and used for two relations: reachability of the coordinator, and the
  list of calls that reach the database.
\<close>

section \<open>Handlers and the store\<close>

locale send_store =
  fixes A :: "'c send_ops"
    and R :: "env \<Rightarrow> 'c \<Rightarrow> 'c \<Rightarrow> bool"
    and inpok :: "CreateSendInput \<Rightarrow> bool"
    and envok :: "env \<Rightarrow> bool"
  assumes R_refl: "R e c c"
    and R_trans: "R e c c' \<Longrightarrow> R e c' c'' \<Longrightarrow> R e c c''"
    and create_R: "inpok inp \<Longrightarrow> R e c (snd (sd_CreateSend A e inp c))"
    and put_R: "envok e \<Longrightarrow> R e c (snd (sd_PutPart A e sid pid rd d c))"
    and finalize_R: "R e c (snd (sd_FinalizeSend A e sid c))"
    and redeem_R: "R e c (snd (sd_RedeemSend A e sid c))"
    and get_R: "R e c (snd (sd_GetPart A e sid pid token c))"
    and meta_R: "R e c (snd (sd_GetSendMeta A sid c))"
begin

lemma call_R:
  assumes "R e c0 c" "R e c (snd (f c))" "\<And>x c'. R e c0 c' \<Longrightarrow> R e c0 (snd (k x c'))"
  shows "R e c0 (snd (call f c onerr k))"
  using R_trans [OF assms(1,2)] assms(3) by (auto simp: call_def split: prod.split sum.split)

lemma handle_R:
  assumes "envok e" "\<And>inp. check_create cfg r = Inr inp \<Longrightarrow> inpok inp"
  shows "R e c (snd (handle A e cfg r t c))"
  using assms
  by (cases t)
     (auto simp: Let_def R_refl create_R put_R finalize_R redeem_R get_R meta_R split: sum.split intro!: call_R)

lemma serve_R:
  assumes "envok (he_env h)" "\<And>inp. check_create (sv_cfg sv) r = Inr inp \<Longrightarrow> inpok inp"
  shows "R (he_env h) (sv_store sv) (sv_store (snd (ServeHTTP A h r sv)))"
proof -
  obtain w sv' where s: "ServeHTTP A h r sv = (w, sv')" by fastforce
  obtain rep c where c: "respond A (admitted h (route_request routes r) r sv) (he_env h) (sv_cfg sv) r
      (route_request routes r) (sv_store sv) = (rep, c)" by fastforce
  have "R (he_env h) (sv_store sv) c"
    using c handle_R [of "he_env h" "sv_cfg sv" r "sv_store sv" "route_request routes r", OF assms]
    by (auto simp: respond_def R_refl split: if_splits)
  with serve_respond [OF s refl c] s show ?thesis by simp
qed

end

section \<open>The coordinator as a send store\<close>

definition coordinator_send :: "'s state_ops \<Rightarrow> 'b blob_ops \<Rightarrow> ('s, 'b) coordinator send_ops" where
  "coordinator_send S B =
     \<lparr>sd_CreateSend = co_CreateSend S, sd_PutPart = PutPart S B, sd_FinalizeSend = co_FinalizeSend S,
      sd_RedeemSend = co_RedeemSend S, sd_GetPart = GetPart S B, sd_GetSendMeta = co_GetSendMeta S,
      sd_DeleteExpired = co_DeleteExpired S B\<rparr>"

lemma coordinator_send_simps [simp]:
  "sd_CreateSend (coordinator_send S B) = co_CreateSend S" "sd_PutPart (coordinator_send S B) = PutPart S B"
  "sd_FinalizeSend (coordinator_send S B) = co_FinalizeSend S" "sd_RedeemSend (coordinator_send S B) = co_RedeemSend S"
  "sd_GetPart (coordinator_send S B) = GetPart S B" "sd_GetSendMeta (coordinator_send S B) = co_GetSendMeta S"
  "sd_DeleteExpired (coordinator_send S B) = co_DeleteExpired S B"
  by (simp_all add: coordinator_send_def)

abbreviation send_api :: "store send_ops" where
  "send_api \<equiv> coordinator_send sqlite_state filesystem_blob"

definition plain_parts :: "CreateSendInput \<Rightarrow> bool" where
  "plain_parts inp \<longleftrightarrow> (\<forall>m \<in> set (in_Parts inp). plain (PartID m))"

lemma co_reach_trans: "co_reach S B partok b c \<Longrightarrow> co_reach S B partok a b \<Longrightarrow> co_reach S B partok a c"
  by (induction rule: co_reach.induct) (auto intro: co_reach.step)

lemma trans_reach: "co_trans S B partok a b \<Longrightarrow> co_reach S B partok a b"
  by (blast intro: co_reach.intros)

interpretation rc: send_store send_api "\<lambda>_. store_reach" plain_parts "\<lambda>e. temp_suffix (tmp_suffix e)"
  by unfold_locales (auto simp: plain_parts_def intro: co_reach.init co_reach_trans trans_reach co_trans.intros)

text \<open>The calls of the database a request makes: a send is created with the clock and the random bytes
  of the request and an input that \<open>K\<close> admits.\<close>

definition made_by :: "(CreateSendInput \<Rightarrow> bool) \<Rightarrow> env \<Rightarrow> sql_op \<Rightarrow> bool" where
  "made_by K e x \<longleftrightarrow>
     (case x of OpCreate ms src now inp \<Rightarrow> ms = UnixMilli (wall e) \<and> src = entropy e \<and> K inp | _ \<Rightarrow> True)"

definition sql_moves :: "(CreateSendInput \<Rightarrow> bool) \<Rightarrow> env \<Rightarrow> store \<Rightarrow> store \<Rightarrow> bool" where
  "sql_moves K e c c' \<longleftrightarrow> (\<exists>ops. state c' = sql_run ops (state c) \<and> (\<forall>x \<in> set ops. made_by K e x))"

lemma sql_moves_refl: "state c' = state c \<Longrightarrow> sql_moves K e c c'"
  by (auto simp: sql_moves_def intro: exI [of _ "[]"])

lemma sql_moves_one:
  "state c' = sql_step x (state c) \<Longrightarrow> made_by K e x \<Longrightarrow> sql_moves K e c c'"
  by (auto simp: sql_moves_def intro!: exI [of _ "[x]"])

lemma sql_moves_trans: "sql_moves K e a b \<Longrightarrow> sql_moves K e b c \<Longrightarrow> sql_moves K e a c"
  unfolding sql_moves_def by (metis Un_iff set_append sql_run_append)

lemma sql_moves_on_ok:
  assumes "sql_moves K e c0 (snd m)" "\<And>x c. sql_moves K e c0 c \<Longrightarrow> sql_moves K e c0 (snd (k x c))"
  shows "sql_moves K e c0 (snd (on_ok m k))"
  using assms by (cases m; cases "fst m") auto

interpretation mv: send_store send_api "sql_moves K" K "\<lambda>_. True" for K
proof
  fix e :: env and c c' c'' :: store and sid pid token :: string and inp :: CreateSendInput and rd :: reader and d :: PartMeta
  note ops = coordinator_send_simps co_CreateSend_def PutPart_def upload_check_def co_FinalizeSend_def co_RedeemSend_def
    GetPart_def co_GetSendMeta_def
  have state: "sql_moves K e c0 (snd (on_state f c1))"
    if "sql_moves K e c0 c1" "\<exists>x. snd (f (state c1)) = sql_step x (state c1) \<and> made_by K e x"
    for f :: "sqlite \<Rightarrow> 'x result \<times> sqlite" and c0 c1
    using that(2) by (intro sql_moves_trans [OF that(1)]) (auto intro!: sql_moves_one)
  have blob: "sql_moves K e c0 (snd (on_blob f c1))" if "sql_moves K e c0 c1" for f :: "fsblob \<Rightarrow> 'x result \<times> fsblob" and c0 c1
    by (intro sql_moves_trans [OF that] sql_moves_refl) simp
  have self: "sql_moves K e c c" for c by (simp add: sql_moves_refl)
  then show "sql_moves K e c c" .
  show "sql_moves K e c c' \<Longrightarrow> sql_moves K e c' c'' \<Longrightarrow> sql_moves K e c c''" by (rule sql_moves_trans)
  show "K inp \<Longrightarrow> sql_moves K e c (snd (sd_CreateSend send_api e inp c))"
    unfolding ops
    by (rule state [OF sql_moves_refl])
       (auto intro!: exI [of _ "OpCreate (UnixMilli (wall e)) (entropy e) (clock e) inp"] simp: made_by_def)
  show "sql_moves K e c (snd (sd_FinalizeSend send_api e sid c))"
    unfolding ops by (rule state [OF sql_moves_refl]) (auto intro!: exI [of _ "OpFinalize (clock e) sid"] simp: made_by_def)
  show "sql_moves K e c (snd (sd_RedeemSend send_api e sid c))"
    unfolding ops by (rule state [OF sql_moves_refl]) (auto intro!: exI [of _ "OpRedeem (entropy e) (clock e) sid"] simp: made_by_def)
  show "sql_moves K e c (snd (sd_GetSendMeta send_api sid c))"
    unfolding ops by (rule state [OF sql_moves_refl]) (auto intro!: exI [of _ "OpMeta sid"] simp: made_by_def)
  have declared: "sql_moves K e c0 (snd (on_state (st_DeclaredPart sqlite_state sid pid) c1))" if "sql_moves K e c0 c1" for c0 c1
    by (rule state [OF that]) (auto intro!: exI [of _ "OpDeclared sid pid"] simp: made_by_def)
  have status: "sql_moves K e c0 (snd (on_state (st_SendStatusOf sqlite_state sid) c1))" if "sql_moves K e c0 c1" for c0 c1
    by (rule state [OF that]) (auto intro!: exI [of _ "OpStatus sid"] simp: made_by_def)
  have mark: "sql_moves K e c0 (snd (on_state (st_MarkUploaded sqlite_state e sid pid) c1))" if "sql_moves K e c0 c1" for c0 c1
    by (rule state [OF that]) (auto intro!: exI [of _ "OpMark (clock e) sid pid"] simp: made_by_def)
  have valid: "sql_moves K e c (snd (on_state (st_ValidateGrant sqlite_state e sid h) c))" for h
    by (rule state [OF sql_moves_refl]) (auto intro!: exI [of _ "OpValidate (clock e) sid h"] simp: made_by_def)
  show "sql_moves K e c (snd (sd_PutPart send_api e sid pid rd d c))"
    unfolding ops
    by (auto simp del: sqlite_state_simps intro!: sql_moves_on_ok status declared mark blob self split: prod.split)
  show "sql_moves K e c (snd (sd_GetPart send_api e sid pid token c))"
    unfolding ops by (auto simp del: sqlite_state_simps intro!: sql_moves_on_ok declared valid blob self)
qed

end
