(* ===== verification/ApiScenario.thy ===== *)
theory ApiScenario
  imports ConfigProps ApiLaws
begin

text \<open>Concrete requests to a server with the default configuration over the store of \<open>StoreScenario\<close>.\<close>

definition demo_request :: "string \<Rightarrow> string \<Rightarrow> (string \<times> string) list \<Rightarrow> string \<Rightarrow> request" where
  "demo_request meth path headers body =
     \<lparr>r_method = meth, r_escaped = path, r_query = [], r_headers = headers,
      r_body = \<lparr>r_data = body, r_fails = False\<rparr>, r_host = ''localhost:8080'', r_remote = ''127.0.0.1:5000'', r_tls = False\<rparr>"

definition demo_http :: "env \<Rightarrow> http_env" where
  "demo_http e = \<lparr>he_env = e, he_start = clock e, he_end = clock e + 1500000\<rparr>"

definition demo_server :: "store \<Rightarrow> store server" where
  "demo_server c = New_server c default_config (Some []) None None"

lemma demo_server_simps [simp]:
  "sv_store (demo_server c) = c" "sv_cfg (demo_server c) = default_config" "sv_log (demo_server c) = Some []"
  "he_env (demo_http e) = e" "sv_createLimiter (demo_server c) = None" "sv_uploadLimiter (demo_server c) = None"
  by (simp_all add: demo_server_def New_server_def demo_http_def)

lemma demo_admitted [simp]: "admitted h t r (demo_server c)"
  by (cases t) (simp_all add: admitted_def bucket_name_def allow_def limit_by_def Let_def)

lemma no_team_token [simp]: "authorized default_config t r"
  by (simp add: authorized_def default_config_def split: target.split)

text \<open>What the server answers, by its specification.\<close>

lemma demo_serve:
  assumes "route_request routes r = t" "handle send_api e default_config r t c = (rep, c')"
  shows "fst (ServeHTTP send_api (demo_http e) r (demo_server c)) = render r rep"
    and "sv_store (snd (ServeHTTP send_api (demo_http e) r (demo_server c))) = c'"
proof -
  obtain w sv' where s: "ServeHTTP send_api (demo_http e) r (demo_server c) = (w, sv')" by fastforce
  have "respond send_api (admitted (demo_http e) t r (demo_server c)) (he_env (demo_http e)) (sv_cfg (demo_server c)) r t (sv_store (demo_server c)) = (rep, c')"
    using assms(2) by (simp add: respond_def)
  from serve_respond [OF s assms(1) this] s
  show "fst (ServeHTTP send_api (demo_http e) r (demo_server c)) = render r rep"
    and "sv_store (snd (ServeHTTP send_api (demo_http e) r (demo_server c))) = c'" by simp_all
qed

section \<open>Create\<close>

text \<open>A request for a life of 36028797018964028 seconds, more than a thousand million years.\<close>

definition long_body :: string where
  \<open>long_body = ''{"version":"send.v1","ttl_seconds":36028797018964028,"parts":[{"part_id":"a","encrypted_size":3,"sha256":"f0"}]}''\<close>

abbreviation long_request :: request where
  "long_request \<equiv> demo_request ''POST'' ''/v1/sends'' [] long_body"

definition long_input :: CreateSendInput where
  "long_input =
     \<lparr>in_Version = ''send.v1'', in_OneTime = True, in_TTL = 60 * Second,
      in_Parts = [\<lparr>PartID = ''a'', EncryptedSize = 3, SHA256 = ''f0''\<rparr>]\<rparr>"

lemma long_decoded:
  "decode_body (limited maxCreateBody (r_body long_request)) = Some
     \<lparr>cr_Version = ''send.v1'', cr_OneTime = None, cr_TTLSeconds = 36028797018964028,
      cr_Parts = [\<lparr>pd_PartID = ''a'', pd_EncryptedSize = 3, pd_SHA256 = ''f0''\<rparr>]\<rparr>"
  by code_simp

lemma long_accepted: "check_create default_config long_request = Inr long_input"
  by code_simp

lemma long_route: "route_request routes long_request = Create"
  by code_simp

section \<open>Download and redeem\<close>

abbreviation redeem_request :: request where
  "redeem_request \<equiv> demo_request ''POST'' ''/v1/sends/snd_0000000000o32chj6gqjcdpo74/redeem'' [] []"

abbreviation download_request :: request where
  "download_request \<equiv>
     demo_request ''GET'' ''/v1/sends/snd_0000000000o32chj6gqjcdpo74/parts/a'' [(''Authorization'', ''Bearer '' @ demo_token)] []"

abbreviation upload_request :: request where
  "upload_request \<equiv>
     demo_request ''PUT'' ''/v1/sends/snd_0000000000o32chj6gqjcdpo74/parts/a'' [(''X-Send-Ciphertext-Sha256'', demo_sha)] demo_bytes"

abbreviation health_request :: request where
  "health_request \<equiv> demo_request ''GET'' ''/healthz'' [] []"

lemma route_escaped: "r_method r = r_method r' \<Longrightarrow> r_escaped r = r_escaped r' \<Longrightarrow> route_request routes r = route_request routes r'"
  by (simp only: route_request_def)

lemma demo_routes:
  "route_request routes health_request = Health"
  "route_request routes redeem_request = Redeem demo_id"
  "route_request routes download_request = Download demo_id ''a''"
  "route_request routes upload_request = Upload demo_id ''a''"
proof -
  show "route_request routes health_request = Health" by code_simp
  show "route_request routes redeem_request = Redeem demo_id" by code_simp
  have "route_request routes (demo_request ''GET'' ''/v1/sends/snd_0000000000o32chj6gqjcdpo74/parts/a'' [] []) = Download demo_id ''a''"
    by code_simp
  then show "route_request routes download_request = Download demo_id ''a''"
    by (subst route_escaped) (auto simp: demo_request_def)
  have "route_request routes (demo_request ''PUT'' ''/v1/sends/snd_0000000000o32chj6gqjcdpo74/parts/a'' [] []) = Upload demo_id ''a''"
    by code_simp
  then show "route_request routes upload_request = Upload demo_id ''a''"
    by (subst route_escaped) (auto simp: demo_request_def)
qed

lemma demo_bearer: "bearerToken download_request = demo_token"
proof -
  have "HasPrefix (''Bearer '' @ demo_token) ''Bearer ''" "TrimPrefix (''Bearer '' @ demo_token) ''Bearer '' = demo_token"
    by (simp_all only: HasPrefix_append TrimPrefix_append)
  then show ?thesis by (simp add: bearerToken_def demo_request_def Header_Get_def Let_def)
qed

end
