(* ===== verification/JsonProps.thy ===== *)
theory JsonProps
  imports Json
begin

text \<open>
  The JSON reader: every successful parse consumes input, so the fuel that the model gives is
  enough, and more changes nothing.
\<close>

section \<open>What is consumed\<close>

lemma skip_le: "length (skip s) \<le> length s"
  by (simp add: skip_def length_dropWhile_le)

lemma expect_less: "expect c s = Some r \<Longrightarrow> length r < length s"
  using skip_le [of s] by (auto simp: expect_def split: list.splits if_splits)

lemma str_body_le: "str_body s = Some (t, q) \<Longrightarrow> length q \<le> length s"
proof (induction "length s" arbitrary: s t q rule: less_induct)
  case less
  show ?case
  proof (cases s)
    case Nil
    with less.prems show ?thesis by (simp add: str_body.simps)
  next
    case (Cons c r)
    have "q = r \<or> (\<exists>n u. str_body (drop n r) = Some (u, q)) \<or> (\<exists>n u. str_body (drop (Suc n) s) = Some (u, q))"
      using less.prems Cons unfolding str_body.simps [of s]
      by (auto simp: drop_Cons split: if_splits option.splits nat.splits intro: exI [of _ 0])
    then obtain n where "q = r \<or> (\<exists>u. str_body (drop n r) = Some (u, q))" using Cons by auto
    with less.hyps [of "drop n r"] Cons show ?thesis by (auto simp: less_Suc_eq_le)
  qed
qed

lemma digits_of_le: "digits_of s = (ds, r) \<Longrightarrow> length r \<le> length s"
  by (auto simp: digits_of_def length_dropWhile_le)

lemma digits_of_less: "digits_of s = (ds, r) \<Longrightarrow> ds \<noteq> [] \<Longrightarrow> length r < length s"
  by (cases s) (auto simp: digits_of_def length_dropWhile_le less_Suc_eq_le split: if_splits)

lemma number_parts_le:
  "fraction_part s = Some (ds, r) \<Longrightarrow> length r \<le> length s"
  "exponent_part s = Some (ds, r) \<Longrightarrow> length r \<le> length s"
  by (auto simp: fraction_part_def exponent_part_def Let_def split: if_splits prod.splits dest!: digits_of_le)

lemma number_value_less:
  assumes "number_value s = Some (v, r)"
  shows "length r < length s"
proof -
  define t where "t = (if HasPrefix s ''-'' then tl s else s)"
  define d where "d = (if HasPrefix t ''0'' then (''0'', tl t) else digits_of t)"
  have d: "fst d \<noteq> [] \<Longrightarrow> length (snd d) < length t"
    using digits_of_less [of t "fst d" "snd d"] by (cases t) (auto simp: d_def HasPrefix_def split: if_splits)
  from assms obtain fr t2 ex where "fst d \<noteq> []" "fraction_part (snd d) = Some (fr, t2)" "exponent_part t2 = Some (ex, r)"
    by (auto simp: number_value_def t_def d_def Let_def bind_eq_Some_conv split: if_splits prod.splits)
  with d number_parts_le have "length r < length t" by (metis le_less_trans)
  then show ?thesis by (simp add: t_def split: if_splits)
qed

lemma word_value_less: "word_value w v s = Some (x, r) \<Longrightarrow> w \<noteq> [] \<Longrightarrow> length r < length s"
  by (cases w; cases s) (auto simp: word_value_def HasPrefix_def split: if_splits)

lemma parse_consumes:
  "parse_value n d s = Some (v, r) \<Longrightarrow> length r < length s"
  "parse_elems n d s = Some (vs, r) \<Longrightarrow> length r < length s"
  "parse_members n d s = Some (ms, r) \<Longrightarrow> length r < length s"
proof (induction n arbitrary: d s v vs ms r)
  case (Suc n)
  {
    case 1
    then obtain c q where q: "skip s = c # q" by (cases "skip s") auto
    then have le: "length q < length s" using skip_le [of s] by simp
    with 1 q Suc.IH(2) [of "Suc d" q] Suc.IH(3) [of "Suc d" q] skip_le [of s] show ?case
      by (fastforce simp: bind_eq_Some_conv split: if_splits option.splits
          dest: expect_less str_body_le word_value_less number_value_less)
  next
    case 2
    then show ?case
      by (fastforce simp: bind_eq_Some_conv split: option.splits dest: Suc.IH expect_less)
  next
    case 3
    then show ?case
      by (fastforce simp: bind_eq_Some_conv split: option.splits dest: Suc.IH expect_less str_body_le)
  }
qed simp_all

section \<open>Fuel\<close>

lemma parse_fuel_step:
  assumes below: "\<And>s' m m' d. length s' < k \<Longrightarrow> 2 * length s' + 1 \<le> m \<Longrightarrow> 2 * length s' + 1 \<le> m' \<Longrightarrow>
        parse_value m d s' = parse_value m' d s'"
    and elems: "\<And>s' m m' d. length s' < k \<Longrightarrow> 2 * length s' + 2 \<le> m \<Longrightarrow> 2 * length s' + 2 \<le> m' \<Longrightarrow>
        parse_elems m d s' = parse_elems m' d s'"
    and members: "\<And>s' m m' d. length s' < k \<Longrightarrow> 2 * length s' + 2 \<le> m \<Longrightarrow> 2 * length s' + 2 \<le> m' \<Longrightarrow>
        parse_members m d s' = parse_members m' d s'"
    and s: "length s = k"
  shows "2 * k + 1 \<le> m \<Longrightarrow> 2 * k + 1 \<le> m' \<Longrightarrow> parse_value m d s = parse_value m' d s"
    and "2 * k + 2 \<le> m \<Longrightarrow> 2 * k + 2 \<le> m' \<Longrightarrow> parse_elems m d s = parse_elems m' d s"
    and "2 * k + 2 \<le> m \<Longrightarrow> 2 * k + 2 \<le> m' \<Longrightarrow> parse_members m d s = parse_members m' d s"
proof -
  have val: "parse_value m d s = parse_value m' d s" if m: "2 * k + 1 \<le> m" "2 * k + 1 \<le> m'" for m m' d
  proof -
    obtain j j' where j: "m = Suc j" "m' = Suc j'" using m by (metis Suc_le_D add.commute plus_1_eq_Suc)
    show ?thesis
    proof (cases "skip s")
      case Nil
      then show ?thesis by (simp add: j)
    next
      case (Cons c r)
      then have "length r < k" "2 * length r + 2 \<le> j" "2 * length r + 2 \<le> j'" using skip_le [of s] s m j by auto
      with Cons elems [of r j j'] members [of r j j'] show ?thesis by (simp add: j split: option.split)
    qed
  qed
  then show "2 * k + 1 \<le> m \<Longrightarrow> 2 * k + 1 \<le> m' \<Longrightarrow> parse_value m d s = parse_value m' d s" .
  {
    assume m: "2 * k + 2 \<le> m" "2 * k + 2 \<le> m'"
    obtain j j' where j: "m = Suc j" "m' = Suc j'" using m by (metis Suc_le_D add_2_eq_Suc' )
    have v: "parse_value j d s = parse_value j' d s" by (rule val) (use m j in auto)
    have e: "parse_elems j d r' = parse_elems j' d r'" if "parse_value j' d s = Some (x, r)" "expect CHR '','' r = Some r'" for x r r'
      using parse_consumes(1) [OF that(1)] expect_less [OF that(2)] s m j by (intro elems) auto
    show "parse_elems m d s = parse_elems m' d s"
    proof (cases "parse_value j' d s")
      case (Some y)
      obtain x r where y: "y = (x, r)" by force
      note e [OF Some [unfolded y]]
      then show ?thesis
        by (cases "expect CHR '','' r") (simp_all add: j v Some y split: option.split)
    qed (simp add: j v)
    have mv: "parse_value j d r2 = parse_value j' d r2"
      if "expect CHR 0x22 s = Some r" "str_body r = Some (t, r1)" "expect CHR '':'' r1 = Some r2" for r t r1 r2
      using expect_less [OF that(1)] str_body_le [OF that(2)] expect_less [OF that(3)] s m j by (intro below) auto
    have mm: "parse_members j d r4 = parse_members j' d r4"
      if "expect CHR 0x22 s = Some r" "str_body r = Some (t, r1)" "expect CHR '':'' r1 = Some r2"
        "parse_value j' d r2 = Some (x, r3)" "expect CHR '','' r3 = Some r4" for r t r1 r2 x r3 r4
      using expect_less [OF that(1)] str_body_le [OF that(2)] expect_less [OF that(3)] parse_consumes(1) [OF that(4)]
        expect_less [OF that(5)] s m j by (intro members) auto
    show "parse_members m d s = parse_members m' d s"
    proof (cases "expect CHR 0x22 s")
      case r: (Some r)
      show ?thesis
      proof (cases "str_body r")
        case (Some t)
        then obtain k r1 where r1: "str_body r = Some (k, r1)" by (cases t) auto
        show ?thesis
        proof (cases "expect CHR '':'' r1")
          case r2: (Some r2)
          note v2 = mv [OF r r1 r2]
          show ?thesis
          proof (cases "parse_value j' d r2")
            case (Some y)
            then obtain x r3 where r3: "parse_value j' d r2 = Some (x, r3)" by (cases y) auto
            note mm [OF r r1 r2 r3]
            then show ?thesis
              by (cases "expect CHR '','' r3") (simp_all add: j r r1 r2 v2 r3 split: option.split)
          qed (simp add: j r r1 r2 v2)
        qed (simp add: j r r1)
      qed (simp add: j r)
    qed (simp add: j)
  }
qed

lemma parse_fuel:
  "(2 * length s + 1 \<le> m \<longrightarrow> 2 * length s + 1 \<le> m' \<longrightarrow> parse_value m d s = parse_value m' d s)
   \<and> (2 * length s + 2 \<le> m \<longrightarrow> 2 * length s + 2 \<le> m' \<longrightarrow> parse_elems m d s = parse_elems m' d s)
   \<and> (2 * length s + 2 \<le> m \<longrightarrow> 2 * length s + 2 \<le> m' \<longrightarrow> parse_members m d s = parse_members m' d s)"
proof (induction "length s" arbitrary: s m m' d rule: less_induct)
  case less
  have below: "length s' < length s \<Longrightarrow> 2 * length s' + 1 \<le> m \<Longrightarrow> 2 * length s' + 1 \<le> m' \<Longrightarrow>
        parse_value m d s' = parse_value m' d s'"
    "length s' < length s \<Longrightarrow> 2 * length s' + 2 \<le> m \<Longrightarrow> 2 * length s' + 2 \<le> m' \<Longrightarrow>
        parse_elems m d s' = parse_elems m' d s'"
    "length s' < length s \<Longrightarrow> 2 * length s' + 2 \<le> m \<Longrightarrow> 2 * length s' + 2 \<le> m' \<Longrightarrow>
        parse_members m d s' = parse_members m' d s'" for s' m m' d
    using less.hyps [of s' m m' d] by blast+
  note step = parse_fuel_step [of "length s" s, OF below refl]
  show ?case using step(1) [of m m' d] step(2,3) [of m m' d] by blast
qed

end
