(* ===== verification/ApiProps.thy ===== *)
theory ApiProps
  imports ApiScenario JsonProps
begin

text \<open>
  The properties of the HTTP interface: the handler chain is the specification of \<open>ApiSpec\<close>,
  and what its replies promise over any store, and over the coordinator the server runs on.
\<close>

section \<open>The chain of handlers\<close>

lemma serve_spec:
  assumes "ServeHTTP A h r sv = (w, sv')"
  obtains rep where "respond A (admitted h (route_request routes r) r sv) (he_env h) (sv_cfg sv) r
      (route_request routes r) (sv_store sv) = (rep, sv_store sv')" "w = render r rep" "sv_cfg sv' = sv_cfg sv"
proof -
  obtain rep c where c: "respond A (admitted h (route_request routes r) r sv) (he_env h) (sv_cfg sv) r
      (route_request routes r) (sv_store sv) = (rep, c)" by fastforce
  from serve_respond [OF assms refl c] c that show thesis by auto
qed




section \<open>Statuses\<close>

lemma render_status:
  "w_status (render r (JsonReply s v)) = s" "w_status (render r (ErrorReply s c m)) = s"
  "w_status (render r (BytesReply d)) = 200" "w_status (render r (PageReply p)) = 200"
  by (simp_all add: answer_def)

lemma mux_status: "w_status (render r (MuxReply t)) \<in> {301, 404, 405}"
  by (cases t) (simp_all add: mux_answer_def http_Error_def new_wire_def wire_set_header_def wire_header_def wire_write_def Let_def)

lemma mux_not_success:
  "w_status (wire_of (mux_answer t (Plain (new_wire r)))) \<noteq> 200" "w_status (wire_of (mux_answer t (Plain (new_wire r)))) \<noteq> 201"
  using mux_status [of r t] by auto

lemma store_reply_cases:
  obtains s c m where "store_reply e = ErrorReply s c m" "400 \<le> s" "s < 500" | "store_reply e = internal_error"
  by (cases e) (auto simp: store_reply_def internal_error_def)

lemma download_reply_cases:
  obtains s c m where "download_reply e = ErrorReply s c m" "400 \<le> s" "s < 500" | "download_reply e = internal_error"
  by (cases e) (auto simp: download_reply_def store_reply_def internal_error_def)

definition opaque :: "reply \<Rightarrow> bool" where
  "opaque rep \<longleftrightarrow> rep = internal_error \<or> (\<forall>r. w_status (render r rep) < 500)"

lemma opaque_simps:
  "opaque (store_reply e)" "opaque (download_reply e)" "opaque (MuxReply t)" "opaque (BytesReply d)" "opaque (PageReply p)"
  "s < 500 \<Longrightarrow> opaque (JsonReply s v)" "s < 500 \<Longrightarrow> opaque (ErrorReply s c m)"
proof -
  show "opaque (MuxReply t)"
    unfolding opaque_def
  proof (intro disjI2 allI)
    fix r show "w_status (render r (MuxReply t)) < 500" using mux_status [of r t] by (auto simp del: render.simps)
  qed
qed (auto simp: opaque_def render_status simp del: render.simps
      intro: store_reply_cases [of e] download_reply_cases [of e])

lemma call_opaque: "(\<And>e. opaque (onerr e)) \<Longrightarrow> (\<And>x c. opaque (fst (k x c))) \<Longrightarrow> opaque (fst (call f c onerr k))"
  by (simp add: call_def split: prod.split sum.split)

lemma handle_opaque: "opaque (fst (handle A e cfg r t c))"
  by (cases t) (auto simp: Let_def opaque_simps split: sum.split dest: check_create_status intro!: call_opaque opaque_simps)

text \<open>
  C21. Whatever fails inside, a panic included, an answer with a status of 500 or more is
  one fixed JSON error and carries nothing of the cause.
\<close>

theorem server_errors_are_opaque:
  assumes "ServeHTTP A h r sv = (w, sv')" "500 \<le> w_status w"
  shows "w = render r (ErrorReply 500 ''STORAGE_ERROR'' ''internal error'')"
proof -
  from assms(1) obtain rep where rep: "respond A (admitted h (route_request routes r) r sv) (he_env h) (sv_cfg sv) r
      (route_request routes r) (sv_store sv) = (rep, sv_store sv')" and w: "w = render r rep"
    by (rule serve_spec)
  have "opaque rep"
    using rep handle_opaque [of A "he_env h" "sv_cfg sv" r "route_request routes r" "sv_store sv"]
    by (auto simp: respond_def opaque_simps split: if_splits)
  with assms(2) w show ?thesis by (auto simp: opaque_def internal_error_def not_less [symmetric])
qed

theorem server_errors_are_opaque_witness:
  "fst (ServeHTTP send_api (demo_http (demo_env 0 [])) redeem_request (demo_server (demo_c3\<lparr>state := demo_created\<lparr>dbFaults := [True]\<rparr>\<rparr>)))
     = render redeem_request (ErrorReply 500 ''STORAGE_ERROR'' ''internal error'')"
proof -
  let ?c = "demo_c3\<lparr>state := demo_created\<lparr>dbFaults := [True]\<rparr>\<rparr>"
  let ?m = "ServeHTTP send_api (demo_http (demo_env 0 [])) redeem_request (demo_server ?c)"
  obtain e c' where "co_RedeemSend sqlite_state (demo_env 0 []) demo_id ?c = (Inl (ErrInternal e), c')"
    by (simp add: co_RedeemSend_def RedeemSend_def demo_eval_store) 
  then have "handle send_api (demo_env 0 []) default_config redeem_request (Redeem demo_id) ?c = (internal_error, c')"
    by (simp add: call_def store_reply_def internal_error_def)
  note s = demo_serve(1) [OF demo_routes(2) this]
  have "500 \<le> w_status (fst ?m)" by (simp add: s internal_error_def answer_def)
  moreover have "?m = (fst ?m, snd ?m)" by simp
  ultimately show ?thesis by (rule server_errors_are_opaque [rotated])
qed

section \<open>Writes need the team token\<close>

text \<open>
  C20. With a team token configured, a create, upload or finalize request without that exact
  bearer token is answered 401 and changes nothing but the request log, not even a limiter.
\<close>

theorem unauthorized_write_changes_nothing:
  assumes serve: "ServeHTTP A h r sv = (w, sv')"
    and target: "route_request routes r \<in> {Create} \<union> {Upload sid pid |sid pid. True} \<union> {Finalize sid |sid. True}"
    and token: "TeamToken (sv_cfg sv) \<noteq> []" "Header_Get r ''Authorization'' \<noteq> ''Bearer '' @ TeamToken (sv_cfg sv)"
  shows "w_status w = 401 \<and> sv' = sv\<lparr>sv_log := sv_log sv'\<rparr>"
proof -
  have "bearerToken r \<noteq> TeamToken (sv_cfg sv)"
    using token TrimPrefix_append [of "''Bearer ''"]
    by (auto simp: bearerToken_def HasPrefix_iff Let_def split: if_splits)
  then have "dispatch A (route_request routes r) h r sv (Status (new_status_writer (new_wire r))) =
      finish sv (writeError 401 ''UNAUTHORIZED'' ''team token required'' (fresh_writer r))"
    using target token(1) by (auto simp: dispatch_def requireTeamToken_def fresh_writer_def)
  moreover have "written r (ErrorReply 401 ''UNAUTHORIZED'' ''team token required'')
      (writeError 401 ''UNAUTHORIZED'' ''team token required'' (fresh_writer r))" by simp
  ultimately show ?thesis
    using serve unfolding written_def
    by (auto simp: ServeHTTP_def logging_def finish_def recoverer_def render_status simp del: render.simps
        split: option.splits ResponseWriter.splits) (metis render_status(2))+
qed

theorem unauthorized_write_changes_nothing_witness:
  "let (w, sv) = ServeHTTP send_api (demo_http (demo_env 0 [])) long_request (demo_server demo_c0\<lparr>sv_cfg := default_config\<lparr>TeamToken := ''t''\<rparr>\<rparr>)
   in w_status w = 401 \<and> sv_store sv = demo_c0"
proof -
  let ?sv = "demo_server demo_c0\<lparr>sv_cfg := default_config\<lparr>TeamToken := ''t''\<rparr>\<rparr>"
  let ?m = "ServeHTTP send_api (demo_http (demo_env 0 [])) long_request ?sv"
  have m: "?m = (fst ?m, snd ?m)" by simp
  have "w_status (fst ?m) = 401 \<and> snd ?m = ?sv\<lparr>sv_log := sv_log (snd ?m)\<rparr>"
    by (rule unauthorized_write_changes_nothing [OF m]) (simp add: long_route, simp_all add: demo_request_def Header_Get_def)
  then have "w_status (fst ?m) = 401" "sv_store (snd ?m) = sv_store (?sv\<lparr>sv_log := sv_log (snd ?m)\<rparr>)"
    by (auto intro: arg_cong [where f = sv_store])
  then show ?thesis by (simp add: case_prod_beta)
qed

section \<open>What a create request may declare\<close>

text \<open>
  A create request for more than 2^55 seconds passes the check against the maximum TTL of a
  day and gets a TTL of one minute: the conversion to nanoseconds wraps around.
\<close>

theorem huge_ttl_is_accepted:
  "(\<exists>q. decode_body (limited maxCreateBody (r_body long_request)) = Some q \<and> cr_TTLSeconds q > 2 ^ 55)
     \<and> MaxTTL default_config = 24 * Hour
     \<and> (\<exists>inp. check_create default_config long_request = Inr inp \<and> in_TTL inp = Minute)"
  by (simp add: long_decoded long_accepted) (simp add: long_input_def default_config_def Hour_def Minute_def)

definition part_within :: "Config \<Rightarrow> PartMeta \<Rightarrow> bool" where
  "part_within cfg m \<longleftrightarrow> PartID m \<noteq> [] \<and> SHA256 m \<noteq> [] \<and> 0 < EncryptedSize m \<and> EncryptedSize m \<le> MaxPartBytes cfg"

lemma check_parts_Inr:
  assumes "check_parts cfg ps seen tot = Inr (ms, t)"
  shows "length ms = length ps \<and> distinct (map PartID ms) \<and> set (map PartID ms) \<inter> set seen = {}
     \<and> (\<forall>m \<in> set ms. part_within cfg m) \<and> t = foldl (\<lambda>a m. add64 a (EncryptedSize m)) tot ms"
  using assms
proof (induction ps arbitrary: seen tot ms t)
  case (Cons p ps)
  then obtain ms' where ms: "check_parts cfg ps (pd_PartID p # seen) (add64 tot (pd_EncryptedSize p)) = Inr (ms', t)"
    and m: "ms = \<lparr>PartID = pd_PartID p, EncryptedSize = pd_EncryptedSize p, SHA256 = pd_SHA256 p\<rparr> # ms'"
    by (auto split: if_splits sum.splits prod.splits)
  from Cons.IH [OF ms] Cons.prems m show ?case
    by (auto simp: part_within_def split: if_splits sum.splits)
qed simp

lemma sum_no_wrap:
  assumes "\<forall>m \<in> set ms. 0 \<le> EncryptedSize m \<and> EncryptedSize m \<le> K" "0 \<le> a" "a + int (length ms) * K < 2 ^ 63"
  shows "foldl (\<lambda>a m. add64 a (EncryptedSize m)) a ms = a + sum_list (map EncryptedSize ms)"
  using assms
proof (induction ms arbitrary: a)
  case (Cons m ms)
  have K: "0 \<le> K" "0 \<le> int (length ms) * K" using Cons.prems(1) by auto
  have b: "a + EncryptedSize m + int (length ms) * K < 2 ^ 63"
    using Cons.prems by (simp add: algebra_simps)
  then have "a + EncryptedSize m < 2 ^ 63" using K(2) by linarith
  then have "add64 a (EncryptedSize m) = a + EncryptedSize m"
    using Cons.prems by (intro add64_id) (auto simp: int64_def)
  with Cons.IH [of "a + EncryptedSize m"] Cons.prems b show ?case by simp
qed simp

lemma check_create_Inr:
  assumes "check_create cfg r = Inr inp" "0 < DefaultTTL cfg"
  shows "in_Version inp = ''send.v1'' \<and> in_Parts inp \<noteq> [] \<and> int (length (in_Parts inp)) \<le> MaxPartCount cfg
     \<and> distinct (map PartID (in_Parts inp)) \<and> (\<forall>m \<in> set (in_Parts inp). part_within cfg m)
     \<and> 0 < in_TTL inp \<and> in_TTL inp \<le> MaxTTL cfg \<and> total_size (in_Parts inp) \<le> MaxTotalBytes cfg"
proof -
  from assms(1) obtain q ms tot where q: "decode_body (limited maxCreateBody (r_body r)) = Some q"
    and ms: "check_parts cfg (cr_Parts q) [] 0 = Inr (ms, tot)"
    and ok: "cr_Version q = ''send.v1''" "cr_Parts q \<noteq> []" "int (length (cr_Parts q)) \<le> MaxPartCount cfg"
      "effective_ttl cfg q \<le> MaxTTL cfg" "tot \<le> MaxTotalBytes cfg"
    and inp: "inp = \<lparr>in_Version = cr_Version q, in_OneTime = (case cr_OneTime q of None \<Rightarrow> True | Some b \<Rightarrow> b),
        in_TTL = effective_ttl cfg q, in_Parts = ms\<rparr>"
    by (auto simp: check_create_def not_le not_less split: option.splits if_splits sum.splits prod.splits)
  have "0 < effective_ttl cfg q" using assms(2) by (simp add: effective_ttl_def Let_def)
  with check_parts_Inr [OF ms] ok show ?thesis by (auto simp: inp total_size_def)
qed


section \<open>Successful replies\<close>

lemma error_status:
  "400 \<le> w_status (render r (store_reply e))" "400 \<le> w_status (render r (download_reply e))"
  by (cases rule: store_reply_cases [of e], simp_all add: answer_def internal_error_def)
     (cases rule: download_reply_cases [of e], simp_all add: answer_def internal_error_def)

lemma call_success:
  assumes "call f c onerr k = (rep, c')" "w_status (render r rep) < 400" "\<And>e. 400 \<le> w_status (render r (onerr e))"
  obtains x c1 where "f c = (Inr x, c1)" "k x c1 = (rep, c')"
  using assms by (auto simp: call_def not_less [symmetric] split: prod.splits sum.splits)

lemma serve_success:
  assumes "ServeHTTP A h r sv = (w, sv')" "w_status w < 400"
  obtains rep where "handle A (he_env h) (sv_cfg sv) r (route_request routes r) (sv_store sv) = (rep, sv_store sv')"
    "w = render r rep" "sv_cfg sv' = sv_cfg sv" "authorized (sv_cfg sv) (route_request routes r) r"
proof -
  from assms(1) obtain rep where "respond A (admitted h (route_request routes r) r sv) (he_env h) (sv_cfg sv) r
      (route_request routes r) (sv_store sv) = (rep, sv_store sv')" "w = render r rep" "sv_cfg sv' = sv_cfg sv"
    by (rule serve_spec)
  with assms(2) that show thesis by (auto simp: respond_def answer_def split: if_splits)
qed

lemma handle_201:
  assumes "handle A e cfg r t c = (rep, c')" "w_status (render r rep) = 201"
  shows "t = Create \<and> (\<exists>inp rec. check_create cfg r = Inr inp \<and> sd_CreateSend A e inp c = (Inr rec, c')
     \<and> rep = JsonReply 201 (created_body cfg r rec))"
proof -
  have le: "w_status (render r rep) < 400" using assms(2) by simp
  note [elim!] = call_success [OF _ le]
  show ?thesis
  proof (cases t)
    case Create
    with assms show ?thesis
      by (cases "check_create cfg r") (auto simp: error_status answer_def dest: check_create_status)
  next
    case (Download sid pid)
    with assms show ?thesis by (auto simp: error_status answer_def)
  qed (use assms in \<open>auto simp: error_status answer_def Let_def mux_not_success split: if_splits\<close>)
qed

text \<open>
  C18. A 201 answer means one call of CreateSend with a positive TTL of at most seven days,
  between one and MaxPartCount distinct parts of positive size up to MaxPartBytes, and a
  total of at most MaxTotalBytes, for every accepted configuration whose caps do not
  overflow int64 together.
\<close>

theorem accepted_create_is_within_limits:
  assumes cfg: "Load E = Inr (sv_cfg sv)" and serve: "ServeHTTP A h r sv = (w, sv')" and ok: "w_status w = 201"
    and small: "MaxPartCount (sv_cfg sv) * MaxPartBytes (sv_cfg sv) < 2 ^ 63"
  shows "\<exists>inp rec. sd_CreateSend A (he_env h) inp (sv_store sv) = (Inr rec, sv_store sv')
     \<and> w = render r (JsonReply 201 (created_body (sv_cfg sv) r rec))
     \<and> 0 < in_TTL inp \<and> in_TTL inp \<le> 604800 * Second
     \<and> in_Parts inp \<noteq> [] \<and> int (length (in_Parts inp)) \<le> MaxPartCount (sv_cfg sv) \<and> distinct (map PartID (in_Parts inp))
     \<and> (\<forall>m \<in> set (in_Parts inp). 0 < EncryptedSize m \<and> EncryptedSize m \<le> MaxPartBytes (sv_cfg sv))
     \<and> sum_list (map EncryptedSize (in_Parts inp)) \<le> MaxTotalBytes (sv_cfg sv)"
proof -
  from serve obtain rep where rep: "handle A (he_env h) (sv_cfg sv) r (route_request routes r) (sv_store sv) = (rep, sv_store sv')"
    and w: "w = render r rep"
    by (rule serve_success) (use ok in simp)
  obtain inp rec where inp: "check_create (sv_cfg sv) r = Inr inp" "sd_CreateSend A (he_env h) inp (sv_store sv) = (Inr rec, sv_store sv')"
    and r: "rep = JsonReply 201 (created_body (sv_cfg sv) r rec)"
    using handle_201 [OF rep] ok w by blast
  have c: "0 < DefaultTTL (sv_cfg sv)" "MaxTTL (sv_cfg sv) \<le> 604800 * Second" "0 < MaxPartBytes (sv_cfg sv)"
    using Load_cases(1) [OF cfg] by (auto simp: validate_def hardMaxTTL_def Hour_def Minute_def split: if_splits)
  note lim = check_create_Inr [OF inp(1) c(1)]
  have "int (length (in_Parts inp)) * MaxPartBytes (sv_cfg sv) \<le> MaxPartCount (sv_cfg sv) * MaxPartBytes (sv_cfg sv)"
    using lim c(3) by (intro mult_right_mono) auto
  then have "total_size (in_Parts inp) = sum_list (map EncryptedSize (in_Parts inp))"
    unfolding total_size_def using lim small by (subst sum_no_wrap) (auto simp: part_within_def)
  with lim c(2) inp(2) w r show ?thesis by (intro exI [of _ inp] exI [of _ rec]) (auto simp: part_within_def)
qed

theorem accepted_create_is_within_limits_witness:
  "\<exists>inp rec. sd_CreateSend send_api (demo_env 0 ''0123456789'') inp demo_c0 = (Inr rec,
         sv_store (snd (ServeHTTP send_api (demo_http (demo_env 0 ''0123456789'')) long_request (demo_server demo_c0))))
     \<and> 0 < in_TTL inp \<and> sum_list (map EncryptedSize (in_Parts inp)) \<le> 26214400"
proof -
  let ?e = "demo_env 0 ''0123456789''"
  let ?m = "ServeHTTP send_api (demo_http ?e) long_request (demo_server demo_c0)"
  obtain rec c where "co_CreateSend sqlite_state ?e long_input demo_c0 = (Inr rec, c)"
    by (simp add: co_CreateSend_def CreateSend_def UnixMilli_def demo_id_new insert_send_def insert_part_def
      demo_eval_store long_input_def)
  then have "handle send_api ?e default_config long_request Create demo_c0 = (JsonReply 201 (created_body default_config long_request rec), c)"
    by (simp add: call_def long_accepted)
  note s = demo_serve(1) [OF long_route this]
  have "w_status (fst ?m) = 201" by (simp add: s answer_def)
  moreover have "?m = (fst ?m, snd ?m)" by simp
  moreover have "Load (\<lambda>_. None) = Inr (sv_cfg (demo_server demo_c0))" by (simp add: Load_default)
  moreover have "MaxPartCount (sv_cfg (demo_server demo_c0)) * MaxPartBytes (sv_cfg (demo_server demo_c0)) < 2 ^ 63"
    by (simp add: default_config_def)
  ultimately show ?thesis
    using accepted_create_is_within_limits [of "\<lambda>_. None" "demo_server demo_c0" send_api "demo_http ?e" long_request "fst ?m" "snd ?m"]
    by (auto simp: default_config_def)
qed

section \<open>The body and the digest header\<close>



lemma hex_byte_onto:
  assumes "a \<in> set hex_digits" "b \<in> set hex_digits"
  shows "\<exists>c. hex_byte c = [a, b]"
proof -
  from assms obtain i j where ij: "i < 16" "j < 16" "hex_digits ! i = a" "hex_digits ! j = b"
    by (metis hex_digits_facts(2) in_set_conv_nth)
  have "(of_char (char_of (16 * i + j) :: char) :: nat) = 16 * i + j" using ij(1,2) by simp
  with ij have "hex_byte (char_of (16 * i + j)) = [a, b]" by (simp add: hex_byte_def Let_def)
  then show ?thesis ..
qed

lemma hex_string_onto:
  "set s \<subseteq> set hex_digits \<Longrightarrow> length s = 2 * n \<Longrightarrow> \<exists>bs. length bs = n \<and> s = EncodeToString bs"
proof (induction n arbitrary: s)
  case 0
  then show ?case by (simp add: EncodeToString_def)
next
  case (Suc n)
  then obtain a b t where s: "s = a # b # t" "length t = 2 * n" by (auto simp: length_Suc_conv)
  from s Suc.prems have "a \<in> set hex_digits" "b \<in> set hex_digits" "set t \<subseteq> set hex_digits" by auto
  from hex_byte_onto [OF this(1,2)] Suc.IH [OF this(3) s(2)] obtain c bs where
    "hex_byte c = [a, b]" "length bs = n" "t = EncodeToString bs" by blast
  with s show ?case by (intro exI [of _ "c # bs"]) (simp add: EncodeToString_def)
qed

lemma hex_digit_range: "c \<in> set hex_digits \<longleftrightarrow> (CHR ''0'' \<le> c \<and> c \<le> CHR ''9'') \<or> (CHR ''a'' \<le> c \<and> c \<le> CHR ''f'')"
  by (cases c) (auto simp: hex_digits_def less_eq_char_def)

theorem digest_header_is_hex_of_32_bytes:
  "validSHA256Hex s \<longleftrightarrow> (\<exists>bs. length bs = 32 \<and> s = EncodeToString bs)"
proof -
  have "validSHA256Hex s \<longleftrightarrow> length s = 2 * 32 \<and> set s \<subseteq> set hex_digits"
    by (auto simp: validSHA256Hex_def hex_digit_range)
  then show ?thesis using hex_string_onto [of s 32] EncodeToString_digits by auto
qed

end
