(* ===== verification/ServerProps.thy ===== *)
theory ServerProps
  imports ApiProps
begin

text \<open>
  The server over the stores it runs on: any sequence of requests, sweeps and crashes between
  store calls, and what its answers promise in every state it reaches.
\<close>

section \<open>The running server\<close>

text \<open>
  A request runs to its end; between two requests the store may take any step of its own: a
  sweep, or a call that the process does not survive. Only the part ids that clients choose are
  restricted, to plain file names.
\<close>

inductive server_trans :: "store server \<Rightarrow> store server \<Rightarrow> bool" where
  request: "temp_suffix (tmp_suffix (he_env h)) \<Longrightarrow>
     \<forall>inp. check_create (sv_cfg sv) r = Inr inp \<longrightarrow> plain_parts inp \<Longrightarrow>
     server_trans sv (snd (ServeHTTP send_api h r sv))"
| background: "store_trans (sv_store sv) c \<Longrightarrow> server_trans sv (sv\<lparr>sv_store := c\<rparr>)"

inductive server_reach :: "store server \<Rightarrow> store server \<Rightarrow> bool" for sv0 where
  init: "server_reach sv0 sv0"
| step: "server_reach sv0 sv \<Longrightarrow> server_trans sv sv' \<Longrightarrow> server_reach sv0 sv'"

lemma server_reaches_store:
  assumes "server_reach sv0 sv"
  shows "store_reach (sv_store sv0) (sv_store sv)"
  using assms
proof induction
  case init
  show ?case by (rule co_reach.init)
next
  case (step sv sv')
  from step.hyps(2) show ?case
  proof cases
    case (request h r)
    have "store_reach (sv_store sv) (sv_store (snd (ServeHTTP send_api h r sv)))"
      by (rule rc.serve_R) (use request in auto)
    with step.IH request(1) show ?thesis by (blast intro: co_reach_trans)
  next
    case (background c)
    with step.IH show ?thesis by (auto intro: co_reach.step)
  qed
qed

lemma server_coupled:
  assumes "fresh_coordinator s b cap (sv_store sv0)" "server_reach sv0 sv"
  shows "st.coupled (sv_store sv)" "tables_inv (db (state (sv_store sv)))"
  using reach_is_coupled [OF assms(1) server_reaches_store [OF assms(2)]] by (simp_all add: sql_ok_def)

lemma served:
  assumes "ServeHTTP A h r sv = (w, sv')" "w_status w = 200" "route_request routes r = t"
  obtains rep where "handle A (he_env h) (sv_cfg sv) r t (sv_store sv) = (rep, sv_store sv')"
    "w = render r rep" "w_status (render r rep) = 200" "w_status (render r rep) < 400"
proof -
  have "w_status w < 400" using assms(2) by simp
  from assms(1) this show thesis by (rule serve_success) (use assms(2,3) that in simp)
qed

text \<open>The concrete server reaches what its store reaches.\<close>

lemma demo_server_reach: "store_reach c c' \<Longrightarrow> server_reach (demo_server c) (demo_server c')"
proof (induction rule: co_reach.induct)
  case init
  show ?case by (rule server_reach.init)
next
  case (step c1 c2)
  have "server_trans (demo_server c1) ((demo_server c1)\<lparr>sv_store := c2\<rparr>)"
    using step.hyps(2) by (intro server_trans.background) simp
  moreover have "(demo_server c1)\<lparr>sv_store := c2\<rparr> = demo_server c2" by (simp add: demo_server_def New_server_def)
  ultimately show ?case using step.IH by (auto intro: server_reach.step)
qed

lemma demo_server_fresh: "fresh_coordinator (fresh_store (600 * Second)) (demo_fs []) 100 (sv_store (demo_server demo_c0))"
  using demo_fresh by simp

lemma demo_reach_c3: "store_reach demo_c0 demo_c3"
proof -
  have "store_trans demo_c2 demo_c3"
    using co_trans.finalize [of sqlite_state filesystem_blob plain demo_c2 "demo_env (2 * Second) []" demo_id]
    unfolding demo_step3 by simp
  with demo_reach(2) show ?thesis by (rule co_reach.step)
qed

section \<open>Downloads\<close>



section \<open>Uploads\<close>

text \<open>Of what an upload declares, only the digest is looked at.\<close>

lemma PutPart_sha: "SHA256 d = SHA256 d' \<Longrightarrow> PutPart S B e sid pid r d c = PutPart S B e sid pid r d' c"
  by (simp only: PutPart_def upload_check_def)


text \<open>
  C10. A 200 answer to an upload means that the send was still creating, that the request
  body ended without an error and is now the visible blob of the part byte for byte, and
  that its size and SHA-256 are those declared for the part, which is marked uploaded.
\<close>

theorem http_upload_publishes_the_body:
  assumes run: "fresh_coordinator s b cap (sv_store sv0)" "server_reach sv0 sv" "0 < maxPartBytes (sv_store sv)"
      "maxPartBytes (sv_store sv) < 2 ^ 63 - 1"
    and env: "temp_suffix (tmp_suffix (he_env h))"
    and r: "route_request routes r = Upload sid pid" "plain pid" "\<not> HasPrefix pid ''.tmp-''"
    and serve: "ServeHTTP send_api h r sv = (w, sv')" "w_status w = 200"
  shows "(\<exists>q. find_send sid (db (state (sv_store sv))) = Some q \<and> s_status q = SendStatusCreating)
     \<and> (\<exists>p. find_part sid pid (db (state (sv_store sv'))) = Some p \<and> p_uploaded_at p \<noteq> None
          \<and> p_encrypted_size p = int (length (r_data (r_body r))) \<and> p_sha256 p = sha256_hex (r_data (r_body r)))
     \<and> view (blob (sv_store sv')) [sid, pid] = Some (r_data (r_body r)) \<and> \<not> r_fails (r_body r)"
proof -
  let ?c = "sv_store sv" and ?sha = "Header_Get r ''X-Send-Ciphertext-Sha256''"
  from serve r(1) obtain rep where rep: "handle send_api (he_env h) (sv_cfg sv) r (Upload sid pid) ?c = (rep, sv_store sv')"
    and w: "w = render r rep" and st: "w_status (render r rep) = 200" and le: "w_status (render r rep) < 400"
    by (rule served)
  have "validSHA256Hex ?sha" using rep st by (auto simp: Let_def answer_def split: if_splits)
  with rep have "call (PutPart sqlite_state filesystem_blob (he_env h) sid pid (r_body r) \<lparr>PartID = pid, EncryptedSize = 0, SHA256 = ?sha\<rparr>)
      ?c store_reply (\<lambda>n c. (JsonReply 200 (JObj [(''encrypted_size'', JNum (Itoa n)), (''ok'', JBool True), (''part_id'', JStr pid)]), c))
      = (rep, sv_store sv')" by (simp add: Let_def)
  from call_success [OF this le error_status(1)] obtain n where
    put: "PutPart sqlite_state filesystem_blob (he_env h) sid pid (r_body r) \<lparr>PartID = pid, EncryptedSize = 0, SHA256 = ?sha\<rparr> ?c
      = (Inr n, sv_store sv')" by auto
  from PutPart_publishes [OF run(1) server_reaches_store [OF run(2)] env r(2,3) put] obtain q p t want where
    q: "find_send sid (db (state ?c)) = Some q" "s_status q = SendStatusCreating"
    and p: "find_part sid pid (db (state (sv_store sv'))) = Some p" "p_uploaded_at p = Some (Unix (clock (he_env h)))"
      "n = p_encrypted_size p" "view (blob (sv_store sv')) [sid, pid] = Some t" "int (length t) = n" "sha256_hex t = p_sha256 p"
    and t: "t = fst (limited (add64 (maxPartBytes ?c) 1) (r_body r))" "put_ok (r_body r) want (maxPartBytes ?c) n" by blast
  have "int64 (maxPartBytes ?c)" using run(3,4) by (simp add: int64_def)
  from limited_all [OF this run(4) t(2)] t(1) p q show ?thesis by auto
qed

lemma demo_upload_handled:
  "handle send_api (demo_env Second []) default_config upload_request (Upload demo_id ''a'') demo_c1
    = (JsonReply 200 (JObj [(''encrypted_size'', JNum (Itoa 3)), (''ok'', JBool True), (''part_id'', JStr ''a'')]), demo_c2)"
proof -
  have r: "Header_Get upload_request ''X-Send-Ciphertext-Sha256'' = demo_sha" "r_body upload_request = demo_upload"
    by (simp_all add: demo_request_def Header_Get_def demo_upload_def)
  have valid: "validSHA256Hex demo_sha"
    using sha256_hex_digits [of demo_bytes] by (auto simp: validSHA256Hex_def demo_sha_def hex_digits_def less_eq_char_def)
  have "PutPart sqlite_state filesystem_blob (demo_env Second []) demo_id ''a'' demo_upload
      \<lparr>PartID = ''a'', EncryptedSize = 0, SHA256 = demo_sha\<rparr> demo_c1 = (Inr 3, demo_c2)"
    by (rule HOL.trans [OF PutPart_sha demo_step2]) (simp add: demo_meta_def)
  then show ?thesis
    by (simp only: handle.simps r valid Let_def) (simp add: call_def)
qed

theorem http_upload_publishes_the_body_witness:
  "view (blob (sv_store (snd (ServeHTTP send_api (demo_http (demo_env Second [])) upload_request (demo_server demo_c1)))))
     [demo_id, ''a''] = Some demo_bytes"
proof -
  let ?m = "ServeHTTP send_api (demo_http (demo_env Second [])) upload_request (demo_server demo_c1)"
  have r: "r_body upload_request = demo_upload" by (simp add: demo_request_def demo_upload_def)
  from demo_serve(1) [OF demo_routes(4) demo_upload_handled] have st: "w_status (fst ?m) = 200" by (simp add: answer_def)
  have m: "?m = (fst ?m, snd ?m)" by simp
  have "temp_suffix (tmp_suffix (he_env (demo_http (demo_env Second []))))" by (simp add: demo_env_def temp_suffix_def)
  from http_upload_publishes_the_body [OF demo_server_fresh demo_server_reach [OF demo_reach(1)] _ _ this demo_routes(4) demo_plain m st]
  show ?thesis by (simp add: r demo_upload_def) (simp add: demo_store_def)
qed

section \<open>Redeems\<close>

text \<open>A run of the server: requests in turn, with sweeps of the collector between them.\<close>

datatype event = Request http_env request | Swept int

fun serve_event :: "event \<Rightarrow> store server \<Rightarrow> store server" where
  "serve_event (Request h r) sv = snd (ServeHTTP send_api h r sv)"
| "serve_event (Swept now) sv = sv\<lparr>sv_store := reaped (Sweep store_reaper now (New_worker (sv_store sv) 1 False))\<rparr>"

lemma serve_event_cfg [simp]: "sv_cfg (serve_event ev sv) = sv_cfg sv"
proof (cases ev)
  case (Request h r)
  obtain w sv' where s: "ServeHTTP send_api h r sv = (w, sv')" by fastforce
  from serve_respond [OF s refl surjective_pairing] Request s show ?thesis by simp
qed simp

definition redeemed :: "string \<Rightarrow> event \<Rightarrow> store server \<Rightarrow> bool" where
  "redeemed sid ev sv \<longleftrightarrow>
     (case ev of
        Request h r \<Rightarrow> route_request routes r = Redeem sid \<and> w_status (fst (ServeHTTP send_api h r sv)) = 200
      | Swept now \<Rightarrow> False)"

fun http_redeems :: "string \<Rightarrow> event list \<Rightarrow> store server \<Rightarrow> nat" where
  "http_redeems sid [] sv = 0"
| "http_redeems sid (ev # evs) sv = (if redeemed sid ev sv then 1 else 0) + http_redeems sid evs (serve_event ev sv)"

text \<open>The event's random bytes do not make the id again.\<close>

definition other_id :: "string \<Rightarrow> event \<Rightarrow> bool" where
  "other_id sid ev \<longleftrightarrow>
     (case ev of Request h r \<Rightarrow> NewSendID (UnixMilli (wall (he_env h))) (entropy (he_env h)) \<noteq> Some sid | Swept now \<Rightarrow> True)"

lemma no_creation_runs:
  assumes "\<forall>x \<in> set xs. \<not> creates sid x"
  shows "(spent sid (db s) \<longrightarrow> spent sid (db (sql_run xs s)))
     \<and> (one_time_only sid (db s) \<longrightarrow> one_time_only sid (db (sql_run xs s)))"
  using assms no_creation_step by (induction xs arbitrary: s) auto

lemma sweep_calls:
  "\<exists>xs. state (reaped (Sweep store_reaper now (New_worker c i b))) = sql_run xs (state c) \<and> set xs \<subseteq> {OpDelete now, OpLive}"
proof -
  have del: "state (snd (co_DeleteExpired sqlite_state filesystem_blob now c)) = sql_step (OpDelete now) (state c)" for c :: store
    by (cases "DeleteExpired now (state c)"; cases "fst (DeleteExpired now (state c))")
       (auto simp: co_DeleteExpired_def on_state_def)
  have orph: "state (snd (OrphanSweep sqlite_state filesystem_blob c)) = sql_step OpLive (state c)" for c :: store
    by (cases "LiveStorageKeys (state c)"; cases "fst (LiveStorageKeys (state c))"; cases "List_blobs (blob c)";
        cases "fst (List_blobs (blob c))")
       (auto simp: OrphanSweep_def on_state_def on_blob_def)
  show ?thesis
    using exI [of "\<lambda>xs. _ = sql_run xs (state c) \<and> set xs \<subseteq> {OpDelete now, OpLive}" "[OpDelete now]"]
      exI [of "\<lambda>xs. _ = sql_run xs (state c) \<and> set xs \<subseteq> {OpDelete now, OpLive}" "[OpDelete now, OpLive]"]
    by (simp add: reaped_Sweep Let_def New_worker_def del orph)
qed

lemma event_calls:
  assumes "other_id sid ev"
  obtains xs where "state (sv_store (serve_event ev sv)) = sql_run xs (state (sv_store sv))" "\<forall>x \<in> set xs. \<not> creates sid x"
proof (cases ev)
  case (Request h r)
  have "sql_moves (\<lambda>_. True) (he_env h) (sv_store sv) (sv_store (snd (ServeHTTP send_api h r sv)))"
    by (rule mv.serve_R) simp_all
  with Request assms that show thesis by (fastforce simp: sql_moves_def other_id_def made_by_def creates_def split: sql_op.splits)
next
  case (Swept now)
  obtain xs where xs: "state (reaped (Sweep store_reaper now (New_worker (sv_store sv) 1 False))) = sql_run xs (state (sv_store sv))"
    "set xs \<subseteq> {OpDelete now, OpLive}"
    using sweep_calls [of now "sv_store sv" 1 False] by blast
  then have "\<forall>x \<in> set xs. \<not> creates sid x" by (auto simp: creates_def)
  with Swept xs(1) that [of xs] show thesis by simp
qed

lemma redeemed_spends:
  assumes "redeemed sid ev sv" "one_time_only sid (db (state (sv_store sv)))" "tables_inv (db (state (sv_store sv)))"
  shows "\<not> spent sid (db (state (sv_store sv))) \<and> spent sid (db (state (sv_store (serve_event ev sv))))"
proof -
  obtain h r w sv' where ev: "ev = Request h r" "route_request routes r = Redeem sid" "ServeHTTP send_api h r sv = (w, sv')"
    "w_status w = 200"
    using assms(1) by (cases ev) (auto simp: redeemed_def, metis prod.collapse fst_conv)
  from ev(3,4,2) obtain rep where rep: "handle send_api (he_env h) (sv_cfg sv) r (Redeem sid) (sv_store sv) = (rep, sv_store sv')"
    and le: "w_status (render r rep) < 400"
    by (rule served)
  from call_success [OF rep [unfolded handle.simps] le error_status(1)] obtain g where
    "co_RedeemSend sqlite_state (he_env h) sid (sv_store sv) = (Inr g, sv_store sv')" by auto
  then have "fst (RedeemSend (entropy (he_env h)) (clock (he_env h)) sid (state (sv_store sv))) = Inr g"
    "sv_store sv' = (sv_store sv)\<lparr>state := snd (RedeemSend (entropy (he_env h)) (clock (he_env h)) sid (state (sv_store sv)))\<rparr>"
    by (simp_all add: co_RedeemSend_def on_state_eq)
  then have "RedeemSend (entropy (he_env h)) (clock (he_env h)) sid (state (sv_store sv)) = (Inr g, state (sv_store sv'))"
    by (simp add: prod_eq_iff)
  from redeem_spends [OF this assms(2,3)] ev show ?thesis by simp
qed

lemma http_redeems_bound:
  assumes "tables_inv (db (state (sv_store sv)))" "one_time_only sid (db (state (sv_store sv)))" "\<forall>ev \<in> set evs. other_id sid ev"
  shows "http_redeems sid evs sv \<le> (if spent sid (db (state (sv_store sv))) then 0 else 1)"
  using assms
proof (induction evs arbitrary: sv)
  case (Cons ev evs)
  then have "other_id sid ev" by simp
  then obtain xs where xs: "state (sv_store (serve_event ev sv)) = sql_run xs (state (sv_store sv))" "\<forall>x \<in> set xs. \<not> creates sid x"
    by (rule event_calls)
  note keep = no_creation_runs [OF xs(2), of "state (sv_store sv)", folded xs(1)]
  have inv: "tables_inv (db (state (sv_store (serve_event ev sv))))" using Cons.prems(1) by (simp add: xs(1) tables_inv_run)
  from Cons.IH [OF inv] keep Cons.prems have IH:
    "http_redeems sid evs (serve_event ev sv) \<le> (if spent sid (db (state (sv_store (serve_event ev sv)))) then 0 else 1)" by simp
  show ?case
  proof (cases "redeemed sid ev sv")
    case True
    from redeemed_spends [OF True Cons.prems(2,1)] IH True show ?thesis by simp
  next
    case False
    with IH keep show ?thesis by (auto split: if_splits)
  qed
qed simp

text \<open>
  C3. Over any run of requests and sweeps from any state the server reaches, with any
  failures and clocks, a one-time send is answered 200 to a redeem at most once, as long as
  no later request draws its id again.
\<close>

theorem http_redeemed_at_most_once:
  assumes run: "fresh_coordinator s b cap (sv_store sv0)" "server_reach sv0 sv"
    and one: "find_send sid (db (state (sv_store sv))) = Some q" "s_one_time q = 1"
    and ids: "\<forall>ev \<in> set evs. other_id sid ev"
  shows "http_redeems sid evs sv \<le> 1"
proof -
  note inv = server_coupled(2) [OF run]
  have "one_time_only sid (db (state (sv_store sv)))"
    using one inv unique_row [OF inv] by (auto simp: find_send_iff one_time_only_def)
  from http_redeems_bound [OF inv this ids] show ?thesis by (simp split: if_splits)
qed

theorem http_redeemed_at_most_once_witness:
  "let h = demo_http (demo_env (3 * Second) ''abcdefghijklmnopqrstuvwxyz012345'')
   in http_redeems demo_id [Request h redeem_request, Swept (4 * Second), Request h redeem_request] (demo_server demo_c3) \<le> 1"
proof -
  have "find_send demo_id (db (state (sv_store (demo_server demo_c3)))) = Some (demo_one (Some 2) None)"
    "s_one_time (demo_one (Some 2) None) = 1"
    by (simp_all add: demo_eval_store)
  note main = http_redeemed_at_most_once [OF demo_server_fresh demo_server_reach [OF demo_reach_c3] this]
  have "NewSendID 0 (Some ''abcdefghijklmnopqrstuvwxyz012345'') \<noteq> Some demo_id"
    unfolding demo_id_def by code_simp
  then show ?thesis
    unfolding Let_def by (intro main) (simp add: other_id_def demo_env_def UnixMilli_def)
qed

end
