(* ===== verification/Sendd.thy ===== *)
theory Sendd
  imports ServerProps
begin

text \<open>
  \<open>server/cmd/sendd/sendd.go\<close> and \<open>server/main.go\<close>: the life of the process. \<open>start\<close> loads
  the configuration, opens the request log and the two stores, and wires coordinator,
  limiters, API server and sweeper; \<open>Run\<close> then listens, serves until the context is cancelled
  or the listener fails, and runs the deferred closes. The environment gives the working
  directory, the limit on SQL variables, what the database and the file system hold, the
  failures of their calls, whether the log file opens, and what \<open>net/http\<close> answers.
\<close>

section \<open>The program\<close>

record surroundings =
  su_cwd :: string
  su_vars :: nat
  su_tables :: tables
  su_dbFaults :: "bool list"
  su_files :: "(path \<times> node) list"
  su_fsFaults :: "bool list"
  su_logOpens :: bool

datatype run_error =
    ConfigError config_error | LogError | StateError store_error | BlobError store_error
  | ListenError string | ShutdownError string | ServeError string

text \<open>What is open when \<open>Run\<close> returns; its deferred calls close the last one first.\<close>

datatype resource = LogFile | StateStore

definition start :: "environ \<Rightarrow> surroundings \<Rightarrow> (run_error \<times> resource list) + (store server \<times> store worker \<times> resource list)" where
  "start E su =
     (case Load E of
        Inl e \<Rightarrow> Inl (ConfigError e, [])
      | Inr cfg \<Rightarrow>
          if RequestLog cfg \<noteq> [] \<and> \<not> su_logOpens su then Inl (LogError, [])
          else
            (let held = (if RequestLog cfg \<noteq> [] then [LogFile] else [])
             in case OpenSQLiteState (DBPath cfg) (GrantTTL cfg) (su_vars su) (su_tables su) (su_dbFaults su) of
                  (Inl e, s) \<Rightarrow> Inl (StateError e, held)
                | (Inr _, s) \<Rightarrow>
                    (case OpenFilesystemBlob (su_cwd su) (BlobDir cfg) (su_files su) (su_fsFaults su) of
                       (Inl e, b) \<Rightarrow> Inl (BlobError e, held @ [StateStore])
                     | (Inr _, b) \<Rightarrow>
                         (let coord = NewCoordinator s b (MaxPartBytes cfg);
                              createLim = New_limiter (RateCreatePerMin cfg) (RateWindow cfg);
                              uploadLim = New_limiter (RateUploadPerMin cfg) (RateWindow cfg)
                          in Inr (New_server coord cfg (Some New_logger) (Some createLim) (Some uploadLim),
                                  New_worker coord (GCInterval cfg) True, held @ [StateStore])))))"

text \<open>
  The \<open>select\<close> at the end: the context is cancelled and \<open>Shutdown\<close> answers, or \<open>Serve\<close>
  returns, with \<open>ErrServerClosed\<close> or another error.
\<close>

datatype stop = Cancelled_ctx "string option" | Serve_returned "string option"

fun stop_error :: "stop \<Rightarrow> run_error option" where
  "stop_error (Cancelled_ctx None) = None"
| "stop_error (Cancelled_ctx (Some e)) = Some (ShutdownError e)"
| "stop_error (Serve_returned None) = None"
| "stop_error (Serve_returned (Some e)) = Some (ServeError e)"

record process_end =
  pe_error :: "run_error option"
  pe_stdout :: string
  pe_closed :: "resource list"
  pe_server :: "store server option"

text \<open>
  \<open>bound\<close> is the address that \<open>net.Listen\<close> bound, or its error. \<open>evs\<close> are the requests that
  \<open>net/http\<close> serves and the passes of the sweeper, in the order in which they take effect.
\<close>

definition close_state :: "store server \<Rightarrow> store server" where
  "close_state sv = sv\<lparr>sv_store := (sv_store sv)\<lparr>state := snd (Close (state (sv_store sv)))\<rparr>\<rparr>"

definition Run :: "environ \<Rightarrow> surroundings \<Rightarrow> string + string \<Rightarrow> event list \<Rightarrow> stop \<Rightarrow> process_end" where
  "Run E su bound evs st =
     (case start E su of
        Inl (e, held) \<Rightarrow> \<lparr>pe_error = Some e, pe_stdout = [], pe_closed = rev held, pe_server = None\<rparr>
      | Inr (sv, w, held) \<Rightarrow>
          (case bound of
             Inl e \<Rightarrow> \<lparr>pe_error = Some (ListenError e), pe_stdout = [], pe_closed = rev held, pe_server = Some (close_state sv)\<rparr>
           | Inr addr \<Rightarrow>
               \<lparr>pe_error = stop_error st, pe_stdout = ''http://'' @ addr @ [newline], pe_closed = rev held,
                pe_server = Some (close_state (fold serve_event evs sv))\<rparr>))"

text \<open>The status of the process: \<open>log.Fatalf\<close> exits with 1.\<close>

definition main_status :: "process_end \<Rightarrow> nat" where
  "main_status x = (case pe_error x of None \<Rightarrow> 0 | Some e \<Rightarrow> 1)"

section \<open>What the stores open to\<close>

lemma run_all_db: "run_all cs s = (r, s') \<Longrightarrow> db s' = db s"
proof (induction cs arbitrary: s)
  case (Cons c cs)
  have "db (snd (query c (\<lambda>_. ()) s)) = db s"
    by (cases rule: result_cases [of "query c (\<lambda>_. ()) s"]) (auto dest!: query_Inr query_Inl)
  with Cons show ?case
    by (cases "query c (\<lambda>_. ()) s"; cases "fst (query c (\<lambda>_. ()) s)") auto
qed simp

lemma OpenSQLiteState_db: "OpenSQLiteState path ttl vars d faults = (Inr u, s) \<Longrightarrow> db s = d"
  unfolding OpenSQLiteState_def migrate_def Let_def
  by (auto elim!: on_ok_InrE dest!: run_all_db simp del: run_all.simps)

lemma OpenFilesystemBlob_ok:
  assumes open_dir: "OpenFilesystemBlob cwd (rooted_path ds) ns faults = (Inr u, b)"
    and ds: "ds \<noteq> []" "\<forall>w \<in> set ds. plain w" and ns: "ns_ok ds ns"
  shows "blob_ok b \<and> root b = ds \<and> fview (nodes b) = fview ns"
proof -
  let ?b = "\<lparr>dir = [], nodes = ns, fsFaults = faults\<rparr>"
  have abs: "HasPrefix (rooted_path ds) ''/''" "rooted_path ds \<noteq> []" by (simp_all add: rooted_path_def HasPrefix_def)
  then obtain b1 where b1: "MkdirAll (rooted_path ds) ?b = (Inr (), b1)"
    and b: "b = b1\<lparr>dir := Clean (Clean (rooted_path ds))\<rparr>"
    using open_dir by (auto simp: OpenFilesystemBlob_def Let_def wrap_err_Inr elim!: on_ok_InrE)
  obtain qs where qs: "MkdirAll (rooted_path ds) ?b = mkdir_each qs ?b" "\<forall>q \<in> set qs. \<exists>n. q = take n ds"
    using MkdirAll_rooted [OF ds(2)] by blast
  have "\<forall>q \<in> set qs. (\<forall>w \<in> set q. plain w) \<and> (\<forall>q' w. q = ds @ q' \<longrightarrow> w \<in> set q' \<longrightarrow> \<not> Contains w ''..'')"
  proof (intro ballI conjI allI impI)
    fix q w assume "q \<in> set qs" "w \<in> set q"
    then obtain n where "w \<in> set (take n ds)" using qs(2) by auto
    then show "plain w" using ds(2) in_set_takeD by metis
  next
    fix q q' w assume q: "q \<in> set qs" "q = ds @ q'" "w \<in> set q'"
    with qs(2) obtain n where "take n ds = ds @ q'" by auto
    then have "length (take n ds) = length ds + length q'" by simp
    then have "q' = []" by (cases q') auto
    with q(3) show "\<not> Contains w ''..''" by simp
  qed
  with mkdir_each_effect [of ds ?b qs "Inr ()" b1] ns b1 qs(1) have "ns_ok ds (nodes b1)" "fview (nodes b1) = fview ns" by simp_all
  then show ?thesis
    using ds by (auto simp: b Clean_rooted_path blob_ok_def kpath_rooted)
qed

lemma started:
  assumes start: "start E su = Inr (sv, w, held)" and dir: "E ''SEND_BLOB_DIR'' = Some (rooted_path ds)"
    and disk: "ds \<noteq> []" "\<forall>w \<in> set ds. plain w" "ns_ok ds (su_files su)"
  obtains cfg s b where "Load E = Inr cfg" "sv_cfg sv = cfg" "sv_store sv = NewCoordinator s b (MaxPartBytes cfg)"
    "w = New_worker (NewCoordinator s b (MaxPartBytes cfg)) (GCInterval cfg) True"
    "db s = su_tables su" "blob_ok b" "root b = ds" "fview (nodes b) = fview (su_files su)"
proof -
  from start obtain cfg u s v b where cfg: "Load E = Inr cfg"
    and s: "OpenSQLiteState (DBPath cfg) (GrantTTL cfg) (su_vars su) (su_tables su) (su_dbFaults su) = (Inr u, s)"
    and b: "OpenFilesystemBlob (su_cwd su) (BlobDir cfg) (su_files su) (su_fsFaults su) = (Inr v, b)"
    and sv: "sv_store sv = NewCoordinator s b (MaxPartBytes cfg)" "sv_cfg sv = cfg"
    and w: "w = New_worker (NewCoordinator s b (MaxPartBytes cfg)) (GCInterval cfg) True"
    by (auto simp: start_def Let_def New_server_def split: sum.splits prod.splits if_splits)
  have dir: "BlobDir cfg = rooted_path ds"
    using cfg dir by (auto simp: Load_def Let_def env_string_def rooted_path_def split: option.splits)
  from OpenFilesystemBlob_ok [OF b [unfolded dir] disk] OpenSQLiteState_db [OF s] that [OF cfg sv(2) sv(1) w]
  show thesis by simp
qed


definition demo_surroundings :: surroundings where
  "demo_surroundings =
     \<lparr>su_cwd = ''/srv'', su_vars = 32766, su_tables = empty_tables, su_dbFaults = [],
      su_files = [], su_fsFaults = [], su_logOpens = True\<rparr>"

definition demo_environ :: environ where
  "demo_environ = (\<lambda>_. None)(''SEND_BLOB_DIR'' := Some ''/b'')"

lemma demo_loaded: "Load demo_environ = Inr (default_config\<lparr>BlobDir := ''/b''\<rparr>)"
  by (simp add: demo_environ_def default_config_def Load_def env_string_def envDuration_def envInt64_def envInt_def
      envBool_def env_parsed_def validate_def hardMaxTTL_def Hour_def Minute_def Second_def)

lemma demo_started:
  assumes "ns = [] \<or> ns = [([''b''], Directory)]"
  shows "\<exists>sv w held. start demo_environ (demo_surroundings\<lparr>su_files := ns\<rparr>) = Inr (sv, w, held)
     \<and> nodes (blob (sv_store sv)) = [([''b''], Directory)] \<and> db (state (sv_store sv)) = empty_tables"
proof -
  have "\<exists>s. OpenSQLiteState ''data/sends.db'' ttl n d [] = (Inr (), s)" for ttl n d
    by (simp add: OpenSQLiteState_def Let_def migrate_def query_def stmt_def eval_nat_numeral)
  then obtain s where s: "OpenSQLiteState ''data/sends.db'' (GrantTTL default_config) 32766 empty_tables [] = (Inr (), s)" by blast
  note d = OpenSQLiteState_db [OF s]
  have b: "OpenFilesystemBlob ''/srv'' ''/b'' ns [] = (Inr (), demo_fs [])"
    using assms
    by (auto simp: OpenFilesystemBlob_def Let_def HasPrefix_def MkdirAll_def upt_conv_Cons lookup_def os_call_def
        sys_mkdir_def wrap_err_def demo_fs_def Clean_def)
  show ?thesis
    using s b d by (simp add: start_def demo_loaded demo_surroundings_def default_config_def Let_def New_server_def NewCoordinator_def demo_fs_def)
qed


section \<open>Restarts\<close>

text \<open>The blob directory never changes: the laws hold with it fixed.\<close>

interpretation rooted: coordinated_stores sqlite_state sql_ok declared_parts sid_ok
    filesystem_blob "\<lambda>b. blob_ok b \<and> root b = ds" view loc fs_key_of fs_keyok plain for ds
proof
  fix b :: fsblob and key and e :: env and r want limit
  assume a: "blob_ok b \<and> root b = ds" "fs_keyok key" "temp_suffix (tmp_suffix e)"
  then show "blob_ok (snd (bl_Put filesystem_blob e key r want limit b)) \<and> root (snd (bl_Put filesystem_blob e key r want limit b)) = ds"
    using Put_effect [of b key "tmp_suffix e" r want limit "fst (Put key r want limit (tmp_suffix e) b)"]
    by (simp add: fs_keyok_def)
next
  fix b :: fsblob and key
  assume a: "blob_ok b \<and> root b = ds"
  then show "blob_ok (snd (bl_Delete filesystem_blob key b)) \<and> root (snd (bl_Delete filesystem_blob key b)) = ds"
    using Delete_effect [of b key "fst (Delete key b)" "snd (Delete key b)"] by simp
  show "(blob_ok (snd (bl_Open filesystem_blob key b)) \<and> root (snd (bl_Open filesystem_blob key b)) = ds)
      \<and> view (snd (bl_Open filesystem_blob key b)) = view b"
    using a fs.open_keep [of b key] Open_effect [of b key "fst (Open key b)" "snd (Open key b)"] by simp
  show "(blob_ok (snd (bl_List filesystem_blob b)) \<and> root (snd (bl_List filesystem_blob b)) = ds)
      \<and> view (snd (bl_List filesystem_blob b)) = view b"
    using a fs.list_keep [of b] List_blobs_Inr [of b "projr (fst (List_blobs b))" "snd (List_blobs b)"]
      List_blobs_Inl [of b "projl (fst (List_blobs b))" "snd (List_blobs b)"]
    by (cases "List_blobs b"; cases "fst (List_blobs b)") auto
next
  fix b b' :: fsblob and key and e :: env and r want limit and n :: int
  assume a: "blob_ok b \<and> root b = ds" "fs_keyok key" "temp_suffix (tmp_suffix e)"
    "bl_Put filesystem_blob e key r want limit b = (Inr n, b')"
  from fs.put_ok [OF conjunct1 [OF a(1)] a(2-4)]
  show "\<exists>c. genuine want c \<and> n = int (length c) \<and> n \<le> limit
     \<and> view b' = (case loc key of None \<Rightarrow> view b | Some q \<Rightarrow> (view b)(q \<mapsto> c))" .
next
  fix b b' :: fsblob and key and e :: env and r want limit x
  assume a: "blob_ok b \<and> root b = ds" "fs_keyok key" "temp_suffix (tmp_suffix e)"
    "bl_Put filesystem_blob e key r want limit b = (Inl x, b')"
  from fs.put_err [OF conjunct1 [OF a(1)] a(2-4)] show "view b' = view b" .
next
  fix b :: fsblob and key
  assume "blob_ok b \<and> root b = ds"
  from fs.del_view [OF conjunct1 [OF this]] show "view (snd (bl_Delete filesystem_blob key b)) = view b
     \<or> (\<exists>q. loc key = Some q \<and> view (snd (bl_Delete filesystem_blob key b)) = (view b)(q := None))" .
next
  fix b b' :: fsblob and key q c
  assume a: "blob_ok b \<and> root b = ds" "loc key = Some q" "bl_Open filesystem_blob key b = (Inr (File c), b')"
  from fs.open_ok [OF conjunct1 [OF a(1)] a(2,3)] show "view b q = Some c" .
next
  fix b :: fsblob and key q
  assume a: "blob_ok b \<and> root b = ds" "loc key = Some q"
    "fst (bl_Open filesystem_blob key b) = Inr Directory \<or> fst (bl_Open filesystem_blob key b) = Inl ErrNotFound"
  from fs.open_none [OF conjunct1 [OF a(1)] a(2,3)] show "view b q = None" .
next
  fix b b' :: fsblob and ks
  assume a: "blob_ok b \<and> root b = ds" "bl_List filesystem_blob b = (Inr ks, b')"
  from fs.list_ok [OF conjunct1 [OF a(1)] a(2)] show "set ks = fs_key_of ` dom (view b) \<and> distinct ks" .
next
  fix b :: fsblob and q
  assume a: "blob_ok b \<and> root b = ds" "view b q \<noteq> None"
  from fs.key_of_place [OF conjunct1 [OF a(1)] a(2)] show "loc (fs_key_of q) = Some q" .
next
  fix i p assume "sid_ok i"
  then show "fs_keyok (StorageKey i p)" by (rule st.id_keyok)
next
  fix i p q assume "sid_ok i" "plain p" "loc (StorageKey i p) = Some q"
  then show "fs_key_of q = StorageKey i p" by (rule st.partok_canonical)
qed

lemma rooted_reach:
  assumes "fresh_coordinator s b n c0" "store_reach c0 c"
  shows "blob_ok (blob c) \<and> root (blob c) = root b"
proof -
  have "st.coupled c0" using fresh_coupled [OF assms(1)] .
  moreover have "blob c0 = b" using assms(1) by (simp add: fresh_coordinator_def NewCoordinator_def)
  ultimately show ?thesis using rooted.reach_coupled [OF assms(2), of "root b"] by simp
qed

lemma restart_store:
  assumes first: "start E su = Inr (sv, w, held)" "su_tables su = empty_tables" "ns_ok ds (su_files su)"
    and dir: "E ''SEND_BLOB_DIR'' = Some (rooted_path ds)" "E' ''SEND_BLOB_DIR'' = Some (rooted_path ds)" "ds \<noteq> []" "\<forall>w \<in> set ds. plain w"
    and run: "server_reach sv sv1"
    and again: "start E' su' = Inr (sv2, w', held')" "su_tables su' = db (state (sv_store sv1))" "su_files su' = nodes (blob (sv_store sv1))"
  shows "db (state (sv_store sv2)) = db (state (sv_store sv1)) \<and> view (blob (sv_store sv2)) = view (blob (sv_store sv1))
     \<and> (\<forall>i p m q. declared_parts (state (sv_store sv2)) (i, p) = Some (m, True) \<longrightarrow> loc (StorageKey i p) = Some q \<longrightarrow>
          (\<exists>d. view (blob (sv_store sv2)) q = Some d \<and> genuine m d))"
proof -
  obtain cfg s b where "Load E = Inr cfg" "sv_cfg sv = cfg" and a: "sv_store sv = NewCoordinator s b (MaxPartBytes cfg)"
    and "w = New_worker (NewCoordinator s b (MaxPartBytes cfg)) (GCInterval cfg) True"
    and a': "db s = su_tables su" "blob_ok b" "root b = ds" "fview (nodes b) = fview (su_files su)"
    by (rule started [OF first(1) dir(1,3,4) first(3)])
  have fresh: "fresh_coordinator s b (MaxPartBytes cfg) (sv_store sv)" using a a' first(2) by (simp add: fresh_coordinator_def)
  note reach = server_reaches_store [OF run]
  have c1: "st.coupled (sv_store sv1)" using reach_is_coupled [OF fresh reach] .
  have b1: "blob_ok (blob (sv_store sv1))" "root (blob (sv_store sv1)) = ds" using rooted_reach [OF fresh reach] a'(3) by auto
  have "ns_ok ds (su_files su')" using blob_ok_root(4) [OF b1(1)] b1(2) again(3) by simp
  then obtain cfg' s' b' where "Load E' = Inr cfg'" "sv_cfg sv2 = cfg'" and c: "sv_store sv2 = NewCoordinator s' b' (MaxPartBytes cfg')"
    and "w' = New_worker (NewCoordinator s' b' (MaxPartBytes cfg')) (GCInterval cfg') True"
    and c': "db s' = su_tables su'" "blob_ok b'" "root b' = ds" "fview (nodes b') = fview (su_files su')"
    by (rule started [OF again(1) dir(2,3,4)])
  have v: "view b' = view (blob (sv_store sv1))" using c'(3,4) b1(2) again(3) by (simp add: view_def fun_eq_iff)
  have "db (state (sv_store sv2)) = db (state (sv_store sv1))" "blob (sv_store sv2) = b'"
    using c c'(1) again(2) by (simp_all add: NewCoordinator_def)
  with v c1 show ?thesis unfolding blobs_genuine_def by simp
qed



end
