(* ===== verification/StoredProps.thy ===== *)
theory StoredProps
  imports Sendd
begin

text \<open>
  What the tables of a running server may hold: the shape of ids and the bounds that the
  configuration sets, from the start of the process through any run of requests and sweeps.
\<close>

section \<open>The type of the tables\<close>

definition send_typed :: "Config \<Rightarrow> send_row \<Rightarrow> bool" where
  "send_typed cfg r \<longleftrightarrow>
     length (s_id r) = 30 \<and> HasPrefix (s_id r) ''snd_'' \<and> set (s_id r) \<subseteq> set (''snd_'' @ b32_lower)
     \<and> s_one_time r \<in> {0, 1}
     \<and> 1 \<le> s_part_count r \<and> s_part_count r \<le> MaxPartCount cfg \<and> s_total_encrypted_size r \<le> MaxTotalBytes cfg
     \<and> s_created_at r \<le> s_expires_at r \<and> s_expires_at r \<le> s_created_at r + 7 * 24 * 3600"

definition part_typed :: "Config \<Rightarrow> part_row \<Rightarrow> bool" where
  "part_typed cfg p \<longleftrightarrow>
     p_part_id p \<noteq> [] \<and> p_sha256 p \<noteq> [] \<and> 0 < p_encrypted_size p \<and> p_encrypted_size p \<le> MaxPartBytes cfg
     \<and> p_storage_key p = StorageKey (p_send_id p) (p_part_id p)"

definition stored_typed :: "Config \<Rightarrow> tables \<Rightarrow> bool" where
  "stored_typed cfg d \<longleftrightarrow> (\<forall>r \<in> set (sends d). send_typed cfg r) \<and> (\<forall>p \<in> set (send_parts d). part_typed cfg p)"

text \<open>What \<open>check_create\<close> lets through.\<close>

definition input_typed :: "Config \<Rightarrow> CreateSendInput \<Rightarrow> bool" where
  "input_typed cfg inp \<longleftrightarrow>
     in_Parts inp \<noteq> [] \<and> int (length (in_Parts inp)) \<le> MaxPartCount cfg \<and> total_size (in_Parts inp) \<le> MaxTotalBytes cfg
     \<and> (\<forall>m \<in> set (in_Parts inp). part_within cfg m) \<and> 0 < in_TTL inp \<and> in_TTL inp \<le> hardMaxTTL"

lemma stored_typed_create:
  assumes "stored_typed cfg d" "input_typed cfg inp" "NewSendID ms src = Some sid"
  shows "stored_typed cfg (eff_create sid now inp d)"
proof -
  have "Unix (now + in_TTL inp) \<le> Unix (now + 604800 * Second)"
    using assms(2) by (intro Unix_mono) (simp add: input_typed_def hardMaxTTL_def Hour_def Minute_def Second_def)
  then have "Unix (now + in_TTL inp) \<le> Unix now + 604800" by (simp add: Unix_add_seconds)
  moreover have "Unix now \<le> Unix (now + in_TTL inp)" using assms(2) by (intro Unix_mono) (simp add: input_typed_def)
  moreover have "1 \<le> int (length (in_Parts inp))" using assms(2) by (cases "in_Parts inp") (simp_all add: input_typed_def)
  ultimately have "send_typed cfg (send_row_of sid now inp)"
    using assms(2) send_id_shape [OF assms(3)]
    by (simp add: send_typed_def send_row_of_def input_typed_def boolToInt_def)
  moreover have "part_typed cfg (part_row_of sid m)" if "m \<in> set (in_Parts inp)" for m
    using assms(2) that by (simp add: input_typed_def part_typed_def part_within_def part_row_of_def)
  ultimately show ?thesis using assms(1) by (auto simp: stored_typed_def eff_create_def)
qed

lemma row_typed:
  "send_typed cfg (r\<lparr>s_status := t, s_finalized_at := f\<rparr>) = send_typed cfg r"
  "send_typed cfg (r\<lparr>s_consumed_at := f\<rparr>) = send_typed cfg r"
  "part_typed cfg (p\<lparr>p_uploaded_at := f\<rparr>) = part_typed cfg p"
  by (simp_all add: send_typed_def part_typed_def)

lemma stored_typed_effects:
  assumes "stored_typed cfg d"
  shows "stored_typed cfg (eff_mark now i p d)" "stored_typed cfg (eff_finalize now i d)" "stored_typed cfg (eff_consume now i d)"
    "stored_typed cfg (eff_grant g d)" "stored_typed cfg (eff_delete ids d)"
  using assms
  by (auto simp: stored_typed_def eff_mark_def eff_finalize_def eff_consume_def eff_grant_def eff_delete_def row_typed)

lemma stored_typed_step:
  assumes typed: "stored_typed cfg (db s)" and x: "made_by (input_typed cfg) e x"
  shows "stored_typed cfg (db (sql_step x s))"
proof (cases x)
  case (OpCreate ms src now inp)
  then have "input_typed cfg inp" using x by (simp add: made_by_def)
  with typed OpCreate show ?thesis
    by (cases rule: result_cases [of "CreateSend ms src now inp s"])
       (auto dest!: CreateSend_Inr CreateSend_Inl intro: stored_typed_create)
next
  case (OpMark now sid pid)
  with typed show ?thesis
    by (cases rule: result_cases [of "MarkUploaded now sid pid s"])
       (auto dest!: MarkUploaded_Inr MarkUploaded_Inl simp: stored_typed_effects)
next
  case (OpFinalize now sid)
  with typed show ?thesis
    by (cases rule: result_cases [of "FinalizeSend now sid s"])
       (auto dest!: FinalizeSend_Inr FinalizeSend_Inl simp: stored_typed_effects)
next
  case (OpRedeem src now sid)
  have redeem: "stored_typed cfg (eff_redeem now sid r (db s))" for r using typed by (simp add: eff_redeem_def stored_typed_effects)
  have "stored_typed cfg d'" if "insert_grant g (eff_redeem now sid r (db s)) = Some (d', ())" for g r d'
    using that redeem [of r] by (auto simp: insert_grant_Some stored_typed_effects)
  with typed OpRedeem redeem show ?thesis
    by (cases rule: result_cases [of "RedeemSend src now sid s"]) (auto dest!: RedeemSend_Inr RedeemSend_Inl)
next
  case (OpDelete now)
  with typed show ?thesis
    by (cases rule: result_cases [of "DeleteExpired now s"])
       (auto dest!: DeleteExpired_Inr DeleteExpired_Inl simp: stored_typed_effects)
qed (use typed in \<open>simp_all only: read_only_step\<close>)

lemma stored_typed_run:
  "stored_typed cfg (db s) \<Longrightarrow> \<forall>x \<in> set xs. made_by (input_typed cfg) e x \<Longrightarrow> stored_typed cfg (db (sql_run xs s))"
  by (induction xs arbitrary: s) (auto simp: stored_typed_step)

section \<open>Every run\<close>

lemma accepted_typed:
  assumes "Load E = Inr cfg" "check_create cfg r = Inr inp"
  shows "input_typed cfg inp"
proof -
  have "0 < DefaultTTL cfg" "MaxTTL cfg \<le> hardMaxTTL" using Load_cases(1) [OF assms(1)] by (auto simp: validate_def split: if_splits)
  with check_create_Inr [OF assms(2)] show ?thesis by (auto simp: input_typed_def)
qed

lemma event_typed:
  assumes "Load E = Inr (sv_cfg sv)" "stored_typed (sv_cfg sv) (db (state (sv_store sv)))"
  shows "stored_typed (sv_cfg sv) (db (state (sv_store (serve_event ev sv))))"
proof (cases ev)
  case (Request h r)
  have "sql_moves (input_typed (sv_cfg sv)) (he_env h) (sv_store sv) (sv_store (snd (ServeHTTP send_api h r sv)))"
    by (rule mv.serve_R) (use accepted_typed [OF assms(1)] in simp_all)
  then obtain xs where "state (sv_store (snd (ServeHTTP send_api h r sv))) = sql_run xs (state (sv_store sv))"
    "\<forall>x \<in> set xs. made_by (input_typed (sv_cfg sv)) (he_env h) x" by (auto simp: sql_moves_def)
  with Request assms(2) stored_typed_run show ?thesis by simp
next
  case (Swept now)
  obtain xs where "state (reaped (Sweep store_reaper now (New_worker (sv_store sv) 1 False))) = sql_run xs (state (sv_store sv))"
    "set xs \<subseteq> {OpDelete now, OpLive}"
    using sweep_calls [of now "sv_store sv" 1 False] by blast
  moreover from this(2) have "\<forall>x \<in> set xs. made_by (input_typed (sv_cfg sv)) undefined x" by (auto simp: made_by_def)
  ultimately show ?thesis using Swept assms(2) stored_typed_run by simp
qed

text \<open>
  C17. Whatever requests and sweeps a server serves that was started on a database of this
  kind, for one an empty database, every stored send has an id of thirty characters of
  base32, lives at most seven days and has between one and MaxPartCount parts, and every
  stored part has a name, a digest, a size between one byte and the part cap and the storage
  key of its ids.
\<close>

theorem stored_rows_are_typed:
  assumes "start E su = Inr (sv, w, held)" "stored_typed (sv_cfg sv) (su_tables su)"
  shows "stored_typed (sv_cfg sv) (db (state (sv_store (fold serve_event evs sv))))"
proof -
  from assms(1) obtain cfg u s b where cfg: "Load E = Inr cfg"
    and s: "OpenSQLiteState (DBPath cfg) (GrantTTL cfg) (su_vars su) (su_tables su) (su_dbFaults su) = (Inr u, s)"
    and sv: "sv_store sv = NewCoordinator s b (MaxPartBytes cfg)" "sv_cfg sv = cfg"
    by (auto simp: start_def Let_def New_server_def split: sum.splits prod.splits if_splits)
  have "stored_typed (sv_cfg sv) (db (state (sv_store sv)))"
    using OpenSQLiteState_db [OF s] assms(2) by (simp add: sv NewCoordinator_def)
  moreover have "Load E = Inr (sv_cfg sv)" using cfg sv(2) by simp
  ultimately show ?thesis
  proof (induction evs arbitrary: sv)
    case (Cons ev evs)
    from Cons.IH [of "serve_event ev sv"] event_typed [OF Cons.prems(2,1), of ev] Cons.prems(2)
    show ?case by (simp add: serve_event_cfg)
  qed simp
qed

theorem stored_rows_are_typed_witness:
  "\<exists>sv w held. start demo_environ demo_surroundings = Inr (sv, w, held)
     \<and> stored_typed (sv_cfg sv) (db (state (sv_store (fold serve_event
         [Request (demo_http (demo_env Second [])) redeem_request, Swept (2 * Second)] sv))))"
proof -
  have "demo_surroundings\<lparr>su_files := []\<rparr> = demo_surroundings" by (simp add: demo_surroundings_def)
  with demo_started [of "[]"] obtain sv w held where a: "start demo_environ demo_surroundings = Inr (sv, w, held)" by auto
  have "stored_typed (sv_cfg sv) (su_tables demo_surroundings)"
    by (simp add: demo_surroundings_def stored_typed_def empty_tables_def)
  from stored_rows_are_typed [OF a this] a show ?thesis by blast
qed

end
