(* ===== verification/Forward.thy ===== *)
theory Forward
  imports ServerProps
begin

text \<open>
  What may change of a stored send while it lives: its status moves forward, and the moment it
  was finalized, consumed or uploaded is recorded; nothing else.
\<close>

section \<open>Moving forward\<close>

definition send_forward :: "send_row \<Rightarrow> send_row \<Rightarrow> bool" where
  "send_forward r r' \<longleftrightarrow>
     r' = r\<lparr>s_status := s_status r', s_finalized_at := s_finalized_at r', s_consumed_at := s_consumed_at r'\<rparr>
     \<and> s_status r \<le> s_status r'
     \<and> (s_status r = s_status r' \<longrightarrow> s_finalized_at r = s_finalized_at r')
     \<and> (s_consumed_at r \<noteq> None \<longrightarrow> s_consumed_at r = s_consumed_at r')"

definition part_forward :: "part_row \<Rightarrow> part_row \<Rightarrow> bool" where
  "part_forward p p' \<longleftrightarrow> p' = p\<lparr>p_uploaded_at := p_uploaded_at p'\<rparr> \<and> (p_uploaded_at p \<noteq> None \<longrightarrow> p_uploaded_at p' \<noteq> None)"

definition forward :: "string \<Rightarrow> tables \<Rightarrow> tables \<Rightarrow> bool" where
  "forward sid d d' \<longleftrightarrow>
     (\<forall>r' \<in> set (sends d'). s_id r' = sid \<longrightarrow> (\<exists>r \<in> set (sends d). send_forward r r'))
     \<and> (\<forall>p' \<in> set (send_parts d'). p_send_id p' = sid \<longrightarrow> (\<exists>p \<in> set (send_parts d). part_forward p p'))"

lemma send_forward_refl [simp]: "send_forward r r"
  by (simp add: send_forward_def)

lemma part_forward_refl [simp]: "part_forward p p"
  by (simp add: part_forward_def)

lemma send_forward_id: "send_forward r r' \<Longrightarrow> s_id r = s_id r'"
  by (cases r; cases r') (simp add: send_forward_def)

lemma part_forward_id: "part_forward p p' \<Longrightarrow> p_send_id p = p_send_id p' \<and> p_part_id p = p_part_id p'"
  by (cases p; cases p') (simp add: part_forward_def)

lemma send_forward_trans:
  assumes "send_forward a b" "send_forward b c"
  shows "send_forward a c"
proof -
  have le: "s_status a \<le> s_status b" "s_status b \<le> s_status c" using assms by (simp_all add: send_forward_def)
  then have "s_status a \<le> s_status c" by (rule order_trans)
  moreover have "s_status a = s_status b \<and> s_status b = s_status c" if "s_status a = s_status c" using le that by simp
  moreover have "c = a\<lparr>s_status := s_status c, s_finalized_at := s_finalized_at c, s_consumed_at := s_consumed_at c\<rparr>"
    using assms by (cases a; cases b; cases c) (simp add: send_forward_def)
  ultimately show ?thesis using assms by (auto simp: send_forward_def)
qed

lemma part_forward_trans: "part_forward a b \<Longrightarrow> part_forward b c \<Longrightarrow> part_forward a c"
  by (cases a; cases b; cases c) (simp add: part_forward_def)

lemma forward_trans:
  assumes "forward sid d1 d2" "forward sid d2 d3"
  shows "forward sid d1 d3"
  unfolding forward_def
proof (intro conjI ballI impI)
  fix r3 assume r3: "r3 \<in> set (sends d3)" "s_id r3 = sid"
  then obtain r2 where r2: "r2 \<in> set (sends d2)" "send_forward r2 r3" using assms(2) by (auto simp: forward_def)
  then obtain r1 where "r1 \<in> set (sends d1)" "send_forward r1 r2"
    using assms(1) r3(2) send_forward_id [OF r2(2)] by (auto simp: forward_def)
  with r2(2) show "\<exists>r \<in> set (sends d1). send_forward r r3" by (blast intro: send_forward_trans)
next
  fix p3 assume p3: "p3 \<in> set (send_parts d3)" "p_send_id p3 = sid"
  then obtain p2 where p2: "p2 \<in> set (send_parts d2)" "part_forward p2 p3" using assms(2) by (auto simp: forward_def)
  then obtain p1 where "p1 \<in> set (send_parts d1)" "part_forward p1 p2"
    using assms(1) p3(2) part_forward_id [OF p2(2)] by (auto simp: forward_def)
  with p2(2) show "\<exists>p \<in> set (send_parts d1). part_forward p p3" by (blast intro: part_forward_trans)
qed

lemma forward_refl [simp]: "forward sid d d"
  by (auto simp: forward_def intro: send_forward_refl part_forward_refl)

lemma forward_map:
  "(\<And>r. send_forward r (f r)) \<Longrightarrow> forward sid d (d\<lparr>sends := map f (sends d)\<rparr>)"
  "(\<And>p. part_forward p (g p)) \<Longrightarrow> forward sid d (d\<lparr>send_parts := map g (send_parts d)\<rparr>)"
  unfolding forward_def by (auto intro: part_forward_refl send_forward_refl)

lemma forward_effects:
  "sid' \<noteq> sid \<Longrightarrow> forward sid d (eff_create sid' now inp d)"
  "forward sid d (eff_mark now i p d)" "forward sid d (eff_finalize now i d)" "forward sid d (eff_consume now i d)"
  "forward sid d (eff_grant g d)" "forward sid d (eff_delete ids d)"
proof -
  show "forward sid d (eff_mark now i p d)" unfolding eff_mark_def by (rule forward_map) (simp add: part_forward_def)
  show "forward sid d (eff_finalize now i d)"
    unfolding eff_finalize_def by (rule forward_map) (simp add: send_forward_def)
  show "forward sid d (eff_consume now i d)"
    unfolding eff_consume_def by (rule forward_map) (simp add: send_forward_def consumable_def)
  show "sid' \<noteq> sid \<Longrightarrow> forward sid d (eff_create sid' now inp d)" "forward sid d (eff_grant g d)" "forward sid d (eff_delete ids d)"
    by (auto simp: forward_def eff_create_def eff_grant_def eff_delete_def send_row_of_def part_row_of_def
        intro: part_forward_refl send_forward_refl)
qed

lemma forward_step:
  assumes "\<not> creates sid x"
  shows "forward sid (db s) (db (sql_step x s))"
proof (cases x)
  case (OpCreate ms src now inp)
  with assms show ?thesis
    by (cases rule: result_cases [of "CreateSend ms src now inp s"])
       (auto dest!: CreateSend_Inr CreateSend_Inl simp: creates_def forward_effects)
next
  case (OpMark now i p)
  then show ?thesis
    by (cases rule: result_cases [of "MarkUploaded now i p s"])
       (auto dest!: MarkUploaded_Inr MarkUploaded_Inl simp: forward_effects)
next
  case (OpFinalize now i)
  then show ?thesis
    by (cases rule: result_cases [of "FinalizeSend now i s"])
       (auto dest!: FinalizeSend_Inr FinalizeSend_Inl simp: forward_effects)
next
  case (OpRedeem src now i)
  have redeem: "forward sid (db s) (eff_redeem now i r (db s))" for r by (simp add: eff_redeem_def forward_effects)
  have "forward sid (db s) d'" if "insert_grant g (eff_redeem now i r (db s)) = Some (d', ())" for g r d'
    using that forward_trans [OF redeem [of r]] by (auto simp: insert_grant_Some forward_effects)
  with OpRedeem redeem show ?thesis
    by (cases rule: result_cases [of "RedeemSend src now i s"]) (auto dest!: RedeemSend_Inr RedeemSend_Inl)
next
  case (OpDelete now)
  then show ?thesis
    by (cases rule: result_cases [of "DeleteExpired now s"])
       (auto dest!: DeleteExpired_Inr DeleteExpired_Inl simp: forward_effects)
qed (simp_all only: read_only_step forward_refl)

lemma forward_run: "\<forall>x \<in> set xs. \<not> creates sid x \<Longrightarrow> forward sid (db s) (db (sql_run xs s))"
proof (induction xs arbitrary: s)
  case (Cons x xs)
  then have "forward sid (db s) (db (sql_step x s))" "forward sid (db (sql_step x s)) (db (sql_run xs (sql_step x s)))"
    by (simp_all add: forward_step)
  then show ?case by (auto intro: forward_trans)
qed simp

lemma forward_events:
  "\<forall>ev \<in> set evs. other_id sid ev
    \<Longrightarrow> forward sid (db (state (sv_store sv))) (db (state (sv_store (fold serve_event evs sv))))
      \<and> (tables_inv (db (state (sv_store sv))) \<longrightarrow> tables_inv (db (state (sv_store (fold serve_event evs sv)))))"
proof (induction evs arbitrary: sv)
  case (Cons ev evs)
  then have "other_id sid ev" by simp
  then obtain xs where xs: "state (sv_store (serve_event ev sv)) = sql_run xs (state (sv_store sv))" "\<forall>x \<in> set xs. \<not> creates sid x"
    by (rule event_calls)
  have "forward sid (db (state (sv_store sv))) (db (state (sv_store (serve_event ev sv))))"
    unfolding xs(1) by (rule forward_run [OF xs(2)])
  moreover have "tables_inv (db (state (sv_store sv))) \<longrightarrow> tables_inv (db (state (sv_store (serve_event ev sv))))"
    by (simp add: xs(1) tables_inv_run)
  moreover note Cons.IH [of "serve_event ev sv"] Cons.prems
  ultimately show ?case using forward_trans [of sid] by auto
qed simp

text \<open>
  C16. Over any run of requests and sweeps from any state the server reaches, a stored send
  keeps every field but its status, which only moves forward, and the times at which it was
  finalized and consumed, which once set stay; its parts keep every field but the time of
  their upload.
\<close>

theorem sends_only_move_forward:
  assumes run: "fresh_coordinator s b cap (sv_store sv0)" "server_reach sv0 sv"
    and ids: "\<forall>ev \<in> set evs. other_id sid ev"
    and "find_send sid (db (state (sv_store sv))) = Some r"
    and "find_send sid (db (state (sv_store (fold serve_event evs sv)))) = Some r'"
  shows "send_forward r r'
     \<and> (\<forall>pid p'. find_part sid pid (db (state (sv_store (fold serve_event evs sv)))) = Some p' \<longrightarrow>
          (\<exists>p. find_part sid pid (db (state (sv_store sv))) = Some p \<and> part_forward p p'))"
proof -
  let ?d = "db (state (sv_store sv))" and ?d' = "db (state (sv_store (fold serve_event evs sv)))"
  note inv = server_coupled(2) [OF run]
  have f: "forward sid ?d ?d'" "tables_inv ?d'" using forward_events [OF ids, of sv] inv by simp_all
  have r: "r \<in> set (sends ?d)" "s_id r = sid" "r' \<in> set (sends ?d')" "s_id r' = sid"
    using assms(4,5) inv f(2) by (simp_all add: find_send_iff)
  obtain q where q: "q \<in> set (sends ?d)" "send_forward q r'" using f(1) r(3,4) by (auto simp: forward_def)
  have "q = r" using unique_row [OF inv q(1) r(1)] send_forward_id [OF q(2)] r(2,4) by simp
  moreover have "\<exists>p. find_part sid pid ?d = Some p \<and> part_forward p p'" if p': "find_part sid pid ?d' = Some p'" for pid p'
  proof -
    have m: "p' \<in> set (send_parts ?d')" "p_send_id p' = sid" "p_part_id p' = pid" using p' f(2) by (simp_all add: find_part_iff)
    then obtain p where p: "p \<in> set (send_parts ?d)" "part_forward p p'" using f(1) by (auto simp: forward_def)
    with part_forward_id [OF p(2)] m inv show ?thesis by (auto simp: find_part_iff)
  qed
  ultimately show ?thesis using q(2) by blast
qed

theorem sends_only_move_forward_witness:
  "let d = db (state (sv_store (fold serve_event [Request (demo_http (demo_env Second [])) upload_request] (demo_server demo_c1))))
   in find_part demo_id ''a'' d = Some (demo_part ''a'' (Some 1)) \<and> send_forward (demo_one None None) (demo_one None None)
     \<and> (\<exists>p. find_part demo_id ''a'' (db (state demo_c1)) = Some p \<and> part_forward p (demo_part ''a'' (Some 1)))"
proof -
  let ?evs = "[Request (demo_http (demo_env Second [])) upload_request]"
  have "NewSendID 0 (Some []) \<noteq> Some demo_id" unfolding demo_id_def by code_simp
  then have ids: "\<forall>ev \<in> set ?evs. other_id demo_id ev" by (simp add: other_id_def demo_env_def UnixMilli_def)
  have c2: "sv_store (fold serve_event ?evs (demo_server demo_c1)) = demo_c2"
    using demo_serve(2) [OF demo_routes(4) demo_upload_handled] by simp
  have find: "find_send demo_id (db (state (sv_store (demo_server demo_c1)))) = Some (demo_one None None)"
    "find_send demo_id (db (state (sv_store (fold serve_event ?evs (demo_server demo_c1))))) = Some (demo_one None None)"
    "find_part demo_id ''a'' (db (state (sv_store (fold serve_event ?evs (demo_server demo_c1))))) = Some (demo_part ''a'' (Some 1))"
    unfolding c2 by (simp_all add: demo_eval_store)
  from sends_only_move_forward [OF demo_server_fresh demo_server_reach [OF demo_reach(1)] ids find(1,2)] find(3)
  show ?thesis by (simp add: Let_def)
qed

end
