(* ===== verification/Budget.thy ===== *)
theory Budget
  imports Sendd
begin

text \<open>
  The limiters of a running server: how many requests of one client a run of the server lets
  through to the stores.
\<close>

section \<open>What a request does to the limiters\<close>

definition limiters :: "'c server \<Rightarrow> limiter option \<times> limiter option" where
  "limiters sv = (sv_createLimiter sv, sv_uploadLimiter sv)"

lemma limiters_updates [simp]: "limiters (sv\<lparr>sv_store := c\<rparr>) = limiters sv" "limiters (sv\<lparr>sv_log := l\<rparr>) = limiters sv"
  by (simp_all add: limiters_def)

abbreviation left :: "'c exchange \<Rightarrow> limiter option \<times> limiter option" where
  "left m \<equiv> limiters (fst (snd m))"

lemma left_finish [simp]: "left (finish sv w) = limiters sv"
  by (simp add: finish_def)

lemma left_store_call [simp]:
  "(\<And>x c. left (k x (sv\<lparr>sv_store := c\<rparr>)) = limiters sv) \<Longrightarrow> left (store_call f onerr sv w k) = limiters sv"
  by (auto simp: store_call_def split: prod.split sum.split store_error.split)

lemma left_limited:
  "(\<And>sv. left (f h r sv w) = limiters sv) \<Longrightarrow> left (limited_handler b f h r sv w) = limiters (snd (allow h r b sv))"
  by (simp add: limited_handler_def case_prod_beta)

lemma left_handlers:
  "left (handleCreate A h r sv w) = limiters (snd (allow h r ''create'' sv))"
  "left (handleUpload A sid pid h r sv w) = limiters (snd (allow h r ''upload'' sv))"
  "left (handleFinalize A sid h r sv w) = limiters (snd (allow h r ''finalize'' sv))"
  "left (handleRedeem A sid h r sv w) = limiters (snd (allow h r ''redeem'' sv))"
  "left (handleMeta A sid h r sv w) = limiters (snd (allow h r ''meta'' sv))"
  "left (handleDownload A sid pid h r sv w) = limiters (snd (allow h r ''download'' sv))"
  unfolding handleCreate_def handleUpload_def handleFinalize_def handleRedeem_def handleMeta_def handleDownload_def
  by (rule left_limited; simp add: Let_def split: sum.split)+

lemma left_dispatch:
  "left (dispatch A t h r sv w) =
     (case bucket_name t of
        None \<Rightarrow> limiters sv
      | Some b \<Rightarrow> if authorized (sv_cfg sv) t r then limiters (snd (allow h r b sv)) else limiters sv)"
  by (cases t)
     (simp_all add: dispatch_def bucket_name_def authorized_def requireTeamToken_def left_handlers handleHealth_def handleLinkPage_def
        handleLanding_def)

lemma limiters_ServeHTTP: "limiters (snd (ServeHTTP A h r sv)) = left (dispatch A (route_request routes r) h r sv (fresh_writer r))"
  by (auto simp: ServeHTTP_def recoverer_def logging_def fresh_writer_def split: prod.split bool.split ResponseWriter.split option.split)

section \<open>Draws\<close>

text \<open>The creating requests share one limiter, the requests for parts and metadata the other.\<close>

datatype limited = Sends | Parts

fun buckets_of :: "limited \<Rightarrow> string list" where
  "buckets_of Sends = [''create'', ''finalize'', ''redeem'']"
| "buckets_of Parts = [''upload'', ''download'', ''meta'']"

fun limiter_of :: "limited \<Rightarrow> 'c server \<Rightarrow> limiter option" where
  "limiter_of Sends sv = sv_createLimiter sv"
| "limiter_of Parts sv = sv_uploadLimiter sv"

definition drawn :: "limited \<Rightarrow> Config \<Rightarrow> request \<Rightarrow> bool" where
  "drawn b cfg r \<longleftrightarrow>
     (case bucket_name (route_request routes r) of
        None \<Rightarrow> False
      | Some n \<Rightarrow> n \<in> set (buckets_of b) \<and> authorized cfg (route_request routes r) r)"

lemma limiter_of_limiters: "limiter_of b sv = (case b of Sends \<Rightarrow> fst | Parts \<Rightarrow> snd) (limiters sv)"
  by (cases b) (simp_all add: limiters_def)

lemma bucket_names: "bucket_name t = Some n \<Longrightarrow> n \<in> set (buckets_of Sends) \<or> n \<in> set (buckets_of Parts)"
  by (auto simp: bucket_name_def split: target.splits)

lemma allow_draws:
  assumes "n \<in> set (buckets_of b)" "limiter_of b sv = Some l"
  shows "fst (allow h r n sv) = fst (Allow (clientKey (sv_cfg sv) r) (he_start h) l)"
    and "limiter_of b (snd (allow h r n sv)) = Some (snd (Allow (clientKey (sv_cfg sv) r) (he_start h) l))"
  using assms by (cases b; auto simp: allow_def limit_by_def Let_def split: prod.split)+

lemma allow_other: "n \<in> set (buckets_of b') \<Longrightarrow> b' \<noteq> b \<Longrightarrow> limiter_of b (snd (allow h r n sv)) = limiter_of b sv"
  by (cases b; cases b'; auto simp: allow_def Let_def split: prod.split)

lemma limiter_step:
  assumes "limiter_of b sv = Some l"
  shows "limiter_of b (snd (ServeHTTP A h r sv)) =
     Some (if drawn b (sv_cfg sv) r then snd (Allow (clientKey (sv_cfg sv) r) (he_start h) l) else l)"
proof (cases "bucket_name (route_request routes r)")
  case None
  with assms show ?thesis by (simp add: limiter_of_limiters limiters_ServeHTTP left_dispatch drawn_def)
next
  case (Some n)
  let ?sv = "if authorized (sv_cfg sv) (route_request routes r) r then snd (allow h r n sv) else sv"
  have "limiter_of b (snd (ServeHTTP A h r sv)) = limiter_of b ?sv"
    by (simp add: limiter_of_limiters limiters_ServeHTTP left_dispatch Some)
  also have "\<dots> = Some (if drawn b (sv_cfg sv) r then snd (Allow (clientKey (sv_cfg sv) r) (he_start h) l) else l)"
  proof (cases "n \<in> set (buckets_of b)")
    case True
    with assms show ?thesis by (simp add: drawn_def Some allow_draws)
  next
    case False
    with bucket_names [OF Some] obtain b' where "n \<in> set (buckets_of b')" "b' \<noteq> b" by blast
    with assms False show ?thesis by (simp add: drawn_def Some allow_other)
  qed
  finally show ?thesis .
qed

lemma refused:
  assumes "limiter_of b sv = Some l" "drawn b (sv_cfg sv) r" "\<not> fst (Allow (clientKey (sv_cfg sv) r) (he_start h) l)"
  shows "w_status (fst (ServeHTTP A h r sv)) = 429"
proof -
  let ?t = "route_request routes r"
  from assms(2) obtain n where n: "bucket_name ?t = Some n" "n \<in> set (buckets_of b)" "authorized (sv_cfg sv) ?t r"
    by (auto simp: drawn_def split: option.splits)
  then have "\<not> admitted h ?t r sv" using assms allow_draws(1) [OF n(2) assms(1)] by (simp add: admitted_def)
  with n have "respond A (admitted h ?t r sv) (he_env h) (sv_cfg sv) r ?t (sv_store sv)
      = (ErrorReply 429 ''RATE_LIMITED'' ''rate limit exceeded'', sv_store sv)" by (simp add: respond_def)
  from serve_respond [OF _ refl this, of "fst (ServeHTTP A h r sv)" "snd (ServeHTTP A h r sv)"]
  show ?thesis by (simp add: answer_def)
qed

section \<open>Runs\<close>

fun draws :: "limited \<Rightarrow> Config \<Rightarrow> event list \<Rightarrow> (int \<times> string) list" where
  "draws b cfg [] = []"
| "draws b cfg (Request h r # evs) = (if drawn b cfg r then [(he_start h, clientKey cfg r)] else []) @ draws b cfg evs"
| "draws b cfg (Swept now # evs) = draws b cfg evs"

text \<open>How many requests of a client its limiter lets through.\<close>

fun passed :: "limited \<Rightarrow> string \<Rightarrow> event list \<Rightarrow> store server \<Rightarrow> nat" where
  "passed b key [] sv = 0"
| "passed b key (Request h r # evs) sv =
     (if drawn b (sv_cfg sv) r \<and> clientKey (sv_cfg sv) r = key \<and> w_status (fst (ServeHTTP send_api h r sv)) \<noteq> 429 then 1 else 0)
     + passed b key evs (serve_event (Request h r) sv)"
| "passed b key (Swept now # evs) sv = passed b key evs (serve_event (Swept now) sv)"

lemma passed_allowed:
  "limiter_of b sv = Some l \<Longrightarrow> passed b key evs sv \<le> allowed key (draws b (sv_cfg sv) evs) l"
proof (induction evs arbitrary: sv l)
  case (Cons ev evs)
  show ?case
  proof (cases ev)
    case (Request h r)
    let ?k = "clientKey (sv_cfg sv) r" and ?sv = "serve_event (Request h r) sv"
    let ?l = "if drawn b (sv_cfg sv) r then snd (Allow ?k (he_start h) l) else l"
    have "limiter_of b ?sv = Some ?l" using limiter_step [OF Cons.prems] by simp
    from Cons.IH [OF this] have "passed b key evs ?sv \<le> allowed key (draws b (sv_cfg sv) evs) ?l"
      by (simp only: serve_event_cfg)
    with refused [OF Cons.prems, of r h send_api] show ?thesis by (auto simp: Request simp del: serve_event.simps)
  next
    case (Swept now)
    have "limiter_of b (serve_event (Swept now) sv) = Some l" using Cons.prems by (cases b) simp_all
    from Cons.IH [OF this] show ?thesis by (simp only: Swept passed.simps draws.simps serve_event_cfg)
  qed
qed simp

text \<open>
  C19. A server that was started from an accepted configuration lets, over any run of
  requests and sweeps with ordered clocks, one client through each of its two limiters at
  most as often as the limit per window, plus the refill of the elapsed time, up to the
  stated bound on the float64 roundings.
\<close>

theorem http_client_budget:
  assumes start: "start E su = Inr (sv, w, held)"
    and per: "per = (case b of Sends \<Rightarrow> RateCreatePerMin (sv_cfg sv) | Parts \<Rightarrow> RateUploadPerMin (sv_cfg sv))" "0 < per" "per < 2 ^ 53"
    and times: "sorted (t # map fst (draws b (sv_cfg sv) evs) @ [t'])"
    and n: "n = of_nat (length (draws b (sv_cfg sv) evs))"
  shows "of_nat (passed b key evs sv) \<le>
     (of_int per :: rat) * (1 + (of_int (t' - t) + n) / of_int (RateWindow (sv_cfg sv)) * (1 + 1 / 2 ^ 49) + n / 2 ^ 52)"
proof -
  from start obtain cfg where cfg: "Load E = Inr cfg" "sv_cfg sv = cfg"
    and lim: "sv_createLimiter sv = Some (New_limiter (RateCreatePerMin cfg) (RateWindow cfg))"
      "sv_uploadLimiter sv = Some (New_limiter (RateUploadPerMin cfg) (RateWindow cfg))"
    by (auto simp: start_def Let_def New_server_def split: sum.splits prod.splits if_splits)
  have w: "0 < RateWindow cfg" using Load_cases(1) [OF cfg(1)] by (simp add: validate_def split: if_splits)
  have l: "limiter_of b sv = Some (New_limiter per (RateWindow cfg))" using lim per(1) cfg(2) by (cases b) simp_all
  have "of_nat (passed b key evs sv) \<le> (of_nat (allowed key (draws b cfg evs) (New_limiter per (RateWindow cfg))) :: rat)"
    using passed_allowed [OF l, of key evs] by (simp add: cfg(2))
  also have "\<dots> \<le> of_int per * (1 + (of_int (t' - t) + n) / of_int (RateWindow cfg) * (1 + 1 / 2 ^ 49) + n / 2 ^ 52)"
    using rate_budget [OF per(2,3) w, of t "draws b cfg evs" t' key] times n by (simp only: cfg(2))
  finally show ?thesis by (simp only: cfg(2))
qed

theorem http_client_budget_witness:
  "\<exists>sv w held. start demo_environ demo_surroundings = Inr (sv, w, held)
     \<and> of_nat (passed Sends (clientKey (sv_cfg sv) redeem_request)
           [Request (demo_http (demo_env Second [])) redeem_request, Swept Minute, Request (demo_http (demo_env Minute [])) redeem_request] sv)
         \<le> (30 :: rat) * (1 + (60000000000 + 2) / 60000000000 * (1 + 1 / 2 ^ 49) + 2 / 2 ^ 52)"
proof -
  let ?evs = "[Request (demo_http (demo_env Second [])) redeem_request, Swept Minute, Request (demo_http (demo_env Minute [])) redeem_request]"
  have "demo_surroundings\<lparr>su_files := []\<rparr> = demo_surroundings" by (simp add: demo_surroundings_def)
  with demo_started [of "[]"] obtain sv w held where st: "start demo_environ demo_surroundings = Inr (sv, w, held)" by auto
  have cfg: "sv_cfg sv = default_config\<lparr>BlobDir := ''/b''\<rparr>"
    using st by (auto simp: start_def demo_loaded Let_def New_server_def split: sum.splits prod.splits if_splits)
  then have c: "RateCreatePerMin (sv_cfg sv) = 30" "RateWindow (sv_cfg sv) = Minute"
    by (simp_all add: default_config_def Minute_def Second_def)
  have "drawn Sends (sv_cfg sv) redeem_request" by (simp add: drawn_def demo_routes bucket_name_def authorized_def)
  then have d: "draws Sends (sv_cfg sv) ?evs = [(Second, clientKey (sv_cfg sv) redeem_request), (Minute, clientKey (sv_cfg sv) redeem_request)]"
    by (simp add: demo_http_def demo_env_def)
  have "sorted (0 # map fst (draws Sends (sv_cfg sv) ?evs) @ [Minute])" unfolding d by (simp add: Minute_def Second_def)
  from http_client_budget [OF st _ _ _ this refl, of 30 "clientKey (sv_cfg sv) redeem_request"]
  have "of_nat (passed Sends (clientKey (sv_cfg sv) redeem_request) ?evs sv)
      \<le> (30 :: rat) * (1 + (60000000000 + 2) / 60000000000 * (1 + 1 / 2 ^ 49) + 2 / 2 ^ 52)"
    unfolding d by (simp add: c Minute_def Second_def del: passed.simps)
  with st show ?thesis by blast
qed

end
