(* ===== verification/Tasks.thy ===== *)
theory Tasks
  imports Prelude
begin

text \<open>
  Concurrent calls. A call is a task: a tree of atomic steps on the shared state. The tasks of
  a configuration run in any order of their steps, and one that is never given a turn again
  has died on the way. \<open>safe\<close> is the rely-guarantee condition on a single task; the locale
  \<open>interference\<close> shows that it is enough.
\<close>

section \<open>Tasks\<close>

datatype ('c, 'r) task = Return 'r | Call "'c \<Rightarrow> ('c, 'r) task \<times> 'c"

primrec run_task :: "('c, 'r) task \<Rightarrow> 'c \<Rightarrow> 'r \<times> 'c" where
  "run_task (Return r) = (\<lambda>c. (r, c))"
| "run_task (Call f) = (\<lambda>c. (\<lambda>(g, c'). g c') (map_prod run_task id (f c)))"

primrec seq_task :: "('c, 'a) task \<Rightarrow> ('a \<Rightarrow> ('c, 'b) task) \<Rightarrow> ('c, 'b) task" where
  "seq_task (Return r) = (\<lambda>k. k r)"
| "seq_task (Call f) = (\<lambda>k. Call (\<lambda>c. (\<lambda>(g, c'). (g k, c')) (map_prod seq_task id (f c))))"

definition step_task :: "('c \<Rightarrow> 'r \<times> 'c) \<Rightarrow> ('c, 'r) task" where
  "step_task f = Call (\<lambda>c. (Return (fst (f c)), snd (f c)))"

definition try_task :: "('c, 'e + 'a) task \<Rightarrow> ('a \<Rightarrow> ('c, 'e + 'b) task) \<Rightarrow> ('c, 'e + 'b) task" where
  "try_task t k = seq_task t (\<lambda>x. case x of Inl e \<Rightarrow> Return (Inl e) | Inr y \<Rightarrow> k y)"

lemma run_seq [simp]: "run_task (seq_task t k) c = (case run_task t c of (x, c') \<Rightarrow> run_task (k x) c')"
proof (induction t arbitrary: c)
  case (Call f)
  have "run_task (seq_task (fst (f c)) k) c' = (case run_task (fst (f c)) c' of (x, c'') \<Rightarrow> run_task (k x) c'')" for c'
    by (rule Call.IH [of "f c"]) (auto simp: fsts.simps)
  then show ?case by (cases "f c") simp
qed simp

lemma run_step [simp]: "run_task (step_task f) c = f c"
  by (simp add: step_task_def)

lemma run_try [simp]: "run_task (try_task t k) c = on_ok (run_task t c) (\<lambda>x. run_task (k x))"
  by (cases "run_task t c"; cases "fst (run_task t c)") (simp_all add: try_task_def)

section \<open>Interleavings\<close>

text \<open>
  \<open>hist\<close> keeps a history \<open>g\<close> of the shared state, which no task reads; \<open>ok\<close> restricts the
  steps by it.
\<close>

inductive turn :: "('g \<Rightarrow> 'c \<Rightarrow> 'g) \<Rightarrow> ('g \<Rightarrow> 'c \<Rightarrow> 'c \<Rightarrow> bool)
    \<Rightarrow> ('c, 'r) task list \<times> 'g \<times> 'c \<Rightarrow> ('c, 'r) task list \<times> 'g \<times> 'c \<Rightarrow> bool"
  for hist ok where
  step: "i < length ts \<Longrightarrow> ts ! i = Call f \<Longrightarrow> f c = (t, c') \<Longrightarrow> ok g c c' \<Longrightarrow>
     turn hist ok (ts, g, c) (ts[i := t], hist g c', c')"

inductive turns :: "('g \<Rightarrow> 'c \<Rightarrow> 'g) \<Rightarrow> ('g \<Rightarrow> 'c \<Rightarrow> 'c \<Rightarrow> bool)
    \<Rightarrow> ('c, 'r) task list \<times> 'g \<times> 'c \<Rightarrow> ('c, 'r) task list \<times> 'g \<times> 'c \<Rightarrow> bool"
  for hist ok x where
  none: "turns hist ok x x"
| more: "turns hist ok x y \<Longrightarrow> turn hist ok y z \<Longrightarrow> turns hist ok x z"

section \<open>Rely and guarantee\<close>

text \<open>
  A task is safe when each of its steps, taken after any interference that the rely allows,
  keeps the invariant and is itself such an interference, and its result is as promised.
\<close>

primrec safe :: "('g \<times> 'c \<Rightarrow> bool) \<Rightarrow> ('g \<times> 'c \<Rightarrow> 'g \<times> 'c \<Rightarrow> bool) \<Rightarrow> ('g \<Rightarrow> 'c \<Rightarrow> 'g) \<Rightarrow> ('g \<Rightarrow> 'c \<Rightarrow> 'c \<Rightarrow> bool)
    \<Rightarrow> ('r \<Rightarrow> 'g \<times> 'c \<Rightarrow> bool) \<Rightarrow> ('c, 'r) task \<Rightarrow> 'g \<times> 'c \<Rightarrow> bool" where
  "safe good rely hist ok Q (Return r) = (\<lambda>w. \<forall>w'. rely w w' \<longrightarrow> Q r w')"
| "safe good rely hist ok Q (Call f) =
     (\<lambda>w. \<forall>g c. rely w (g, c) \<and> good (g, c) \<longrightarrow>
        (\<lambda>(s, c'). ok g c c' \<longrightarrow> good (hist g c', c') \<and> rely (g, c) (hist g c', c') \<and> s (hist g c', c'))
        (map_prod (safe good rely hist ok Q) id (f c)))"

locale interference =
  fixes good :: "'g \<times> 'c \<Rightarrow> bool"
    and rely :: "'g \<times> 'c \<Rightarrow> 'g \<times> 'c \<Rightarrow> bool"
    and hist :: "'g \<Rightarrow> 'c \<Rightarrow> 'g"
    and ok :: "'g \<Rightarrow> 'c \<Rightarrow> 'c \<Rightarrow> bool"
  assumes rely_refl: "rely w w"
    and rely_trans: "rely w1 w2 \<Longrightarrow> rely w2 w3 \<Longrightarrow> rely w1 w3"
begin

abbreviation safely :: "('r \<Rightarrow> 'g \<times> 'c \<Rightarrow> bool) \<Rightarrow> ('c, 'r) task \<Rightarrow> 'g \<times> 'c \<Rightarrow> bool" where
  "safely \<equiv> safe good rely hist ok"

lemma safe_Call: "safely Q (Call f) w \<longleftrightarrow>
    (\<forall>g c t c'. rely w (g, c) \<longrightarrow> good (g, c) \<longrightarrow> f c = (t, c') \<longrightarrow> ok g c c' \<longrightarrow>
       good (hist g c', c') \<and> rely (g, c) (hist g c', c') \<and> safely Q t (hist g c', c'))"
  by (auto simp: map_prod_def split: prod.splits)

lemmas safe_simps = safe.simps(1) safe_Call

lemma safe_rely: "safely Q t w \<Longrightarrow> rely w w' \<Longrightarrow> safely Q t w'"
  by (cases t) (simp_all only: safe_simps, blast intro: rely_trans, meson rely_trans)

lemma safe_CallI:
  assumes "\<And>g c t c'. rely w (g, c) \<Longrightarrow> good (g, c) \<Longrightarrow> f c = (t, c') \<Longrightarrow> ok g c c' \<Longrightarrow>
     good (hist g c', c') \<and> rely (g, c) (hist g c', c') \<and> safely Q t (hist g c', c')"
  shows "safely Q (Call f) w"
  using assms unfolding safe_Call by blast

lemma safe_CallD:
  "safely Q (Call f) w \<Longrightarrow> rely w (g, c) \<Longrightarrow> good (g, c) \<Longrightarrow> f c = (t, c') \<Longrightarrow> ok g c c' \<Longrightarrow>
     good (hist g c', c') \<and> rely (g, c) (hist g c', c') \<and> safely Q t (hist g c', c')"
  unfolding safe_Call by blast

lemma safe_mono: "safely Q t w \<Longrightarrow> (\<And>r w'. Q r w' \<Longrightarrow> Q' r w') \<Longrightarrow> safely Q' t w"
proof (induction t arbitrary: w)
  case (Call f)
  show ?case
  proof (rule safe_CallI)
    fix g c t c' assume s: "rely w (g, c)" "good (g, c)" "f c = (t, c')" "ok g c c'"
    have "safely Q t w' \<Longrightarrow> safely Q' t w'" for w'
      by (rule Call.IH [OF rangeI [of f c]]) (use Call.prems(2) s(3) in \<open>auto simp: fsts.simps\<close>)
    with safe_CallD [OF Call.prems(1) s] show
      "good (hist g c', c') \<and> rely (g, c) (hist g c', c') \<and> safely Q' t (hist g c', c')" by blast
  qed
qed auto

lemma safe_seq: "safely (\<lambda>x. safely Q (k x)) t w \<Longrightarrow> safely Q (seq_task t k) w"
proof (induction t arbitrary: w)
  case (Return r)
  then show ?case using rely_refl [of w] by (simp add: split_paired_All [symmetric] del: split_paired_All)
next
  case (Call f)
  show ?case
    unfolding seq_task.simps
  proof (rule safe_CallI)
    fix g c t c' assume s: "rely w (g, c)" "good (g, c)" "ok g c c'"
      and f: "(\<lambda>(g, c'). (g k, c')) (map_prod seq_task id (f c)) = (t, c')"
    obtain u where u: "f c = (u, c')" "t = seq_task u k" using f by (cases "f c") auto
    have "safely (\<lambda>x. safely Q (k x)) u w' \<Longrightarrow> safely Q (seq_task u k) w'" for w'
      by (rule Call.IH [OF rangeI [of f c]]) (use u in \<open>auto simp: fsts.simps\<close>)
    with safe_CallD [OF Call.prems s(1,2) u(1) s(3)] u(2) show
      "good (hist g c', c') \<and> rely (g, c) (hist g c', c') \<and> safely Q t (hist g c', c')" by blast
  qed
qed

text \<open>A single step owes the others the invariant and the rely, and its caller the result.\<close>

lemma safe_step:
  assumes "\<And>g c r c'. rely w (g, c) \<Longrightarrow> good (g, c) \<Longrightarrow> f c = (r, c') \<Longrightarrow> ok g c c' \<Longrightarrow>
     good (hist g c', c') \<and> rely (g, c) (hist g c', c') \<and> (\<forall>w'. rely (hist g c', c') w' \<longrightarrow> Q r w')"
  shows "safely Q (step_task f) w"
  unfolding step_task_def
proof (rule safe_CallI)
  fix g c c' and t :: "('c, _) task"
  assume s: "rely w (g, c)" "good (g, c)" "(Return (fst (f c)), snd (f c)) = (t, c')" "ok g c c'"
  then have "f c = (fst (f c), c')" "t = Return (fst (f c))" by auto
  from assms [OF s(1,2) this(1) s(4)] this(2) show
    "good (hist g c', c') \<and> rely (g, c) (hist g c', c') \<and> safely Q t (hist g c', c')" by (simp only: safe.simps) blast
qed

lemma safe_try:
  assumes "safely (\<lambda>x w. case x of Inl e \<Rightarrow> safely Q (Return (Inl e)) w | Inr y \<Rightarrow> safely Q (k y) w) t w"
  shows "safely Q (try_task t k) w"
  unfolding try_task_def
  by (rule safe_seq) (rule safe_mono [OF assms], auto split: sum.splits)

lemma turn_safe:
  assumes "turn hist ok (ts, w) (ts', w')" "good w" "\<forall>t \<in> set ts. safely Q t w"
  shows "good w' \<and> (\<forall>t \<in> set ts'. safely Q t w')"
  using assms(1)
proof (cases rule: turn.cases)
  case (step i f c t c' g)
  have "safely Q (Call f) (g, c)" using assms(3) step nth_mem by metis
  with assms(2) step rely_refl [of "(g, c)"] have s: "good (hist g c', c')" "rely (g, c) (hist g c', c')"
    "safely Q t (hist g c', c')" by (blast dest: safe_CallD)+
  have "safely Q u (hist g c', c')" if "u \<in> set ts'" for u
    using that set_update_subset_insert [of ts i t] step assms(3) safe_rely [OF _ s(2)] s(3) by auto
  with s(1) step show ?thesis by simp
qed

lemma turns_safe:
  assumes "turns hist ok x y" "good (snd x)" "\<forall>t \<in> set (fst x). safely Q t (snd x)"
  shows "good (snd y) \<and> (\<forall>t \<in> set (fst y). safely Q t (snd y))"
  using assms
proof (induction rule: turns.induct)
  case (more y z)
  then show ?case using turn_safe [of "fst y" "snd y" "fst z" "snd z" Q] by (simp del: safe.simps)
qed simp

lemma results:
  assumes "turns hist ok (ts, w) (ts', w')" "good w" "\<forall>t \<in> set ts. safely Q t w" "Return r \<in> set ts'"
  shows "Q r w'"
proof -
  have "safely Q (Return r) w'" using turns_safe [OF assms(1)] assms(2-4) by fastforce
  with rely_refl [of w'] show ?thesis by (simp del: split_paired_All)
qed

end

end
