(* ===== verification/TaskLaws.thy ===== *)
theory TaskLaws
  imports Tasks
begin

text \<open>
  Two laws of tasks. A task on a part of the state is a task on the whole state, and what is
  shown of it on the part holds on the whole (locale \<open>component\<close>). Of tasks that all have to
  take one thing before they can succeed, at most one succeeds (locale \<open>prize\<close>).
\<close>

section \<open>A scheduler\<close>

text \<open>Task \<open>i\<close> takes its next step, when it has one and the history allows it.\<close>

fun give :: "('g \<Rightarrow> 'c \<Rightarrow> 'g) \<Rightarrow> ('g \<Rightarrow> 'c \<Rightarrow> 'c \<Rightarrow> bool) \<Rightarrow> nat
    \<Rightarrow> ('c, 'r) task list \<times> 'g \<times> 'c \<Rightarrow> ('c, 'r) task list \<times> 'g \<times> 'c" where
  "give hist ok i (ts, g, c) =
     (if i < length ts
      then (case ts ! i of
              Return r \<Rightarrow> (ts, g, c)
            | Call f \<Rightarrow> (case f c of (t, c') \<Rightarrow> if ok g c c' then (ts[i := t], hist g c', c') else (ts, g, c)))
      else (ts, g, c))"

lemma scheduled: "turns hist ok x y \<Longrightarrow> turns hist ok x (fold (give hist ok) is y)"
proof (induction "is" arbitrary: y)
  case (Cons i "is")
  obtain ts g c where y: "y = (ts, g, c)" by (cases y) auto
  have "turns hist ok x (give hist ok i y)"
    using Cons.prems by (auto simp: y split: task.split prod.split intro: turns.more turn.step)
  from Cons.IH [OF this] show ?case by simp
qed simp

text \<open>How a task composed with \<open>seq_task\<close> takes its next step.\<close>

lemma seq_assoc: "seq_task (seq_task t k) j = seq_task t (\<lambda>x. seq_task (k x) j)"
proof (induction t)
  case (Call f)
  have "seq_task (seq_task (fst (f c)) k) j = seq_task (fst (f c)) (\<lambda>x. seq_task (k x) j)" for c
    by (rule Call.IH [of "f c"]) (auto simp: fsts.simps)
  then show ?case by (auto simp: fun_eq_iff case_prod_beta)
qed simp

lemma seq_step: "seq_task (step_task f) j = Call (\<lambda>c. (j (fst (f c)), snd (f c)))"
  by (auto simp: step_task_def)

lemma seq_Call: "seq_task (Call f) j = Call (\<lambda>c. case f c of (t, c') \<Rightarrow> (seq_task t j, c'))"
  by (auto simp: fun_eq_iff split: prod.split)

section \<open>A part of the state\<close>

primrec lift_task :: "('s \<Rightarrow> 'c) \<Rightarrow> ('c \<Rightarrow> 's \<Rightarrow> 's) \<Rightarrow> ('c, 'r) task \<Rightarrow> ('s, 'r) task" where
  "lift_task get put (Return r) = Return r"
| "lift_task get put (Call f) = Call (\<lambda>s. (\<lambda>(t, c). (t, put c s)) (map_prod (lift_task get put) id (f (get s))))"

text \<open>Every step of the task relates the states before and after it.\<close>

primrec keeps :: "('c \<Rightarrow> 'c \<Rightarrow> bool) \<Rightarrow> ('c, 'r) task \<Rightarrow> bool" where
  "keeps R (Return r) \<longleftrightarrow> True"
| "keeps R (Call f) \<longleftrightarrow> (\<forall>c. R c (snd (f c)) \<and> fst (map_prod (keeps R) id (f c)))"

text \<open>A result in \<open>W\<close> is not reached from \<open>fit\<close> states without a step that \<open>takes\<close>.\<close>

primrec earns :: "('c \<Rightarrow> bool) \<Rightarrow> ('c \<Rightarrow> 'c \<Rightarrow> bool) \<Rightarrow> ('r \<Rightarrow> bool) \<Rightarrow> ('c, 'r) task \<Rightarrow> bool" where
  "earns fit takes W (Return r) \<longleftrightarrow> \<not> W r"
| "earns fit takes W (Call f) \<longleftrightarrow>
     (\<forall>c. fit c \<longrightarrow> takes c (snd (f c)) \<or> fst (map_prod (earns fit takes W) id (f c)))"

lemma keeps_Call: "keeps R (Call f) \<longleftrightarrow> (\<forall>c t c'. f c = (t, c') \<longrightarrow> R c c' \<and> keeps R t)"
  by (auto simp: map_prod_def split: prod.splits)

lemma earns_Call: "earns fit takes W (Call f) \<longleftrightarrow> (\<forall>c t c'. fit c \<longrightarrow> f c = (t, c') \<longrightarrow> takes c c' \<or> earns fit takes W t)"
  by (auto simp: map_prod_def split: prod.splits)

lemma keeps_map [simp]: "keeps R (map_task g t) = keeps R t"
proof (induction t)
  case (Call f)
  have "keeps R (map_task g (fst (f c))) = keeps R (fst (f c))" for c
    by (rule Call.IH [of "f c"]) (auto simp: fsts.simps)
  then show ?case by simp
qed simp

lemma keeps_step: "(\<And>c. R c (snd (f c))) \<Longrightarrow> keeps R (step_task f)"
  by (simp add: step_task_def)

lemma keeps_seq: "keeps R t \<Longrightarrow> (\<And>x. keeps R (k x)) \<Longrightarrow> keeps R (seq_task t k)"
proof (induction t)
  case (Call f)
  have "keeps R (seq_task (fst (f c)) k)" for c
    using Call.IH [of "f c" "fst (f c)"] Call.prems by (auto simp: fsts.simps)
  with Call.prems show ?case by (auto simp: case_prod_beta)
qed simp

lemma keeps_try: "keeps R t \<Longrightarrow> (\<And>x. keeps R (k x)) \<Longrightarrow> keeps R (try_task t k)"
  unfolding try_task_def by (rule keeps_seq) (auto split: sum.split)

lemma earns_never: "(\<And>r. \<not> W r) \<Longrightarrow> earns fit takes W t"
proof (induction t)
  case (Call f)
  have "earns fit takes W (fst (f c))" for c
    by (rule Call.IH [of "f c"]) (use Call.prems in \<open>auto simp: fsts.simps\<close>)
  then show ?case by simp
qed simp

lemma earns_mono: "earns fit takes W t \<Longrightarrow> (\<And>r. W' r \<Longrightarrow> W r) \<Longrightarrow> earns fit takes W' t"
proof (induction t)
  case (Call f)
  have "earns fit takes W (fst (f c)) \<Longrightarrow> earns fit takes W' (fst (f c))" for c
    by (rule Call.IH [of "f c"]) (use Call.prems in \<open>auto simp: fsts.simps\<close>)
  with Call.prems show ?case by auto
qed auto

lemma earns_map [simp]: "earns fit takes W (map_task g t) = earns fit takes (\<lambda>r. W (g r)) t"
proof (induction t)
  case (Call f)
  have "earns fit takes W (map_task g (fst (f c))) = earns fit takes (\<lambda>r. W (g r)) (fst (f c))" for c
    by (rule Call.IH [of "f c"]) (auto simp: fsts.simps)
  then show ?case by simp
qed simp

lemma earns_seq: "earns fit takes (\<lambda>x. \<not> earns fit takes W (k x)) t \<Longrightarrow> earns fit takes W (seq_task t k)"
proof (induction t)
  case (Call f)
  have "earns fit takes (\<lambda>x. \<not> earns fit takes W (k x)) (fst (f c)) \<Longrightarrow> earns fit takes W (seq_task (fst (f c)) k)" for c
    by (rule Call.IH [of "f c"]) (auto simp: fsts.simps)
  with Call.prems show ?case by (auto simp: case_prod_beta)
qed simp

lemma earns_before: "(\<And>x. earns fit takes W (k x)) \<Longrightarrow> earns fit takes W (seq_task t k)"
  by (rule earns_seq) (simp add: earns_never)

locale component =
  fixes get :: "'s \<Rightarrow> 'c" and put :: "'c \<Rightarrow> 's \<Rightarrow> 's"
  assumes get_put: "get (put c s) = c" and put_put: "put c (put c' s) = put c s" and put_get: "put (get s) s = s"
begin

lemma lift_Call: "lift_task get put (Call f) = Call (\<lambda>s. case f (get s) of (t, c) \<Rightarrow> (lift_task get put t, put c s))"
  by (simp add: case_prod_beta)

lemma run_lift: "run_task (lift_task get put t) s = (case run_task t (get s) of (r, c) \<Rightarrow> (r, put c s))"
proof (induction t arbitrary: s)
  case (Call f)
  have "run_task (lift_task get put (fst (f c))) s = (case run_task (fst (f c)) (get s) of (r, c) \<Rightarrow> (r, put c s))" for c s
    by (rule Call.IH [of "f c"]) (auto simp: fsts.simps)
  then show ?case by (simp add: case_prod_beta get_put put_put)
qed (simp add: put_get)

lemma keeps_rest: "(\<And>c s. S s (put c s)) \<Longrightarrow> keeps S (lift_task get put t)"
proof (induction t)
  case (Call f)
  have "keeps S (lift_task get put (fst (f c)))" for c
    by (rule Call.IH [of "f c"]) (use Call.prems in \<open>auto simp: fsts.simps\<close>)
  with Call.prems show ?case by (auto simp: case_prod_beta)
qed simp

lemma lift_seq: "lift_task get put (seq_task t k) = seq_task (lift_task get put t) (\<lambda>x. lift_task get put (k x))"
proof (induction t)
  case (Call f)
  have "lift_task get put (seq_task (fst (f c)) k) = seq_task (lift_task get put (fst (f c))) (\<lambda>x. lift_task get put (k x))" for c
    by (rule Call.IH [of "f c"]) (auto simp: fsts.simps)
  then show ?case by (auto simp: fun_eq_iff case_prod_beta)
qed simp

lemma keeps_lift: "keeps R t \<Longrightarrow> keeps (\<lambda>s s'. R (get s) (get s')) (lift_task get put t)"
proof (induction t)
  case (Call f)
  have "keeps R (fst (f c)) \<Longrightarrow> keeps (\<lambda>s s'. R (get s) (get s')) (lift_task get put (fst (f c)))" for c
    by (rule Call.IH [of "f c"]) (auto simp: fsts.simps)
  with Call.prems show ?case by (auto simp: case_prod_beta get_put)
qed simp

lemma earns_lift:
  "earns fit takes W t \<Longrightarrow> earns (\<lambda>s. fit (get s)) (\<lambda>s s'. takes (get s) (get s')) W (lift_task get put t)"
proof (induction t)
  case (Call f)
  have "earns fit takes W (fst (f c)) \<Longrightarrow>
      earns (\<lambda>s. fit (get s)) (\<lambda>s s'. takes (get s) (get s')) W (lift_task get put (fst (f c)))" for c
    by (rule Call.IH [of "f c"]) (auto simp: fsts.simps)
  with Call.prems show ?case by (auto simp: case_prod_beta get_put)
qed simp

text \<open>Rely and guarantee speak of the part alone.\<close>

lemma safe_lift:
  fixes good :: "'g \<times> 'c \<Rightarrow> bool"
  shows "safe good rely hist ok Q t (g, get s) \<Longrightarrow>
    safe (\<lambda>(g, s). good (g, get s)) (\<lambda>(g, s) (g', s'). rely (g, get s) (g', get s'))
      (\<lambda>g s. hist g (get s)) (\<lambda>g s s'. ok g (get s) (get s')) (\<lambda>r (g, s). Q r (g, get s)) (lift_task get put t) (g, s)"
proof (induction t arbitrary: g s)
  case (Call f)
  have IH: "safe good rely hist ok Q u (g, get s) \<Longrightarrow>
    safe (\<lambda>(g, s). good (g, get s)) (\<lambda>(g, s) (g', s'). rely (g, get s) (g', get s'))
      (\<lambda>g s. hist g (get s)) (\<lambda>g s s'. ok g (get s) (get s')) (\<lambda>r (g, s). Q r (g, get s)) (lift_task get put u) (g, s)"
    if "f c = (u, c')" for c u c' g s
    by (rule Call.IH [of "f c" u]) (use that rangeI [of f c] in \<open>auto simp: fsts.simps\<close>)
  show ?case
    unfolding lift_Call safe.simps
  proof (intro allI impI)
    fix g1 s1 assume r: "(case (g, s) of (g, s) \<Rightarrow> \<lambda>(g', s'). rely (g, get s) (g', get s')) (g1, s1) \<and>
      (case (g1, s1) of (g, s) \<Rightarrow> good (g, get s))"
    obtain u c where u: "f (get s1) = (u, c)" by force
    from Call.prems r have "ok g1 (get s1) c \<longrightarrow> good (hist g1 c, c) \<and> rely (g1, get s1) (hist g1 c, c)
       \<and> safe good rely hist ok Q u (hist g1 c, c)"
      by (auto simp: u dest!: spec [of _ g1])
    with IH [OF u, of "hist g1 c" "put c s1"]
    show "case map_prod (safe (\<lambda>(g, s). good (g, get s)) (\<lambda>(g, s) (g', s'). rely (g, get s) (g', get s'))
        (\<lambda>g s. hist g (get s)) (\<lambda>g s s'. ok g (get s) (get s')) (\<lambda>r (g, s). Q r (g, get s))) id
        (case f (get s1) of (t, c) \<Rightarrow> (lift_task get put t, put c s1)) of
      (sa, c') \<Rightarrow> ok g1 (get s1) (get c') \<longrightarrow> (case (hist g1 (get c'), c') of (g, s) \<Rightarrow> good (g, get s)) \<and>
        (case (g1, s1) of (g, s) \<Rightarrow> \<lambda>(g', s'). rely (g, get s) (g', get s')) (hist g1 (get c'), c') \<and>
        sa (hist g1 (get c'), c')"
      by (simp add: u get_put)
  qed
qed auto

end

section \<open>One prize\<close>

locale prize =
  fixes fit :: "'c \<Rightarrow> bool" and taken :: "'c \<Rightarrow> bool" and stays :: "'c \<Rightarrow> 'c \<Rightarrow> bool"
  assumes stays_fit: "stays c c' \<Longrightarrow> fit c \<Longrightarrow> fit c'"
    and stays_taken: "stays c c' \<Longrightarrow> taken c \<Longrightarrow> taken c'"
begin

abbreviation takes :: "'c \<Rightarrow> 'c \<Rightarrow> bool" where
  "takes c c' \<equiv> \<not> taken c \<and> taken c'"

definition winners :: "('r \<Rightarrow> bool) \<Rightarrow> ('c, 'r) task list \<Rightarrow> nat" where
  "winners W ts = length (filter (\<lambda>t. \<not> earns fit takes W t) ts)"

definition even_race :: "('r \<Rightarrow> bool) \<Rightarrow> ('c, 'r) task list \<Rightarrow> 'c \<Rightarrow> bool" where
  "even_race W ts c \<longleftrightarrow>
     (\<forall>t \<in> set ts. keeps stays t) \<and> fit c \<and> winners W ts \<le> 1 \<and> (\<not> taken c \<longrightarrow> winners W ts = 0)"

lemma winners_split:
  "winners W (xs @ t # ys) = winners W xs + (if earns fit takes W t then 0 else 1) + winners W ys"
  by (simp add: winners_def)

lemma winners_update:
  assumes "i < length ts"
  shows "winners W (ts[i := t]) + (if earns fit takes W (ts ! i) then 0 else 1)
    = winners W ts + (if earns fit takes W t then 0 else 1)"
proof -
  have "ts = take i ts @ ts ! i # drop (Suc i) ts" using assms by (rule id_take_nth_drop)
  then have "winners W ts = winners W (take i ts) + (if earns fit takes W (ts ! i) then 0 else 1) + winners W (drop (Suc i) ts)"
    by (metis (no_types, lifting) winners_split)
  moreover have "winners W (ts[i := t]) = winners W (take i ts) + (if earns fit takes W t then 0 else 1) + winners W (drop (Suc i) ts)"
    unfolding upd_conv_take_nth_drop [OF assms] by (rule winners_split)
  ultimately show ?thesis by simp
qed

lemma even_race_step:
  assumes "turn hist ok (ts, g, c) (ts', g', c')" "even_race W ts c"
  shows "even_race W ts' c'"
  using assms(1)
proof (cases rule: turn.cases)
  case (step i f t)
  then have all: "\<forall>u \<in> set ts. keeps stays u" and c: "fit c" "winners W ts \<le> 1" "\<not> taken c \<longrightarrow> winners W ts = 0"
    using assms(2) by (simp_all add: even_race_def)
  have "keeps stays (Call f)" using all step nth_mem by metis
  then have st: "stays c c'" "keeps stays t" using step unfolding keeps_Call by blast+
  have "takes c c' \<or> earns fit takes W t" if "earns fit takes W (Call f)"
    using that c(1) step unfolding earns_Call by blast
  with winners_update [of i ts W t] step c stays_taken [OF st(1)]
  have "winners W (ts[i := t]) \<le> 1" "\<not> taken c' \<longrightarrow> winners W (ts[i := t]) = 0"
    by (auto split: if_splits)
  moreover have "\<forall>u \<in> set (ts[i := t]). keeps stays u" using all st(2) set_update_subset_insert [of ts i t] by auto
  ultimately show ?thesis using step stays_fit [OF st(1) c(1)] by (simp add: even_race_def)
qed

lemma at_most_one_wins:
  assumes "turns hist ok (ts, g, c) (ts', g', c')" "fit c" "\<forall>t \<in> set ts. keeps stays t \<and> earns fit takes W t"
  shows "length (filter (\<lambda>t. \<exists>r. t = Return r \<and> W r) ts') \<le> 1"
proof -
  have w: "winners W ts = 0" using assms(3) by (simp add: winners_def filter_empty_conv)
  have "even_race W ts c" using assms(2,3) w by (simp add: even_race_def)
  with assms(1) have "even_race W ts' c'"
    by (induction "(ts', g', c')" arbitrary: ts' g' c' rule: turns.induct) (auto, metis even_race_step prod_cases3)
  then have "winners W ts' \<le> 1" by (simp add: even_race_def)
  moreover have "length (filter (\<lambda>t. \<exists>r. t = Return r \<and> W r) ts') \<le> winners W ts'"
    unfolding winners_def by (induction ts') auto
  ultimately show ?thesis by simp
qed

end

end
