(* ===== verification/Concurrency.thy ===== *)
theory Concurrency
  imports SqliteProps TaskLaws
begin

text \<open>
  Concurrent calls of the state store. The database has one open connection, so the statements
  of \<open>sqlite.go\<close> are atomic and those of different calls interleave; a transaction keeps the
  connection to its end. Each operation is a program of statements; run alone it is the
  operation of \<open>Sqlite\<close>, and a list of programs runs in any interleaving.
\<close>

section \<open>Programs of statements\<close>

text \<open>A program of statements is a task on the database.\<close>

type_synonym 'r prog = "(sqlite, 'r) task"

definition after :: "(sqlite \<Rightarrow> 'a result \<times> sqlite) \<Rightarrow> ('a \<Rightarrow> 'b result prog) \<Rightarrow> 'b result prog" where
  "after f k = Call (\<lambda>s. case f s of (Inl e, s') \<Rightarrow> (Return (Inl e), s') | (Inr x, s') \<Rightarrow> (k x, s'))"

lemma run_after [simp]: "run_task (after f k) s = on_ok (f s) (\<lambda>x. run_task (k x))"
  by (simp add: after_def on_ok_def split: prod.split sum.split)

section \<open>The operations as programs\<close>

definition create_prog :: "int \<Rightarrow> string option \<Rightarrow> int \<Rightarrow> CreateSendInput \<Rightarrow> SendRecord result prog" where
  "create_prog ms src now inp = after (CreateSend ms src now inp) (\<lambda>rec. Return (Inr rec))"

definition mark_prog :: "int \<Rightarrow> string \<Rightarrow> string \<Rightarrow> unit result prog" where
  "mark_prog now sid pid = after (MarkUploaded now sid pid) (\<lambda>_. Return (Inr ()))"

definition finalize_prog :: "int \<Rightarrow> string \<Rightarrow> unit result prog" where
  "finalize_prog now sid =
     after (SendStatusOf sid) (\<lambda>status.
       if status = SendStatusFinalized then Return (Inr ())
       else if status \<noteq> SendStatusCreating then Return (Inl ErrConflict)
       else
         after (query ''count missing''
                  (\<lambda>d. length (filter (\<lambda>p. p_send_id p = sid \<and> p_uploaded_at p = None) (send_parts d)))) (\<lambda>missing.
           if missing > 0 then Return (Inl ErrIncomplete)
           else
             after (stmt ''finalize''
                      (update_sends (\<lambda>r. s_id r = sid \<and> s_status r = SendStatusCreating)
                         (\<lambda>r. r\<lparr>s_status := SendStatusFinalized, s_finalized_at := Some (Unix now)\<rparr>)))
             (\<lambda>n. if n = 0 then Return (Inl ErrConflict) else Return (Inr ()))))"

definition grant_prog :: "string option \<Rightarrow> int \<Rightarrow> string \<Rightarrow> RedeemGrant result prog" where
  "grant_prog src now sid =
     (case NewRedeemToken src of
        None \<Rightarrow> Return (Inl (Panicked ''archcore-send: crypto/rand failed''))
      | Some token \<Rightarrow>
          after (\<lambda>s. on_ok (stmt ''insert grant''
                   (insert_grant \<lparr>g_token_hash = HashToken token, g_send_id = sid,
                      g_created_at = Unix now, g_expires_at = Unix (now + grantTTL s),
                      g_client_ip_hash = None, g_user_agent_hash = None\<rparr>) s) (\<lambda>_ s'. (Inr (now + grantTTL s), s'))) (\<lambda>until.
          after (partsBrief sid) (\<lambda>parts.
            Return (Inr \<lparr>gr_Token = token, gr_ExpiresAt = until, gr_Parts = parts\<rparr>))))"

definition redeem_prog :: "string option \<Rightarrow> int \<Rightarrow> string \<Rightarrow> RedeemGrant result prog" where
  "redeem_prog src now sid =
     after (query ''load send'' (find_send sid)) (\<lambda>row.
       (case row of
          None \<Rightarrow> Return (Inl ErrNotFound)
        | Some r \<Rightarrow>
            if s_status r \<noteq> SendStatusFinalized then Return (Inl ErrNotFinalized)
            else if s_expires_at r \<le> Unix now then Return (Inl ErrExpired)
            else if s_one_time r = 1 then
              after (consume now sid) (\<lambda>n.
                if n = 0 then Return (Inl ErrAlreadyRedeemed) else grant_prog src now sid)
            else grant_prog src now sid))"

definition delete_prog :: "int \<Rightarrow> (nat \<times> string list) result prog" where
  "delete_prog now =
     after (\<lambda>s. query ''select expired'' (\<lambda>d. map s_id (filter (dead_send (grantTTL s) now) (sends d))) s) (\<lambda>ids.
       if ids = [] then Return (Inr (0, []))
       else
         after (storageKeysFor ids) (\<lambda>keys.
         after (\<lambda>s. stmt ''delete sends''
                  (\<lambda>d. if length (snd (inClause ids)) > maxVars s then None else delete_sends ids d) s) (\<lambda>_.
           Return (Inr (length ids, keys)))))"

definition meta_prog :: "string \<Rightarrow> SendMeta result prog" where
  "meta_prog sid =
     after (query ''meta'' (find_send sid)) (\<lambda>row.
       (case row of
          None \<Rightarrow> Return (Inl ErrNotFound)
        | Some r \<Rightarrow>
            after (partsFull sid) (\<lambda>parts.
              Return (Inr \<lparr>meta_ID = sid, meta_Status = s_status r, meta_OneTime = (s_one_time r = 1),
                    meta_ExpiresAt = s_expires_at r * Second, meta_PartCount = s_part_count r,
                    meta_TotalEncryptedSize = s_total_encrypted_size r, meta_Parts = parts\<rparr>))))"

definition read_prog :: "(sqlite \<Rightarrow> 'a result \<times> sqlite) \<Rightarrow> 'a result prog" where
  "read_prog f = after f (\<lambda>x. Return (Inr x))"

text \<open>A call counts as a success for \<open>sid\<close> when it is a redeem of it that returns a grant.\<close>

fun op_prog :: "string \<Rightarrow> sql_op \<Rightarrow> bool prog" where
  "op_prog sid (OpCreate ms src now inp) = map_task (\<lambda>_. False) (create_prog ms src now inp)"
| "op_prog sid (OpMark now i p) = map_task (\<lambda>_. False) (mark_prog now i p)"
| "op_prog sid (OpFinalize now i) = map_task (\<lambda>_. False) (finalize_prog now i)"
| "op_prog sid (OpRedeem src now i) = map_task (\<lambda>r. i = sid \<and> \<not> isl r) (redeem_prog src now i)"
| "op_prog sid (OpDelete now) = map_task (\<lambda>_. False) (delete_prog now)"
| "op_prog sid (OpStatus i) = map_task (\<lambda>_. False) (read_prog (SendStatusOf i))"
| "op_prog sid (OpDeclared i p) = map_task (\<lambda>_. False) (read_prog (DeclaredPart i p))"
| "op_prog sid (OpValidate now i h) = map_task (\<lambda>_. False) (read_prog (ValidateGrant now i h))"
| "op_prog sid (OpMeta i) = map_task (\<lambda>_. False) (meta_prog i)"
| "op_prog sid OpLive = map_task (\<lambda>_. False) (read_prog LiveStorageKeys)"

section \<open>Alone, a program is its operation\<close>

lemma run_map: "run_task (map_task g p) s = map_prod g id (run_task p s)"
proof (induction p arbitrary: s)
  case (Call f)
  have "run_task (map_task g (fst (f s))) s' = map_prod g id (run_task (fst (f s)) s')" for s'
    by (rule Call.IH [of "f s"]) (auto simp: fsts.simps)
  then show ?case by (cases "f s") (simp add: map_prod_def)
qed simp

lemma on_ok_return [simp]: "on_ok m (\<lambda>x s. (Inr x, s)) = m"
  by (cases m; cases "fst m") auto

lemma query_grantTTL: "query ctx f s = (Inr x, s') \<Longrightarrow> grantTTL s' = grantTTL s"
  by (auto dest!: query_Inr simp: same_cfg_def)

lemma run_create: "run_task (create_prog ms src now inp) = CreateSend ms src now inp"
  by (simp add: create_prog_def fun_eq_iff)

lemma run_mark: "run_task (mark_prog now sid pid) = MarkUploaded now sid pid"
  by (rule ext) (simp add: mark_prog_def, cases rule: result_cases, auto simp: MarkUploaded_def on_ok_def split: sum.split)

lemma run_finalize: "run_task (finalize_prog now sid) = FinalizeSend now sid"
  unfolding finalize_prog_def FinalizeSend_def
  by (rule ext) (auto intro!: on_ok_cong)

lemma run_grant: "run_task (grant_prog src now sid) = open_grant src now sid"
proof (rule ext)
  fix s
  show "run_task (grant_prog src now sid) s = open_grant src now sid s"
  proof (cases "NewRedeemToken src")
    case (Some token)
    let ?ins = "stmt ''insert grant''
                   (insert_grant \<lparr>g_token_hash = HashToken token, g_send_id = sid,
                      g_created_at = Unix now, g_expires_at = Unix (now + grantTTL s),
                      g_client_ip_hash = None, g_user_agent_hash = None\<rparr>) s"
    obtain m s1 where m: "?ins = (m, s1)" by force
    obtain q s2 where q: "partsBrief sid s1 = (q, s2)" by force
    have "grantTTL s1 = grantTTL s" if "m = Inr u" for u
      using m stmt_Inr that by (fastforce simp: same_cfg_def)
    moreover have "grantTTL s2 = grantTTL s1" if "q = Inr x" for x
      using q that by (auto simp: partsBrief_def dest: query_grantTTL)
    ultimately show ?thesis
      using m q by (cases m; cases q) (simp_all add: grant_prog_def open_grant_def Some)
  qed (simp add: grant_prog_def open_grant_def)
qed

lemma run_redeem: "run_task (redeem_prog src now sid) = RedeemSend src now sid"
  unfolding redeem_prog_def RedeemSend_def
  by (rule ext) (auto simp: run_grant intro!: on_ok_cong split: option.split)

lemma run_delete: "run_task (delete_prog now) = DeleteExpired now"
  unfolding delete_prog_def DeleteExpired_def
  by (rule ext) (auto intro!: on_ok_cong)

lemma run_meta: "run_task (meta_prog sid) = GetSendMeta sid"
  unfolding meta_prog_def GetSendMeta_def
  by (rule ext) (auto intro!: on_ok_cong split: option.split)

lemma run_read: "run_task (read_prog f) = f"
  by (rule ext) (simp add: read_prog_def)

lemmas run_ops = run_create run_mark run_finalize run_redeem run_delete run_meta run_read

text \<open>
  Run without interruption, the statement program of every store call is the sequential
  operation, with the same state, and it counts as a success exactly when the redeem returns
  a grant.
\<close>

theorem program_alone_is_the_operation:
  "snd (run_task (op_prog sid op) s) = sql_step op s
     \<and> (fst (run_task (op_prog sid op) s) \<longleftrightarrow>
          (\<exists>src now. op = OpRedeem src now sid \<and> \<not> isl (fst (RedeemSend src now sid s))))"
  by (cases op) (auto simp: run_map run_ops split: prod.split)

section \<open>Interleavings\<close>

text \<open>Nothing restricts the turns, and there is no history to keep.\<close>

abbreviation creach :: "'r prog list \<times> unit \<times> sqlite \<Rightarrow> 'r prog list \<times> unit \<times> sqlite \<Rightarrow> bool" where
  "creach \<equiv> turns (\<lambda>_ _. ()) (\<lambda>_ _ _. True)"

section \<open>What every statement keeps\<close>

definition ids_distinct :: "tables \<Rightarrow> bool" where
  "ids_distinct d \<longleftrightarrow> distinct (map s_id (sends d))"

definition stays :: "string \<Rightarrow> tables \<Rightarrow> tables \<Rightarrow> bool" where
  "stays sid d d' \<longleftrightarrow>
     (ids_distinct d \<longrightarrow> ids_distinct d') \<and> (spent sid d \<longrightarrow> spent sid d') \<and> (one_time_only sid d \<longrightarrow> one_time_only sid d')"

lemma stays_same [simp]: "stays sid d d"
  by (simp add: stays_def)

lemma stays_evolves: "evolves d d' \<Longrightarrow> (ids_distinct d \<Longrightarrow> ids_distinct d') \<Longrightarrow> stays sid d d'"
  by (auto simp: stays_def intro: spent_evolves one_time_only_evolves)

lemma stays_effects [simp]:
  "stays sid d (eff_mark now i p d)" "stays sid d (eff_finalize now i d)" "stays sid d (eff_consume now i d)"
  "stays sid d (eff_grant g d)" "stays sid d (eff_delete ids d)"
proof -
  have m: "map (s_id \<circ> (\<lambda>r. if c r then f r else r)) rs = map s_id rs" if "\<And>r. s_id (f r) = s_id r" for c f rs
    using that by (induction rs) auto
  show "stays sid d (eff_mark now i p d)" by (rule stays_evolves, simp, simp add: eff_mark_def ids_distinct_def)
  show "stays sid d (eff_finalize now i d)" by (rule stays_evolves, simp, simp add: eff_finalize_def ids_distinct_def m)
  show "stays sid d (eff_consume now i d)" by (rule stays_evolves, simp, simp add: eff_consume_def ids_distinct_def m)
  show "stays sid d (eff_grant g d)" by (rule stays_evolves) (auto simp: eff_grant_def ids_distinct_def evolves_def)
  show "stays sid d (eff_delete ids d)"
    by (rule stays_evolves) (auto simp: eff_delete_def ids_distinct_def distinct_map_filterI evolves_def)
qed

lemma stays_create:
  "i \<noteq> sid \<Longrightarrow> i \<notin> s_id ` set (sends d) \<Longrightarrow> stays sid d (eff_create i now inp d)"
  by (auto simp: stays_def eff_create_def ids_distinct_def spent_def one_time_only_def)

text \<open>\<open>calm sid p\<close>: every statement of the program keeps these facts.\<close>

abbreviation calm :: "string \<Rightarrow> 'r prog \<Rightarrow> bool" where
  "calm sid \<equiv> keeps (\<lambda>s s'. stays sid (db s) (db s'))"

lemma calm_after:
  assumes "\<And>s. stays sid (db s) (db (snd (f s)))" "\<And>s x s'. f s = (Inr x, s') \<Longrightarrow> calm sid (k x)"
  shows "calm sid (after f k)"
  unfolding after_def keeps_Call
proof (intro allI impI)
  fix s p s' assume "(case f s of (Inl e, s') \<Rightarrow> (Return (Inl e), s') | (Inr x, s') \<Rightarrow> (k x, s')) = (p, s')"
  then show "stays sid (db s) (db s') \<and> calm sid p"
    using assms(1) [of s] assms(2) [of s] by (cases "f s"; cases "fst (f s)") auto
qed

lemma stays_stmt:
  assumes "\<And>d d' x. F d = Some (d', x) \<Longrightarrow> stays sid d d'"
  shows "stays sid (db s) (db (snd (stmt ctx F s)))"
  using assms by (cases rule: result_cases [of "stmt ctx F s"]) (auto dest!: stmt_Inr stmt_Inl)

lemma stays_query [simp]: "stays sid (db s) (db (snd (query ctx f s)))"
  unfolding query_def by (rule stays_stmt) auto

lemma stays_read:
  "db (snd (SendStatusOf i s)) = db s" "db (snd (DeclaredPart i p s)) = db s" "db (snd (ValidateGrant now i h s)) = db s"
  "db (snd (partsBrief i s)) = db s" "db (snd (partsFull i s)) = db s" "db (snd (LiveStorageKeys s)) = db s"
  "db (snd (query ctx f s)) = db s"
proof -
  show q: "db (snd (query ctx f s)) = db s" for ctx and f :: "tables \<Rightarrow> 'x" and s
    by (cases rule: result_cases [of "query ctx f s"]) (auto dest!: query_Inr query_Inl)
  show "db (snd (SendStatusOf i s)) = db s"
    by (cases rule: result_cases [of "SendStatusOf i s"]) (auto dest!: SendStatusOf_Inr SendStatusOf_Inl)
  show "db (snd (DeclaredPart i p s)) = db s"
    by (cases rule: result_cases [of "DeclaredPart i p s"]) (auto dest!: DeclaredPart_Inr DeclaredPart_Inl)
  show "db (snd (ValidateGrant now i h s)) = db s"
    by (cases rule: result_cases [of "ValidateGrant now i h s"]) (auto dest!: ValidateGrant_Inr ValidateGrant_Inl)
  show "db (snd (partsBrief i s)) = db s" "db (snd (partsFull i s)) = db s" "db (snd (LiveStorageKeys s)) = db s"
    by (simp_all add: partsBrief_def partsFull_def LiveStorageKeys_def q)
qed

lemma calm_redeem: "calm sid (redeem_prog src now i)"
proof -
  have ins: "stays sid (db s) (db (snd (on_ok (stmt ''insert grant'' (insert_grant (g s)) s) (\<lambda>_ s'. (Inr (h s s'), s')))))"
    for s and g :: "sqlite \<Rightarrow> grant_row" and h :: "sqlite \<Rightarrow> sqlite \<Rightarrow> int"
    using stays_stmt [of "insert_grant (g s)" sid s "''insert grant''"]
    by (cases rule: result_cases [of "stmt ''insert grant'' (insert_grant (g s)) s"]) (auto simp: insert_grant_Some)
  have grant: "calm sid (grant_prog src now i)"
    unfolding grant_prog_def
    by (auto split: option.split intro!: calm_after ins simp: stays_read)
  have take: "stays sid (db s) (db (snd (consume now i s)))" for s
    by (cases rule: result_cases [of "consume now i s"]) (auto dest!: consume_Inr consume_Inl)
  show ?thesis
    unfolding redeem_prog_def
    by (auto split: option.split simp: grant stays_read intro!: calm_after take)
qed

lemma calm_op:
  assumes "\<not> creates sid op"
  shows "calm sid (op_prog sid op)"
proof (cases op)
  case (OpCreate ms src now inp)
  have "stays sid (db s) (db (snd (CreateSend ms src now inp s)))" for s
    using assms OpCreate
    by (cases rule: result_cases [of "CreateSend ms src now inp s"])
       (auto dest!: CreateSend_Inr CreateSend_Inl simp: creates_def intro!: stays_create)
  then show ?thesis by (auto simp: OpCreate create_prog_def intro!: calm_after)
next
  case (OpMark now i p)
  have "stays sid (db s) (db (snd (MarkUploaded now i p s)))" for s
    by (cases rule: result_cases [of "MarkUploaded now i p s"]) (auto dest!: MarkUploaded_Inr MarkUploaded_Inl)
  then show ?thesis by (auto simp: OpMark mark_prog_def intro!: calm_after)
next
  case (OpFinalize now i)
  have "stays sid (db s) (db (snd (stmt ctx (update_sends (\<lambda>r. s_id r = i \<and> s_status r = SendStatusCreating)
      (\<lambda>r. r\<lparr>s_status := SendStatusFinalized, s_finalized_at := Some (Unix now)\<rparr>)) s)))" for s ctx
    using stays_effects(2) [of sid _ now i]
    by (intro stays_stmt) (auto simp: update_sends_def eff_finalize_def)
  then show ?thesis
    by (auto simp: OpFinalize finalize_prog_def stays_read intro!: calm_after)
next
  case (OpRedeem src now i)
  then show ?thesis by (simp add: calm_redeem)
next
  case (OpDelete now)
  have "stays sid (db s) (db (snd (stmt ctx (\<lambda>d. if b then None else delete_sends ids d) s)))" for s ctx b ids
    using stays_effects(5) [of sid _ "set ids"]
    by (intro stays_stmt) (auto simp: delete_sends_def eff_delete_def split: if_splits)
  moreover have "stays sid (db s) (db (snd (storageKeysFor ids s)))" for s ids
    unfolding storageKeysFor_def by (rule stays_stmt) (auto split: if_splits)
  ultimately show ?thesis
    by (auto simp: OpDelete delete_prog_def stays_read intro!: calm_after)
qed (auto simp: read_prog_def meta_prog_def stays_read intro!: calm_after split: option.split)

section \<open>A grant costs the send\<close>

text \<open>A statement takes the send when it finds it unspent and leaves it spent.\<close>

abbreviation takes :: "string \<Rightarrow> tables \<Rightarrow> tables \<Rightarrow> bool" where
  "takes sid d d' \<equiv> \<not> spent sid d \<and> spent sid d'"

abbreviation fit :: "string \<Rightarrow> tables \<Rightarrow> bool" where
  "fit sid d \<equiv> ids_distinct d \<and> one_time_only sid d"

interpretation one: prize "\<lambda>s. fit sid (db s)" "\<lambda>s. spent sid (db s)" "\<lambda>s s'. stays sid (db s) (db s')" for sid
  by unfold_locales (auto simp: stays_def)

text \<open>\<open>needs sid W p\<close>: the program cannot end with a result in \<open>W\<close> without such a statement.\<close>

abbreviation needs :: "string \<Rightarrow> ('r \<Rightarrow> bool) \<Rightarrow> 'r prog \<Rightarrow> bool" where
  "needs sid \<equiv> earns (\<lambda>s. fit sid (db s)) (\<lambda>s s'. takes sid (db s) (db s'))"

lemma needs_after:
  assumes "\<And>e. \<not> W (Inl e)"
    and "\<And>s x s'. fit sid (db s) \<Longrightarrow> f s = (Inr x, s') \<Longrightarrow> takes sid (db s) (db s') \<or> needs sid W (k x)"
  shows "needs sid W (after f k)"
  unfolding after_def earns_Call
proof (intro allI impI)
  fix s p s' assume "fit sid (db s)"
    and "(case f s of (Inl e, s') \<Rightarrow> (Return (Inl e), s') | (Inr x, s') \<Rightarrow> (k x, s')) = (p, s')"
  then show "takes sid (db s) (db s') \<or> needs sid W p"
    using assms(1) assms(2) [of s] by (cases "f s"; cases "fst (f s)") auto
qed

lemma consume_takes:
  assumes "ids_distinct (db s)" "consume now sid s = (Inr n, s')" "n \<noteq> 0"
  shows "takes sid (db s) (db s')"
proof -
  from consume_Inr [OF assms(2)] have d: "db s' = eff_consume now sid (db s)"
    and "filter (consumable now sid) (sends (db s)) \<noteq> []" using assms(3) by auto
  then obtain r where r: "r \<in> set (sends (db s))" "consumable now sid r" by (auto simp: filter_empty_conv)
  have uniq: "p = r" if "p \<in> set (sends (db s))" "s_id p = sid" for p
    using assms(1) that r by (auto simp: ids_distinct_def distinct_map inj_on_def consumable_def)
  have "x = r\<lparr>s_consumed_at := Some (Unix now)\<rparr>" if x: "x \<in> set (sends (db s'))" "s_id x = sid" for x
  proof -
    obtain p where p: "p \<in> set (sends (db s))" "x = (if consumable now sid p then p\<lparr>s_consumed_at := Some (Unix now)\<rparr> else p)"
      using x(1) unfolding d by (rule eff_consume_rowD)
    then have "p = r" using x(2) uniq by (auto split: if_splits)
    with p r(2) show ?thesis by simp
  qed
  then have row: "x = r\<lparr>s_consumed_at := Some (Unix now)\<rparr>" if "x \<in> set (sends (db s'))" "s_id x = sid" for x
    using that .
  have "spent sid (db s')"
    unfolding spent_def
  proof (intro ballI impI)
    fix x assume "x \<in> set (sends (db s'))" "s_id x = sid"
    from row [OF this] r(2) show "s_one_time x = 1 \<and> s_consumed_at x \<noteq> None" by (simp add: consumable_def)
  qed
  moreover have "\<not> spent sid (db s)" using r by (auto simp: spent_def consumable_def)
  ultimately show ?thesis by simp
qed

lemma needs_redeem: "needs sid (\<lambda>r. \<not> isl r) (redeem_prog src now sid)"
proof -
  have "needs sid (\<lambda>r. \<not> isl r)
      (after (consume now sid) (\<lambda>n. if n = 0 then Return (Inl ErrAlreadyRedeemed) else grant_prog src now sid))"
    by (rule needs_after) (auto dest: consume_takes)
  moreover have "s_one_time r = 1" if "one_time_only sid d" "find_send sid d = Some r" for d r
    using that by (auto simp: one_time_only_def dest: find_send_SomeD)
  ultimately show ?thesis
    unfolding redeem_prog_def by (intro needs_after) (auto dest!: query_Inr split: option.split)
qed

lemma needs_op: "needs sid (\<lambda>b. b) (op_prog sid op)"
proof (cases op)
  case (OpRedeem src now i)
  then show ?thesis by (cases "i = sid") (simp_all add: needs_redeem earns_never)
qed (simp_all add: earns_never)

section \<open>At most one grant\<close>

text \<open>
  C7. When any number of store calls run concurrently, their statements interleaved in any
  order and any of them failing, at most one redeem of a one-time send returns a grant.
\<close>

theorem concurrent_redeems_at_most_one_grant:
  assumes "tables_inv (db s)" "find_send sid (db s) = Some r" "s_one_time r = 1"
    and "\<forall>op \<in> set ops. \<not> creates sid op"
    and "creach (map (op_prog sid) ops, (), s) (ps, (), s')"
  shows "count_list ps (Return True) \<le> 1"
proof -
  have "fit sid (db s)"
    using assms(1-3) unique_row [OF assms(1)]
    by (auto simp: find_send_iff one_time_only_def tables_inv_def keys_unique_def ids_distinct_def)
  moreover have "\<forall>p \<in> set (map (op_prog sid) ops). calm sid p \<and> needs sid (\<lambda>b. b) p"
    using assms(4) calm_op needs_op by auto
  ultimately have "length (filter (\<lambda>p. \<exists>b. p = Return b \<and> b) ps) \<le> 1"
    using one.at_most_one_wins [OF assms(5), of sid "\<lambda>b. b"] by simp
  moreover have "length (filter (\<lambda>p. \<exists>b. p = Return b \<and> b) ps) = count_list ps (Return True)"
    by (induction ps) auto
  ultimately show ?thesis by simp
qed

text \<open>Two redeems of one link race: both have read the row before either takes it.\<close>

abbreviation schedule :: "nat list \<Rightarrow> bool prog list \<times> unit \<times> sqlite \<Rightarrow> bool prog list \<times> unit \<times> sqlite" where
  "schedule \<equiv> fold (give (\<lambda>_ _. ()) (\<lambda>_ _ _. True))"

definition race :: "bool prog list \<times> unit \<times> sqlite" where
  "race = (map (op_prog demo_id) [OpRedeem demo_src (3 * Second) demo_id, OpRedeem demo_src (3 * Second) demo_id], (), demo_finalized)"

lemma race_run: "schedule [0, 1, 1, 1, 1, 0] race = ([Return False, Return True], (), demo_redeemed)"
  by (simp add: race_def redeem_prog_def after_def consume_def update_sends_def grant_prog_def demo_token_new insert_grant_def
      new_grant_def partsBrief_def demo_eval)

theorem concurrent_redeems_at_most_one_grant_witness:
  "count_list (fst (schedule [0, 1, 1, 1, 1, 0] race)) (Return True) = 1"
proof -
  have "creach race ([Return False, Return True], (), demo_redeemed)"
    using scheduled [OF turns.none, of "\<lambda>_ _. ()" "\<lambda>_ _ _. True" race "[0, 1, 1, 1, 1, 0]"] by (simp only: race_run)
  moreover have "find_send demo_id (db demo_finalized) = Some (demo_row (Some 2) None)" "s_one_time (demo_row (Some 2) None) = 1"
    by (simp_all add: find_send_def demo_eval)
  ultimately have "count_list [Return False, Return True] (Return True) \<le> 1"
    using concurrent_redeems_at_most_one_grant [OF demo_finalized_inv, of demo_id "demo_row (Some 2) None"
      "[OpRedeem demo_src (3 * Second) demo_id, OpRedeem demo_src (3 * Second) demo_id]"]
    unfolding race_def by (simp add: creates_def)
  then show ?thesis by (simp only: race_run fst_conv) simp
qed

end
