(* ===== verification/Calls.thy ===== *)
theory Calls
  imports StoreScenario Concurrency
begin

text \<open>
  Concurrent calls of the coordinator. Every call of \<open>coordinator.go\<close> is a task whose steps are
  the statements of the database and the calls of the blob store: each of these publishes or
  reads in one system call, and its temporary file has a name of its own.
\<close>

section \<open>The calls as tasks\<close>

type_synonym 'r call = "(store, 'r) task"

primrec on_db :: "'r prog \<Rightarrow> 'r call" where
  "on_db (Return r) = Return r"
| "on_db (Call f) = Call (\<lambda>c. (\<lambda>(t, s). (t, c\<lparr>state := s\<rparr>)) (map_prod on_db id (f (state c))))"

definition put_task :: "env \<Rightarrow> string \<Rightarrow> string \<Rightarrow> reader \<Rightarrow> PartMeta \<Rightarrow> int result call" where
  "put_task e sid pid r declared =
     try_task (on_db (read_prog (SendStatusOf sid))) (\<lambda>status.
       if status \<noteq> SendStatusCreating then Return (Inl ErrConflict)
       else
         try_task (on_db (read_prog (DeclaredPart sid pid))) (\<lambda>(stored, _).
           if SHA256 declared \<noteq> [] \<and> SHA256 declared \<noteq> SHA256 stored then Return (Inl ErrIntegrity)
           else
             try_task (step_task (\<lambda>c. on_blob (bl_Put filesystem_blob e (StorageKey sid pid) r
                 \<lparr>PartID = pid, EncryptedSize = EncryptedSize stored, SHA256 = SHA256 stored\<rparr> (maxPartBytes c)) c)) (\<lambda>n.
             try_task (on_db (mark_prog (clock e) sid pid)) (\<lambda>_. Return (Inr n)))))"

definition get_task :: "env \<Rightarrow> string \<Rightarrow> string \<Rightarrow> string \<Rightarrow> handle result call" where
  "get_task e sid pid redeemToken =
     try_task (on_db (read_prog (ValidateGrant (clock e) sid (HashToken redeemToken)))) (\<lambda>_.
     try_task (on_db (read_prog (DeclaredPart sid pid))) (\<lambda>_.
       step_task (on_blob (bl_Open filesystem_blob (StorageKey sid pid)))))"

fun delete_task :: "string list \<Rightarrow> unit call" where
  "delete_task [] = Return ()"
| "delete_task (k # ks) = seq_task (step_task (on_blob (bl_Delete filesystem_blob k))) (\<lambda>_. delete_task ks)"

definition expire_task :: "int \<Rightarrow> nat result call" where
  "expire_task now =
     try_task (on_db (delete_prog now)) (\<lambda>(n, keys). seq_task (delete_task keys) (\<lambda>_. Return (Inr n)))"

definition sweep_task :: "nat result call" where
  "sweep_task =
     try_task (on_db (read_prog LiveStorageKeys)) (\<lambda>live.
     try_task (step_task (on_blob (bl_List filesystem_blob))) (\<lambda>stored.
       seq_task (delete_task (orphans live stored)) (\<lambda>_. Return (Inr (length (orphans live stored))))))"

text \<open>A call with its arguments, and what it hands out: the bytes of a part, or nothing.\<close>

datatype co_op =
    CoCreate env CreateSendInput
  | CoPut env string string reader PartMeta
  | CoFinalize env string
  | CoRedeem env string
  | CoGet env string string string
  | CoMeta string
  | CoExpire int
  | CoSweep

type_synonym served = "(string \<times> string \<times> string) option"

definition handed_out :: "string \<Rightarrow> string \<Rightarrow> handle result \<Rightarrow> served" where
  "handed_out sid pid r = (case r of Inr (File d) \<Rightarrow> Some (sid, pid, d) | _ \<Rightarrow> None)"

definition silent :: "'r call \<Rightarrow> served call" where
  "silent t = seq_task t (\<lambda>_. Return None)"

fun call_task :: "co_op \<Rightarrow> served call" where
  "call_task (CoCreate e inp) = silent (on_db (create_prog (UnixMilli (wall e)) (entropy e) (clock e) inp))"
| "call_task (CoPut e sid pid r d) = silent (put_task e sid pid r d)"
| "call_task (CoFinalize e sid) = silent (on_db (finalize_prog (clock e) sid))"
| "call_task (CoRedeem e sid) = silent (on_db (redeem_prog (entropy e) (clock e) sid))"
| "call_task (CoGet e sid pid token) = seq_task (get_task e sid pid token) (\<lambda>r. Return (handed_out sid pid r))"
| "call_task (CoMeta sid) = silent (on_db (meta_prog sid))"
| "call_task (CoExpire now) = silent (expire_task now)"
| "call_task CoSweep = silent sweep_task"

section \<open>Alone, a task is its call\<close>

interpretation database: component state "\<lambda>s c. c\<lparr>state := s\<rparr>"
  by unfold_locales simp_all

lemma on_db_lift: "on_db t = lift_task state (\<lambda>s c. c\<lparr>state := s\<rparr>) t"
proof (induction t)
  case (Call f)
  have "on_db (fst (f s)) = lift_task state (\<lambda>s c. c\<lparr>state := s\<rparr>) (fst (f s))" for s
    by (rule Call.IH [of "f s"]) (auto simp: fsts.simps)
  then show ?case by (simp add: fun_eq_iff case_prod_beta)
qed simp

lemma run_on_db [simp]: "run_task (on_db p) c = on_state (run_task p) c"
  by (simp add: on_db_lift database.run_lift on_state_def)

lemma run_put: "run_task (put_task e sid pid r d) = PutPart sqlite_state filesystem_blob e sid pid r d"
  by (rule ext) (auto simp: put_task_def PutPart_def upload_check_def run_read run_mark on_ok_def split: sum.splits)

lemma sqlite_calls [simp]:
  "st_CreateSend sqlite_state e inp = CreateSend (UnixMilli (wall e)) (entropy e) (clock e) inp"
  "st_FinalizeSend sqlite_state e sid = FinalizeSend (clock e) sid"
  "st_RedeemSend sqlite_state e sid = RedeemSend (entropy e) (clock e) sid"
  "st_ValidateGrant sqlite_state e sid h = ValidateGrant (clock e) sid h"
  by (simp_all add: fun_eq_iff)

lemma run_get_task: "run_task (get_task e sid pid token) = GetPart sqlite_state filesystem_blob e sid pid token"
  by (rule ext) (auto simp: get_task_def GetPart_def run_read intro!: on_ok_cong)

lemma run_delete_task: "run_task (delete_task ks) c = ((), c\<lparr>blob := delete_each filesystem_blob ks (blob c)\<rparr>)"
  by (induction ks arbitrary: c) (simp_all add: case_prod_beta on_blob_def)

lemma run_expire: "run_task (expire_task now) = co_DeleteExpired sqlite_state filesystem_blob now"
  by (rule ext) (auto simp: expire_task_def co_DeleteExpired_def run_delete run_delete_task intro!: on_ok_cong)

lemma run_sweep: "run_task sweep_task = OrphanSweep sqlite_state filesystem_blob"
  by (rule ext) (auto simp: sweep_task_def OrphanSweep_def run_read run_delete_task intro!: on_ok_cong)

fun co_call :: "co_op \<Rightarrow> store \<Rightarrow> served \<times> store" where
  "co_call (CoCreate e inp) c = (None, snd (co_CreateSend sqlite_state e inp c))"
| "co_call (CoPut e sid pid r d) c = (None, snd (PutPart sqlite_state filesystem_blob e sid pid r d c))"
| "co_call (CoFinalize e sid) c = (None, snd (co_FinalizeSend sqlite_state e sid c))"
| "co_call (CoRedeem e sid) c = (None, snd (co_RedeemSend sqlite_state e sid c))"
| "co_call (CoGet e sid pid token) c = map_prod (handed_out sid pid) id (GetPart sqlite_state filesystem_blob e sid pid token c)"
| "co_call (CoMeta sid) c = (None, snd (co_GetSendMeta sqlite_state sid c))"
| "co_call (CoExpire now) c = (None, snd (co_DeleteExpired sqlite_state filesystem_blob now c))"
| "co_call CoSweep c = (None, snd (OrphanSweep sqlite_state filesystem_blob c))"

text \<open>
  Run without interruption, the task of a coordinator call is the call: it hands out the
  same bytes and leaves the same stores.
\<close>

theorem task_alone_is_the_call: "run_task (call_task op) c = co_call op c"
  by (cases op) (simp_all add: silent_def case_prod_beta run_put run_get_task run_expire run_sweep run_create run_finalize
      run_redeem run_meta co_CreateSend_def co_FinalizeSend_def co_RedeemSend_def co_GetSendMeta_def map_prod_def)

end
