(* ===== verification/Requests.thy ===== *)
theory Requests
  imports Calls ServerProps
begin

text \<open>
  Concurrent requests. \<open>net/http\<close> runs every request in a goroutine of its own, beside the
  goroutine of the sweeper: a request is a task on the whole server, whose steps are the draw
  on its limiter, the steps of its coordinator calls, and the line in the request log.
  Everything else of a handler is local to its goroutine. The configuration never changes and
  is an argument.
\<close>

section \<open>Tasks on the server\<close>

interpretation coordinator: component sv_store "\<lambda>c sv. sv\<lparr>sv_store := c\<rparr>"
  by unfold_locales simp_all

definition on_store :: "'r call \<Rightarrow> (store server, 'r) task" where
  "on_store = lift_task sv_store (\<lambda>c sv. sv\<lparr>sv_store := c\<rparr>)"

text \<open>What a handler ends with: whether it panicked, and its writer.\<close>

type_synonym handling = "(store server, bool \<times> ResponseWriter) task"

definition store_task ::
  "'a result call \<Rightarrow> (store_error \<Rightarrow> ResponseWriter \<Rightarrow> ResponseWriter) \<Rightarrow> ResponseWriter \<Rightarrow> ('a \<Rightarrow> handling) \<Rightarrow> handling" where
  "store_task t onerr w k =
     seq_task (on_store t) (\<lambda>m.
       (case m of
          Inl (Panicked _) \<Rightarrow> Return (True, w)
        | Inl e \<Rightarrow> Return (False, onerr e w)
        | Inr x \<Rightarrow> k x))"

definition team_task :: "Config \<Rightarrow> request \<Rightarrow> ResponseWriter \<Rightarrow> handling \<Rightarrow> handling" where
  "team_task cfg r w t =
     (if TeamToken cfg = [] then t
      else if bearerToken r \<noteq> TeamToken cfg
      then Return (False, writeError 401 ''UNAUTHORIZED'' ''team token required'' w)
      else t)"

definition limited_task :: "string \<Rightarrow> http_env \<Rightarrow> request \<Rightarrow> ResponseWriter \<Rightarrow> handling \<Rightarrow> handling" where
  "limited_task bucket h r w t =
     seq_task (step_task (allow h r bucket)) (\<lambda>ok. if ok then t else Return (False, rate_limited w))"

section \<open>Handlers\<close>

definition create_task :: "Config \<Rightarrow> http_env \<Rightarrow> request \<Rightarrow> ResponseWriter \<Rightarrow> handling" where
  "create_task cfg h r w =
     limited_task ''create'' h r w
       (case check_create cfg r of
          Inl (status, code, msg) \<Rightarrow> Return (False, writeError status code msg w)
        | Inr inp \<Rightarrow>
            store_task (on_db (create_prog (UnixMilli (wall (he_env h))) (entropy (he_env h)) (clock (he_env h)) inp))
              writeStoreError w (\<lambda>rec. Return (False, writeJSON 201 (created_body cfg r rec) w)))"

definition upload_task :: "string \<Rightarrow> string \<Rightarrow> http_env \<Rightarrow> request \<Rightarrow> ResponseWriter \<Rightarrow> handling" where
  "upload_task sid pid h r w =
     limited_task ''upload'' h r w
       (let sha = Header_Get r ''X-Send-Ciphertext-Sha256'' in
        if \<not> validSHA256Hex sha
        then Return (False, writeError 400 ''BAD_REQUEST'' ''missing or malformed X-Send-Ciphertext-Sha256 header'' w)
        else
          store_task (put_task (he_env h) sid pid (r_body r) \<lparr>PartID = pid, EncryptedSize = 0, SHA256 = sha\<rparr>)
            writeStoreError w (\<lambda>n.
            Return (False, writeJSON 200 (JObj
              [(''encrypted_size'', JNum (Itoa n)), (''ok'', JBool True), (''part_id'', JStr pid)]) w)))"

definition finalize_task :: "Config \<Rightarrow> string \<Rightarrow> http_env \<Rightarrow> request \<Rightarrow> ResponseWriter \<Rightarrow> handling" where
  "finalize_task cfg sid h r w =
     limited_task ''finalize'' h r w
       (store_task (on_db (finalize_prog (clock (he_env h)) sid)) writeStoreError w (\<lambda>_.
        store_task (on_db (meta_prog sid)) writeStoreError w (\<lambda>meta.
          Return (False, writeJSON 200 (JObj
            [(''expires_at'', JStr (RFC3339 (meta_ExpiresAt meta))), (''ok'', JBool True),
             (''public_url'', JStr (publicBase cfg r @ ''/s/'' @ sid))]) w))))"

definition redeem_task :: "string \<Rightarrow> http_env \<Rightarrow> request \<Rightarrow> ResponseWriter \<Rightarrow> handling" where
  "redeem_task sid h r w =
     limited_task ''redeem'' h r w
       (store_task (on_db (redeem_prog (entropy (he_env h)) (clock (he_env h)) sid)) writeStoreError w (\<lambda>grant.
          Return (False, writeJSON 200 (grant_body grant) w)))"

definition meta_task :: "string \<Rightarrow> http_env \<Rightarrow> request \<Rightarrow> ResponseWriter \<Rightarrow> handling" where
  "meta_task sid h r w =
     limited_task ''meta'' h r w
       (store_task (on_db (meta_prog sid)) writeStoreError w (\<lambda>meta. Return (False, writeJSON 200 (meta_body meta) w)))"

definition download_task :: "string \<Rightarrow> string \<Rightarrow> http_env \<Rightarrow> request \<Rightarrow> ResponseWriter \<Rightarrow> handling" where
  "download_task sid pid h r w =
     limited_task ''download'' h r w
       (store_task (get_task (he_env h) sid pid (bearerToken r)) download_error w (\<lambda>f.
          (let w' = WriteHeader 200 (SetHeader ''Content-Type'' ''application/octet-stream'' w)
           in Return (False, case f of File d \<Rightarrow> (if d = [] then w' else Write d w') | Directory \<Rightarrow> w'))))"

definition route_task :: "Config \<Rightarrow> target \<Rightarrow> http_env \<Rightarrow> request \<Rightarrow> ResponseWriter \<Rightarrow> handling" where
  "route_task cfg t h r w =
     (case t of
        Health \<Rightarrow> Return (False, writeJSON 200 (JObj [(''ok'', JBool True)]) w)
      | Create \<Rightarrow> team_task cfg r w (create_task cfg h r w)
      | Upload sid pid \<Rightarrow> team_task cfg r w (upload_task sid pid h r w)
      | Finalize sid \<Rightarrow> team_task cfg r w (finalize_task cfg sid h r w)
      | Redeem sid \<Rightarrow> redeem_task sid h r w
      | Download sid pid \<Rightarrow> download_task sid pid h r w
      | Meta sid \<Rightarrow> meta_task sid h r w
      | LinkPage _ \<Rightarrow> Return (False, html_page linkHTML w)
      | Landing \<Rightarrow> Return (False, html_page (landing_page (publicBase cfg r)) w)
      | _ \<Rightarrow> Return (False, mux_answer t w))"

text \<open>The log line is written under the mutex of the logger.\<close>

definition log_task :: "http_env \<Rightarrow> request \<Rightarrow> status_writer \<Rightarrow> (store server, unit) task" where
  "log_task h r sw =
     step_task (\<lambda>sv. ((),
       (case sv_log sv of
          None \<Rightarrow> sv
        | Some out \<Rightarrow>
            sv\<lparr>sv_log := Some (Log_Request (he_end h) (r_method r) (URL_Path r) (statusOr200 sw) (sw_bytes sw)
                                  (he_end h - he_start h) (sw_errCode sw) out)\<rparr>)))"

definition serve_task :: "Config \<Rightarrow> http_env \<Rightarrow> request \<Rightarrow> (store server, wire) task" where
  "serve_task cfg h r =
     seq_task (route_task cfg (route_request routes r) h r (Status (new_status_writer (new_wire r)))) (\<lambda>(panicked, w).
       if panicked then Return (wire_of (writeError 500 ''STORAGE_ERROR'' ''internal error'' (Plain (wire_of w))))
       else (case w of
               Plain w' \<Rightarrow> Return w'
             | Status sw \<Rightarrow> seq_task (log_task h r sw) (\<lambda>_. Return (sw_wire sw))))"

text \<open>A pass of the sweeper: the orphan sweep only follows a purge without an error.\<close>

definition pass_task :: "int \<Rightarrow> (store server, nat result) task" where
  "pass_task now = on_store (try_task (expire_task now) (\<lambda>_. sweep_task))"

text \<open>An event of the server, with the answer and its route when it is a request.\<close>

fun event_task :: "Config \<Rightarrow> event \<Rightarrow> (store server, (target \<times> wire) option) task" where
  "event_task cfg (Request h r) = seq_task (serve_task cfg h r) (\<lambda>w. Return (Some (route_request routes r, w)))"
| "event_task cfg (Swept now) = seq_task (pass_task now) (\<lambda>_. Return None)"

section \<open>Alone, a task is its request\<close>

lemma run_on_store [simp]: "run_task (on_store t) sv = (case run_task t (sv_store sv) of (r, c) \<Rightarrow> (r, sv\<lparr>sv_store := c\<rparr>))"
  by (simp add: on_store_def coordinator.run_lift)

definition exchange_of :: "(bool \<times> ResponseWriter) \<times> store server \<Rightarrow> store exchange" where
  "exchange_of m = (case m of ((p, w), sv) \<Rightarrow> (p, sv, w))"

lemma exchange_Return [simp]: "exchange_of ((p, w), sv) = (p, sv, w)"
  by (simp add: exchange_of_def)

lemma run_store_task:
  assumes "\<And>c. run_task t c = f c" "\<And>x sv'. sv_cfg sv' = sv_cfg sv \<Longrightarrow> exchange_of (run_task (k x) sv') = k' x sv'"
  shows "exchange_of (run_task (store_task t onerr w k) sv) = store_call f onerr sv w k'"
  using assms
  by (cases "f (sv_store sv)")
     (simp add: store_task_def store_call_def finish_def split: sum.split store_error.split)

lemma run_limited_task:
  assumes "\<And>sv'. sv_cfg sv' = sv_cfg sv \<Longrightarrow> exchange_of (run_task t sv') = f h r sv' w"
  shows "exchange_of (run_task (limited_task bucket h r w t) sv) = limited_handler bucket f h r sv w"
  using assms [of "snd (allow h r bucket sv)"]
  by (simp add: limited_task_def limited_handler_def finish_def case_prod_beta)

lemma run_team_task:
  assumes "exchange_of (run_task t sv) = f h r sv w" "cfg = sv_cfg sv"
  shows "exchange_of (run_task (team_task cfg r w t) sv) = requireTeamToken f h r sv w"
  using assms by (simp add: team_task_def requireTeamToken_def finish_def)

lemma run_handlers:
  "exchange_of (run_task (create_task (sv_cfg sv) h r w) sv) = handleCreate send_api h r sv w"
  "exchange_of (run_task (upload_task sid pid h r w) sv) = handleUpload send_api sid pid h r sv w"
  "exchange_of (run_task (finalize_task (sv_cfg sv) sid h r w) sv) = handleFinalize send_api sid h r sv w"
  "exchange_of (run_task (redeem_task sid h r w) sv) = handleRedeem send_api sid h r sv w"
  "exchange_of (run_task (meta_task sid h r w) sv) = handleMeta send_api sid h r sv w"
  "exchange_of (run_task (download_task sid pid h r w) sv) = handleDownload send_api sid pid h r sv w"
  unfolding create_task_def handleCreate_def upload_task_def handleUpload_def finalize_task_def handleFinalize_def
    redeem_task_def handleRedeem_def meta_task_def handleMeta_def download_task_def handleDownload_def
  by (rule run_limited_task;
      auto simp: Let_def finish_def created_body_def meta_body_def grant_body_def run_put run_get_task run_create run_finalize
        run_redeem run_meta co_CreateSend_def co_FinalizeSend_def co_RedeemSend_def co_GetSendMeta_def
        intro!: run_store_task split: sum.split node.split)+

lemma run_route: "exchange_of (run_task (route_task (sv_cfg sv) t h r w) sv) = dispatch send_api t h r sv w"
  by (cases t)
     (simp_all add: route_task_def dispatch_def run_handlers run_team_task handleHealth_def handleLinkPage_def handleLanding_def finish_def)

lemma run_log [simp]:
  "run_task (log_task h r sw) sv =
     ((), case sv_log sv of
            None \<Rightarrow> sv
          | Some out \<Rightarrow>
              sv\<lparr>sv_log := Some (Log_Request (he_end h) (r_method r) (URL_Path r) (statusOr200 sw) (sw_bytes sw)
                                    (he_end h - he_start h) (sw_errCode sw) out)\<rparr>)"
  by (simp add: log_task_def)

lemma run_serve: "run_task (serve_task (sv_cfg sv) h r) sv = ServeHTTP send_api h r sv"
proof -
  let ?t = "route_request routes r" and ?w = "Status (new_status_writer (new_wire r))"
  obtain p w sv' where m: "run_task (route_task (sv_cfg sv) ?t h r ?w) sv = ((p, w), sv')" by (metis surj_pair)
  then have "dispatch send_api ?t h r sv ?w = (p, sv', w)" using run_route [of sv ?t h r ?w] by simp
  with m show ?thesis
    by (simp add: serve_task_def ServeHTTP_def logging_def recoverer_def split: ResponseWriter.split)
qed

lemma run_pass: "snd (run_task (pass_task now) sv) = serve_event (Swept now) sv"
proof -
  obtain m c where d: "co_DeleteExpired sqlite_state filesystem_blob now (sv_store sv) = (m, c)" by force
  then show ?thesis
    by (cases m; cases "OrphanSweep sqlite_state filesystem_blob c")
       (simp_all add: pass_task_def run_expire run_sweep reaped_Sweep New_worker_def Let_def)
qed

text \<open>
  C91. Run without interruption, the task of a request answers as \<open>ServeHTTP\<close> does and leaves the
  same server, request log and limiters included, and the task of a sweep is the sweep.
\<close>


section \<open>What every step keeps\<close>

text \<open>A relation between stores that every step of every coordinator call respects holds across every step of an event.\<close>

locale calls_keep =
  fixes R :: "store \<Rightarrow> store \<Rightarrow> bool"
    and creating :: "env \<Rightarrow> bool"
  assumes same: "R c c"
    and create: "creating e \<Longrightarrow> keeps R (on_db (create_prog (UnixMilli (wall e)) (entropy e) (clock e) inp))"
    and finalize: "keeps R (on_db (finalize_prog now sid))"
    and redeem: "keeps R (on_db (redeem_prog src now sid))"
    and meta: "keeps R (on_db (meta_prog sid))"
    and put_part: "keeps R (put_task e sid pid rd d)"
    and get_part: "keeps R (get_task e sid pid token)"
    and expire: "keeps R (expire_task now)"
    and sweep: "keeps R sweep_task"
begin

abbreviation kept :: "(store server, 'r) task \<Rightarrow> bool" where
  "kept \<equiv> keeps (\<lambda>sv sv'. R (sv_store sv) (sv_store sv'))"

lemma kept_store: "keeps R t \<Longrightarrow> kept (on_store t)"
  unfolding on_store_def by (rule coordinator.keeps_lift)

lemma kept_store_task: "keeps R t \<Longrightarrow> (\<And>x. kept (k x)) \<Longrightarrow> kept (store_task t onerr w k)"
  unfolding store_task_def by (rule keeps_seq [OF kept_store]) (auto split: sum.split store_error.split)

lemma kept_limited: "kept t \<Longrightarrow> kept (limited_task b h r w t)"
  unfolding limited_task_def by (intro keeps_seq keeps_step) (auto simp: same)

lemma kept_handlers:
  "creating (he_env h) \<Longrightarrow> kept (create_task cfg h r w)" "kept (upload_task i p h r w)" "kept (finalize_task cfg i h r w)"
  "kept (redeem_task i h r w)" "kept (meta_task i h r w)" "kept (download_task i p h r w)"
proof -
  show "kept (create_task cfg h r w)" if "creating (he_env h)"
    unfolding create_task_def
    by (rule kept_limited, cases "check_create cfg r") (auto intro!: kept_store_task create that)
  show "kept (upload_task i p h r w)"
    unfolding upload_task_def Let_def by (rule kept_limited) (simp add: kept_store_task put_part)
  show "kept (finalize_task cfg i h r w)"
    unfolding finalize_task_def
    by (rule kept_limited, rule kept_store_task [OF finalize], rule kept_store_task [OF meta]) simp
  show "kept (redeem_task i h r w)"
    unfolding redeem_task_def by (rule kept_limited, rule kept_store_task [OF redeem]) simp
  show "kept (meta_task i h r w)"
    unfolding meta_task_def by (rule kept_limited, rule kept_store_task [OF meta]) simp
  show "kept (download_task i p h r w)"
    unfolding download_task_def Let_def by (rule kept_limited, rule kept_store_task [OF get_part]) simp
qed

lemma kept_event:
  assumes "case ev of Request h r \<Rightarrow> creating (he_env h) | Swept now \<Rightarrow> True"
  shows "kept (event_task cfg ev)"
proof (cases ev)
  case (Request h r)
  have "kept (log_task h r sw)" for sw
    unfolding log_task_def by (rule keeps_step) (simp add: same split: option.split)
  moreover have "kept (route_task cfg t h r w)" for t w
    using assms Request by (cases t) (simp_all add: route_task_def team_task_def kept_handlers)
  ultimately have "kept (serve_task cfg h r)"
    unfolding serve_task_def by (intro keeps_seq) (auto intro!: keeps_seq split: ResponseWriter.split)
  then show ?thesis unfolding Request event_task.simps by (rule keeps_seq) simp
next
  case (Swept now)
  show ?thesis
    unfolding Swept event_task.simps pass_task_def
    by (intro keeps_seq kept_store keeps_try expire sweep) simp
qed

end

end
