(* ===== verification/Lifecycle.thy ===== *)
theory Lifecycle
  imports Sendd
begin

text \<open>
  The whole life of a process: start-up, a run of requests and sweeps, the shutdown, and a
  second process that starts on what the first one left.
\<close>

section \<open>A run of the process\<close>

text \<open>A request as \<open>server_trans\<close> admits it; a sweep always.\<close>

definition ordinary :: "Config \<Rightarrow> event \<Rightarrow> bool" where
  "ordinary cfg ev \<longleftrightarrow>
     (case ev of
        Request h r \<Rightarrow> temp_suffix (tmp_suffix (he_env h)) \<and> (\<forall>inp. check_create cfg r = Inr inp \<longrightarrow> plain_parts inp)
      | Swept now \<Rightarrow> True)"

lemma server_reach_trans: "server_reach b c \<Longrightarrow> server_reach a b \<Longrightarrow> server_reach a c"
  by (induction rule: server_reach.induct) (auto intro: server_reach.step)

lemma sweep_reach: "server_reach sv (sv\<lparr>sv_store := reaped (Sweep store_reaper now (New_worker (sv_store sv) i rep))\<rparr>)"
proof -
  let ?d = "co_DeleteExpired sqlite_state filesystem_blob now (sv_store sv)"
  have one: "server_reach sv (sv\<lparr>sv_store := snd ?d\<rparr>)"
    by (intro server_reach.step [OF server_reach.init] server_trans.background co_trans.delete)
  have "server_trans (sv\<lparr>sv_store := snd ?d\<rparr>) (sv\<lparr>sv_store := snd ?d\<rparr>\<lparr>sv_store := snd (OrphanSweep sqlite_state filesystem_blob (snd ?d))\<rparr>)"
    by (intro server_trans.background) (simp add: co_trans.sweep)
  with one have "server_reach sv (sv\<lparr>sv_store := snd (OrphanSweep sqlite_state filesystem_blob (snd ?d))\<rparr>)"
    by (auto intro: server_reach.step)
  with one show ?thesis by (simp add: reaped_Sweep Let_def New_worker_def)
qed

lemma event_reach:
  assumes "ordinary (sv_cfg sv) ev"
  shows "server_reach sv (serve_event ev sv)"
proof (cases ev)
  case (Request h r)
  with assms show ?thesis
    by (auto simp: ordinary_def intro!: server_reach.step [OF server_reach.init] server_trans.request)
qed (simp add: sweep_reach)

lemma events_reach:
  assumes "\<forall>ev \<in> set evs. ordinary (sv_cfg sv) ev"
  shows "server_reach sv (fold serve_event evs sv)"
  using assms
proof (induction evs arbitrary: sv)
  case (Cons ev evs)
  then have "server_reach (serve_event ev sv) (fold serve_event evs (serve_event ev sv))" by simp
  then have "server_reach sv (fold serve_event evs (serve_event ev sv))"
    by (rule server_reach_trans) (use Cons.prems in \<open>simp add: event_reach\<close>)
  then show ?case by simp
qed (simp add: server_reach.init)

lemma close_state_keeps [simp]:
  "db (state (sv_store (close_state sv))) = db (state (sv_store sv))" "blob (sv_store (close_state sv)) = blob (sv_store sv)"
  by (simp_all add: close_state_def Close_db)

lemma Run_served:
  assumes "Run E su bound evs st = x" "start E su = Inr (sv, w, held)" "bound = Inr addr"
  shows "x = \<lparr>pe_error = stop_error st, pe_stdout = ''http://'' @ addr @ [newline], pe_closed = rev held,
    pe_server = Some (close_state (fold serve_event evs sv))\<rparr>"
  using assms by (simp add: Run_def)

section \<open>The next process\<close>

text \<open>
  A process that was started on an empty database serves a list of requests and sweeps and
  is stopped: it closes what it opened, the state store before the log, and exits with 0
  exactly when it was cancelled and shut down in time or its listener was closed; the
  process that is started on the tables and files it leaves has every send as it was after
  the last request, and every uploaded part with its declared bytes.
\<close>

theorem stopped_server_resumes:
  assumes first: "start E su = Inr (sv, w, held)" "su_tables su = empty_tables" "ns_ok ds (su_files su)"
    and dir: "E ''SEND_BLOB_DIR'' = Some (rooted_path ds)" "E' ''SEND_BLOB_DIR'' = Some (rooted_path ds)" "ds \<noteq> []" "\<forall>v \<in> set ds. plain v"
    and run: "Run E su (Inr addr) evs st = x" "\<forall>ev \<in> set evs. ordinary (sv_cfg sv) ev"
    and left: "pe_server x = Some sv1" "su_tables su' = db (state (sv_store sv1))" "su_files su' = nodes (blob (sv_store sv1))"
    and again: "start E' su' = Inr (sv2, w', held')"
  shows "(main_status x = 0 \<longleftrightarrow> st \<in> {Cancelled_ctx None, Serve_returned None})
     \<and> pe_closed x = (if RequestLog (sv_cfg sv) = [] then [StateStore] else [StateStore, LogFile])
     \<and> db (state (sv_store sv2)) = db (state (sv_store (fold serve_event evs sv)))
     \<and> view (blob (sv_store sv2)) = view (blob (sv_store (fold serve_event evs sv)))
     \<and> (\<forall>i p m q. declared_parts (state (sv_store sv2)) (i, p) = Some (m, True) \<longrightarrow> loc (StorageKey i p) = Some q \<longrightarrow>
          (\<exists>d. view (blob (sv_store sv2)) q = Some d \<and> genuine m d))"
proof -
  note x = Run_served [OF run(1) first(1) refl]
  have s1: "sv1 = close_state (fold serve_event evs sv)" using x left(1) by simp
  have held: "held = (if RequestLog (sv_cfg sv) = [] then [StateStore] else [LogFile, StateStore])"
    using first(1) by (auto simp: start_def Let_def New_server_def split: sum.splits prod.splits if_splits)
  have status: "main_status x = 0 \<longleftrightarrow> st \<in> {Cancelled_ctx None, Serve_returned None}"
    by (simp add: x main_status_def) (cases st rule: stop_error.cases; simp)
  have left': "su_tables su' = db (state (sv_store (fold serve_event evs sv)))" "su_files su' = nodes (blob (sv_store (fold serve_event evs sv)))"
    using left(2,3) by (simp_all add: s1)
  note restart_store [OF first dir events_reach [OF run(2)] again left']
  moreover have "pe_closed x = (if RequestLog (sv_cfg sv) = [] then [StateStore] else [StateStore, LogFile])"
    by (simp add: x held)
  ultimately show ?thesis using status by blast
qed

text \<open>A health check changes nothing that is stored.\<close>

lemma health_event:
  "sv_store (serve_event (Request h health_request) sv) = sv_store sv" "ordinary cfg (Request (demo_http (demo_env Second [])) health_request)"
proof -
  obtain w sv' where s: "ServeHTTP send_api h health_request sv = (w, sv')" by fastforce
  have "snd (respond send_api (admitted h Health health_request sv) (he_env h) (sv_cfg sv) health_request Health (sv_store sv)) = sv_store sv"
    by (simp add: respond_def)
  with serve_respond [OF s demo_routes(1) surjective_pairing] s
  show "sv_store (serve_event (Request h health_request) sv) = sv_store sv" by simp
  have "decode_body (limited maxCreateBody (r_body health_request)) = None" by code_simp
  then have "\<not> isl (check_create cfg health_request) \<longrightarrow> False" by (simp add: check_create_def)
  then show "ordinary cfg (Request (demo_http (demo_env Second [])) health_request)"
    by (auto simp: ordinary_def demo_env_def temp_suffix_def demo_http_def)
qed

theorem stopped_server_resumes_witness:
  "\<exists>sv w held sv1 sv2 w' held'. start demo_environ demo_surroundings = Inr (sv, w, held)
     \<and> pe_server (Run demo_environ demo_surroundings (Inr ''127.0.0.1:8080'')
          [Request (demo_http (demo_env Second [])) health_request] (Cancelled_ctx None)) = Some sv1
     \<and> start demo_environ (demo_surroundings\<lparr>su_files := nodes (blob (sv_store sv1))\<rparr>) = Inr (sv2, w', held')
     \<and> view (blob (sv_store sv2)) = view (blob (sv_store sv))"
proof -
  let ?evs = "[Request (demo_http (demo_env Second [])) health_request]"
  have d: "demo_surroundings\<lparr>su_files := []\<rparr> = demo_surroundings" by (simp add: demo_surroundings_def)
  obtain sv w held where a: "start demo_environ demo_surroundings = Inr (sv, w, held)"
    "nodes (blob (sv_store sv)) = [([''b''], Directory)]" "db (state (sv_store sv)) = empty_tables"
    using demo_started [of "[]"] unfolding d by auto
  let ?x = "Run demo_environ demo_surroundings (Inr ''127.0.0.1:8080'') ?evs (Cancelled_ctx None)"
  have x: "pe_server ?x = Some (close_state (fold serve_event ?evs sv))" by (simp add: Run_served [OF refl a(1) refl])
  have keep: "sv_store (fold serve_event ?evs sv) = sv_store sv" using health_event(1) by simp
  let ?su = "demo_surroundings\<lparr>su_files := nodes (blob (sv_store (close_state (fold serve_event ?evs sv))))\<rparr>"
  obtain sv2 w' held' where b: "start demo_environ ?su = Inr (sv2, w', held')"
    using demo_started [of "nodes (blob (sv_store sv))"] a(2) keep by auto
  have h: "su_tables demo_surroundings = empty_tables" "demo_environ ''SEND_BLOB_DIR'' = Some (rooted_path [''b''])"
    "[''b''] \<noteq> []" "\<forall>v \<in> set [''b'']. plain v" "ns_ok [''b''] (su_files demo_surroundings)"
    by (simp_all add: demo_surroundings_def demo_environ_def rooted_path_def plain_def ns_ok_def lookup_def)
  have e: "\<forall>ev \<in> set ?evs. ordinary (sv_cfg sv) ev" using health_event(2) by simp
  have t: "su_tables ?su = db (state (sv_store (close_state (fold serve_event ?evs sv))))"
    using a(3) keep by (simp add: h(1))
  have f: "su_files ?su = nodes (blob (sv_store (close_state (fold serve_event ?evs sv))))" by simp
  have "view (blob (sv_store sv2)) = view (blob (sv_store sv))"
    using stopped_server_resumes [OF a(1) h(1,5,2,2,3,4) refl e x t f b] keep by simp
  with a(1) x b show ?thesis by blast
qed

end
