(* ===== verification/Interleave.thy ===== *)
theory Interleave
  imports Calls
begin

text \<open>
  The invariant of the two stores when coordinator calls interleave. A history \<open>g\<close> remembers
  for every id ever drawn what was declared under it. The rely says what the calls may count
  on from each other: declarations never change and only disappear, an uploaded part stays
  uploaded, and, when no orphan sweep runs, the blob of a declared part stays in place.
\<close>

section \<open>What was ever declared\<close>

type_synonym history = "string \<Rightarrow> (string \<Rightarrow> PartMeta option) option"

definition send_ids :: "tables \<Rightarrow> string set" where
  "send_ids d = s_id ` set (sends d)"

definition remember :: "history \<Rightarrow> store \<Rightarrow> history" where
  "remember g c =
     (\<lambda>i. case g i of
        Some f \<Rightarrow> Some f
      | None \<Rightarrow> if i \<in> send_ids (db (state c)) then Some (\<lambda>p. map_option fst (declared_parts (state c) (i, p))) else None)"

text \<open>A step that adds a send gives it an id that was never used.\<close>

definition fresh_ids :: "history \<Rightarrow> store \<Rightarrow> store \<Rightarrow> bool" where
  "fresh_ids g c c' \<longleftrightarrow> (\<forall>i. i \<in> send_ids (db (state c')) \<longrightarrow> i \<in> send_ids (db (state c)) \<or> g i = None)"

definition promised :: "history \<Rightarrow> string \<Rightarrow> string \<Rightarrow> PartMeta option" where
  "promised g i p = (case g i of None \<Rightarrow> None | Some f \<Rightarrow> f p)"

section \<open>Invariant and rely\<close>

text \<open>The grants of a one-time send are the matter of \<open>Concurrency\<close>.\<close>

definition db_good :: "tables \<Rightarrow> bool" where
  "db_good d \<longleftrightarrow> tables_inv (d\<lparr>redeem_grants := []\<rparr>) \<and> ids_ok d"

definition blobs_promised :: "history \<Rightarrow> (path \<Rightarrow> string option) \<Rightarrow> bool" where
  "blobs_promised g v \<longleftrightarrow>
     (\<forall>i p m q. promised g i p = Some m \<longrightarrow> loc (StorageKey i p) = Some q \<longrightarrow>
        sid_ok i \<and> fs_key_of q = StorageKey i p \<and> (\<forall>b. v q = Some b \<longrightarrow> genuine m b))
     \<and> (\<forall>q. v q \<noteq> None \<longrightarrow> (\<exists>i p. promised g i p \<noteq> None \<and> loc (StorageKey i p) = Some q))"

definition blobs_there :: "part_table \<Rightarrow> (path \<Rightarrow> string option) \<Rightarrow> bool" where
  "blobs_there t v \<longleftrightarrow>
     (\<forall>i p m q. t (i, p) = Some (m, True) \<longrightarrow> loc (StorageKey i p) = Some q \<longrightarrow> v q \<noteq> None)"

definition kept_promises :: "history \<Rightarrow> tables \<Rightarrow> bool" where
  "kept_promises g d \<longleftrightarrow> send_ids d \<subseteq> dom g
     \<and> (\<forall>i p m up. declared_in d (i, p) = Some (m, up) \<longrightarrow> promised g i p = Some m)"

fun good :: "bool \<Rightarrow> history \<times> store \<Rightarrow> bool" where
  "good sweeping (g, c) \<longleftrightarrow>
     db_good (db (state c)) \<and> blob_ok (blob c) \<and> kept_promises g (db (state c))
     \<and> blobs_promised g (view (blob c))
     \<and> (sweeping \<or> blobs_there (declared_parts (state c)) (view (blob c)))"

definition db_rely :: "history \<Rightarrow> tables \<Rightarrow> tables \<Rightarrow> bool" where
  "db_rely g d d' \<longleftrightarrow>
     (\<forall>i p m up'. g i \<noteq> None \<longrightarrow> declared_in d' (i, p) = Some (m, up') \<longrightarrow>
        (\<exists>up. declared_in d (i, p) = Some (m, up) \<and> (up \<longrightarrow> up')))"

definition blobs_stay :: "history \<Rightarrow> store \<Rightarrow> store \<Rightarrow> bool" where
  "blobs_stay g c c' \<longleftrightarrow>
     (\<forall>i p q. promised g i p \<noteq> None \<longrightarrow> declared_parts (state c') (i, p) \<noteq> None \<longrightarrow>
        loc (StorageKey i p) = Some q \<longrightarrow> view (blob c) q \<noteq> None \<longrightarrow> view (blob c') q \<noteq> None)"

definition grows :: "history \<Rightarrow> history \<Rightarrow> bool" where
  "grows g g' \<longleftrightarrow> (\<forall>i f. g i = Some f \<longrightarrow> g' i = Some f)"

fun rely :: "bool \<Rightarrow> history \<times> store \<Rightarrow> history \<times> store \<Rightarrow> bool" where
  "rely sweeping (g, c) (g', c') \<longleftrightarrow>
     grows g g' \<and> db_rely g (db (state c)) (db (state c')) \<and> (sweeping \<or> blobs_stay g c c')"

lemma grows_promised: "grows g g' \<Longrightarrow> promised g i p = Some m \<Longrightarrow> promised g' i p = Some m"
  unfolding promised_def grows_def by (cases "g i"; cases "g' i") force+

lemma grows_born: "grows g g' \<Longrightarrow> g i \<noteq> None \<Longrightarrow> g' i \<noteq> None"
  unfolding grows_def by (cases "g i") fastforce+

lemma promised_born: "promised g i p \<noteq> None \<Longrightarrow> g i \<noteq> None"
  by (auto simp: promised_def split: option.splits)

lemma grows_simps [simp]: "grows g g" "grows g (remember g c)"
  by (simp_all add: grows_def remember_def)

lemma grows_trans: "grows g g' \<Longrightarrow> grows g' g'' \<Longrightarrow> grows g g''"
  by (simp add: grows_def)

lemma db_rely_same [simp]: "send_parts d' = send_parts d \<Longrightarrow> db_rely g d d'"
  using declared_same_parts [of d' d] by (auto simp: db_rely_def)

lemma db_relyD:
  "db_rely g d d' \<Longrightarrow> g i \<noteq> None \<Longrightarrow> declared_in d' (i, p) = Some (m, up') \<Longrightarrow>
     \<exists>up. declared_in d (i, p) = Some (m, up) \<and> (up \<longrightarrow> up')"
  unfolding db_rely_def by blast

lemma db_rely_trans:
  assumes "db_rely g a b" "db_rely g' b c" "grows g g'"
  shows "db_rely g a c"
  unfolding db_rely_def
proof (intro allI impI)
  fix i p m up' assume a: "g i \<noteq> None" "declared_in c (i, p) = Some (m, up')"
  from db_relyD [OF assms(2) grows_born [OF assms(3) a(1)] a(2)]
  obtain up where up: "declared_in b (i, p) = Some (m, up)" "up \<longrightarrow> up'" by blast
  from db_relyD [OF assms(1) a(1) up(1)] up(2) show "\<exists>up. declared_in a (i, p) = Some (m, up) \<and> (up \<longrightarrow> up')" by blast
qed

lemma db_rely_gone:
  "db_rely g a b \<Longrightarrow> g i \<noteq> None \<Longrightarrow> declared_in b (i, p) \<noteq> None \<Longrightarrow> declared_in a (i, p) \<noteq> None"
  by (cases "declared_in b (i, p)") (auto dest!: db_relyD)

lemma blobs_stay_trans:
  assumes "blobs_stay g a b" "blobs_stay g' b c" "grows g g'" "db_rely g' (db (state b)) (db (state c))"
  shows "blobs_stay g a c"
  unfolding blobs_stay_def
proof (intro allI impI)
  fix i p q assume a: "promised g i p \<noteq> None" "declared_parts (state c) (i, p) \<noteq> None" "loc (StorageKey i p) = Some q"
    "view (blob a) q \<noteq> None"
  have p: "promised g' i p \<noteq> None" using grows_promised [OF assms(3)] a(1) by blast
  have b: "declared_parts (state b) (i, p) \<noteq> None" using db_rely_gone [OF assms(4) promised_born [OF p] a(2)] .
  have "view (blob b) q \<noteq> None" using assms(1) a(1) b a(3,4) unfolding blobs_stay_def by blast
  then show "view (blob c) q \<noteq> None" using assms(2) p a(2,3) unfolding blobs_stay_def by blast
qed

interpretation calls: interference "good sweeping" "rely sweeping" remember fresh_ids for sweeping
proof
  fix w :: "history \<times> store"
  show "rely sweeping w w" by (cases w) (simp add: blobs_stay_def)
next
  fix w1 w2 w3 :: "history \<times> store"
  assume "rely sweeping w1 w2" "rely sweeping w2 w3"
  then show "rely sweeping w1 w3"
    by (cases w1; cases w2; cases w3) (auto intro: grows_trans db_rely_trans blobs_stay_trans)
qed

section \<open>Steps of the database\<close>

definition db_moves :: "bool \<Rightarrow> store \<Rightarrow> tables \<Rightarrow> bool" where
  "db_moves sweeping c d' \<longleftrightarrow> db_good d'
     \<and> (\<forall>i p m up'. i \<in> send_ids (db (state c)) \<longrightarrow> declared_in d' (i, p) = Some (m, up') \<longrightarrow>
          (\<exists>up. declared_parts (state c) (i, p) = Some (m, up) \<and> (up \<longrightarrow> up')
             \<and> (up' \<longrightarrow> up \<or> sweeping \<or> (\<forall>q. loc (StorageKey i p) = Some q \<longrightarrow> view (blob c) q \<noteq> None))))
     \<and> (\<forall>i p m up. i \<notin> send_ids (db (state c)) \<longrightarrow> declared_in d' (i, p) = Some (m, up) \<longrightarrow> plain p \<and> \<not> up)"

lemma declared_id:
  assumes "db_good d" "declared_in d (i, p) \<noteq> None"
  shows "i \<in> send_ids d"
proof -
  have "p_send_id ` set (send_parts d) \<subseteq> s_id ` set (sends d)"
    using assms(1) by (simp add: db_good_def tables_inv_def refs_ok_def)
  moreover obtain r where "r \<in> set (send_parts d)" "p_send_id r = i"
    using assms(2) by (auto simp: declared_in_def find_part_def dest: find_SomeD)
  ultimately show ?thesis by (auto simp: send_ids_def)
qed

lemma db_good_id: "db_good d \<Longrightarrow> i \<in> send_ids d \<Longrightarrow> sid_ok i"
  by (auto simp: db_good_def ids_ok_def send_ids_def)

lemma same_key: "sid_ok i \<Longrightarrow> sid_ok j \<Longrightarrow> StorageKey i p = StorageKey j r \<Longrightarrow> i = j \<and> p = r"
  using StorageKey_inj [of i j p r] by (simp add: sid_ok_def plain_def)

lemma blobs_promisedD:
  "blobs_promised g v \<Longrightarrow> promised g i p = Some m \<Longrightarrow> loc (StorageKey i p) = Some q \<Longrightarrow>
     sid_ok i \<and> fs_key_of q = StorageKey i p \<and> (\<forall>b. v q = Some b \<longrightarrow> genuine m b)"
  unfolding blobs_promised_def by blast

lemma blobs_promised_at:
  assumes v: "blobs_promised g v" and b: "v q = Some b" and k: "sid_ok i" "fs_key_of q = StorageKey i p"
  shows "promised g i p \<noteq> None"
proof -
  obtain j r m where j: "promised g j r = Some m" "loc (StorageKey j r) = Some q"
    using v b unfolding blobs_promised_def by (metis option.distinct(1) not_Some_eq)
  from blobs_promisedD [OF v j] k have "i = j \<and> p = r" by (intro same_key) auto
  with j show ?thesis by simp
qed

lemma remember_cases:
  "promised (remember g c) i p = Some m \<Longrightarrow>
     promised g i p = Some m \<or> g i = None \<and> (\<exists>up. declared_parts (state c) (i, p) = Some (m, up))"
  by (auto simp: promised_def remember_def split: option.splits if_splits)

lemma remember_new:
  "g i = None \<Longrightarrow> i \<in> send_ids (db (state c)) \<Longrightarrow> declared_parts (state c) (i, p) = Some (m, up) \<Longrightarrow>
     promised (remember g c) i p = Some m"
  by (simp add: promised_def remember_def)

lemma db_step:
  fixes s' :: sqlite and c :: store
  defines "c' \<equiv> c\<lparr>state := s'\<rparr>"
  assumes good: "good sweeping (g, c)" and fresh: "fresh_ids g c c'" and moves: "db_moves sweeping c (db s')"
  shows "good sweeping (remember g c', c') \<and> rely sweeping (g, c) (remember g c', c')"
proof -
  let ?d = "db (state c)" and ?d' = "db s'" and ?g = "remember g c'" and ?v = "view (blob c)"
  have g: "db_good ?d" "send_ids ?d \<subseteq> dom g" "blobs_promised g ?v" "blob_ok (blob c)"
    "\<And>i p m up. declared_in ?d (i, p) = Some (m, up) \<Longrightarrow> promised g i p = Some m"
    "sweeping \<or> blobs_there (declared_in ?d) ?v"
    using good by (auto simp: kept_promises_def)
  have d': "db_good ?d'" using moves by (simp add: db_moves_def)
  have old: "i \<in> send_ids ?d" if "g i \<noteq> None" "declared_in ?d' (i, p) = Some x" for i p x
    using fresh declared_id [OF d', of i p] that by (auto simp: fresh_ids_def c'_def)
  have new: "plain p \<and> \<not> up" if "i \<notin> send_ids ?d" "declared_in ?d' (i, p) = Some (m, up)" for i p m up
    using moves that unfolding db_moves_def by blast
  have move: "\<exists>up. declared_in ?d (i, p) = Some (m, up) \<and> (up \<longrightarrow> up')
      \<and> (up' \<longrightarrow> up \<or> sweeping \<or> (\<forall>q. loc (StorageKey i p) = Some q \<longrightarrow> ?v q \<noteq> None))"
    if "i \<in> send_ids ?d" "declared_in ?d' (i, p) = Some (m, up')" for i p m up'
    using moves that unfolding db_moves_def by blast
  have rel: "db_rely g ?d ?d'" unfolding db_rely_def using old move by blast
  have keep: "kept_promises ?g ?d'"
    unfolding kept_promises_def
  proof (intro conjI allI impI)
    show "send_ids ?d' \<subseteq> dom ?g" by (auto simp: remember_def c'_def split: option.splits)
    fix i p m up assume d: "declared_in ?d' (i, p) = Some (m, up)"
    show "promised ?g i p = Some m"
    proof (cases "g i")
      case None
      with d declared_id [OF d', of i p] show ?thesis by (intro remember_new) (auto simp: c'_def)
    next
      case (Some f)
      with db_relyD [OF rel _ d] g(5) grows_promised [OF grows_simps(2), of g i p m c'] show ?thesis by blast
    qed
  qed
  have "sid_ok i \<and> fs_key_of q = StorageKey i p \<and> (\<forall>b. ?v q = Some b \<longrightarrow> genuine m b)"
    if pr: "promised ?g i p = Some m" and q: "loc (StorageKey i p) = Some q" for i p m q
  proof (cases "promised g i p = Some m")
    case True
    from blobs_promisedD [OF g(3) this q] show ?thesis .
  next
    case False
    with remember_cases [OF pr] obtain up where n: "g i = None" "declared_in ?d' (i, p) = Some (m, up)"
      by (auto simp: c'_def)
    then have i: "i \<notin> send_ids ?d" "sid_ok i"
      using g(2) db_good_id [OF d'] declared_id [OF d', of i p] by (auto simp: dom_def)
    with new n(2) q have "fs_key_of q = StorageKey i p" by (blast intro: st.partok_canonical)
    moreover have "?v q = None"
    proof (rule ccontr)
      assume "?v q \<noteq> None"
      then obtain b where "?v q = Some b" by blast
      from blobs_promised_at [OF g(3) this i(2)] calculation promised_born [of g i p] n(1) show False by simp
    qed
    ultimately show ?thesis using i(2) by simp
  qed
  moreover have "\<exists>i p. promised ?g i p \<noteq> None \<and> loc (StorageKey i p) = Some q" if "?v q \<noteq> None" for q
    using g(3) that grows_promised [OF grows_simps(2), of g _ _ _ c'] unfolding blobs_promised_def
    by (metis option.distinct(1) not_Some_eq)
  ultimately have bp: "blobs_promised ?g ?v" unfolding blobs_promised_def by blast
  have "blobs_there (declared_in ?d') ?v" if "\<not> sweeping"
    unfolding blobs_there_def
  proof (intro allI impI)
    fix i p m q assume d: "declared_in ?d' (i, p) = Some (m, True)" and q: "loc (StorageKey i p) = Some q"
    have "i \<in> send_ids ?d" using new [OF _ d] by blast
    from move [OF this d] q that g(6) show "?v q \<noteq> None" unfolding blobs_there_def by metis
  qed
  with d' keep bp g(4) rel show ?thesis by (auto simp: c'_def blobs_stay_def)
qed

section \<open>Steps of the blob store\<close>

lemma remember_same: "kept_promises g (db (state c)) \<Longrightarrow> remember g c = g"
  by (rule ext) (auto simp: remember_def kept_promises_def dom_def split: option.split)

lemma blob_step:
  fixes b' :: fsblob and c :: store
  defines "c' \<equiv> c\<lparr>blob := b'\<rparr>"
  assumes good: "good sweeping (g, c)" and b: "blob_ok b'" and v: "blobs_promised g (view b')"
    and stay: "sweeping \<or> (\<forall>i p q. declared_parts (state c) (i, p) \<noteq> None \<longrightarrow> loc (StorageKey i p) = Some q \<longrightarrow>
       view (blob c) q \<noteq> None \<longrightarrow> view b' q \<noteq> None)"
  shows "good sweeping (remember g c', c') \<and> rely sweeping (g, c) (remember g c', c')"
proof -
  have "remember g c' = g" using good remember_same [of g c'] by (simp add: c'_def)
  moreover have "blobs_there (declared_parts (state c)) (view b')" if "\<not> sweeping"
    using good stay that unfolding blobs_there_def good.simps by (metis option.distinct(1))
  moreover have "sweeping \<or> blobs_stay g c c'"
    using stay unfolding blobs_stay_def c'_def by (metis coordinator.select_convs(1,2) coordinator.surjective coordinator.update_convs(2))
  ultimately show ?thesis using good b v by (auto simp: c'_def)
qed

lemma same_view_step:
  assumes "good sweeping (g, c)" "blob_ok b'" "view b' = view (blob c)"
  shows "good sweeping (remember g (c\<lparr>blob := b'\<rparr>), c\<lparr>blob := b'\<rparr>) \<and> rely sweeping (g, c) (remember g (c\<lparr>blob := b'\<rparr>), c\<lparr>blob := b'\<rparr>)"
  using assms by (intro blob_step) auto

lemma promised_key: "good sweeping (g, c) \<Longrightarrow> promised g i p = Some m \<Longrightarrow> loc (StorageKey i p) = Some q \<Longrightarrow> sid_ok i"
  using blobs_promisedD [of g "view (blob c)" i p m q] by simp

lemma put_step:
  assumes good: "good sweeping (g, c)" and pr: "promised g sid pid = Some want" and sid: "sid_ok sid"
    and sfx: "temp_suffix (tmp_suffix e)"
    and put: "bl_Put filesystem_blob e (StorageKey sid pid) r want n (blob c) = (x, b')"
  shows "good sweeping (remember g (c\<lparr>blob := b'\<rparr>), c\<lparr>blob := b'\<rparr>) \<and> rely sweeping (g, c) (remember g (c\<lparr>blob := b'\<rparr>), c\<lparr>blob := b'\<rparr>)
     \<and> (\<not> isl x \<longrightarrow> (\<forall>q. loc (StorageKey sid pid) = Some q \<longrightarrow> view b' q \<noteq> None))"
proof -
  have b: "blob_ok (blob c)" and v: "blobs_promised g (view (blob c))" using good by simp_all
  have ko: "fs_keyok (StorageKey sid pid)" using st.id_keyok [OF sid] .
  have b': "blob_ok b'" using fs.put_inv [OF b ko sfx, of r want n] put by simp
  show ?thesis
  proof (cases x)
    case (Inl e)
    with fs.put_err [OF b ko sfx] put have "view b' = view (blob c)" by blast
    with same_view_step [OF good b'] Inl show ?thesis by simp
  next
    case (Inr k)
    with fs.put_ok [OF b ko sfx] put obtain t where t: "genuine want t"
      and v': "view b' = (case loc (StorageKey sid pid) of None \<Rightarrow> view (blob c) | Some q \<Rightarrow> (view (blob c))(q \<mapsto> t))"
      by blast
    have "blobs_promised g (view b')"
    proof (cases "loc (StorageKey sid pid)")
      case (Some q)
      have key: "fs_key_of q = StorageKey sid pid" using blobs_promisedD [OF v pr Some] by blast
      have "genuine m d" if "promised g i p = Some m" "loc (StorageKey i p) = Some q" "d = t" for i p m d
      proof -
        have "i = sid \<and> p = pid" using blobs_promisedD [OF v that(1,2)] key sid by (intro same_key) auto
        with that pr t show ?thesis by simp
      qed
      then show ?thesis using v pr Some unfolding blobs_promised_def v' by (auto split: if_splits)
    qed (use v v' in simp)
    then show ?thesis
      using blob_step [OF good b', of] v' by (auto split: option.splits)
  qed
qed

definition dead_key :: "history \<Rightarrow> store \<Rightarrow> string \<Rightarrow> bool" where
  "dead_key g c k \<longleftrightarrow> (\<exists>i p. k = StorageKey i p \<and> promised g i p \<noteq> None \<and> declared_parts (state c) (i, p) = None)"

lemma delete_step:
  assumes good: "good sweeping (g, c)" and k: "sweeping \<or> dead_key g c k"
    and del: "bl_Delete filesystem_blob k (blob c) = (x, b')"
  shows "good sweeping (remember g (c\<lparr>blob := b'\<rparr>), c\<lparr>blob := b'\<rparr>) \<and> rely sweeping (g, c) (remember g (c\<lparr>blob := b'\<rparr>), c\<lparr>blob := b'\<rparr>)"
proof -
  have b: "blob_ok (blob c)" and v: "blobs_promised g (view (blob c))" using good by simp_all
  have b': "blob_ok b'" using fs.del_inv [OF b, of k] del by simp
  from fs.del_view [OF b, of k] del consider "view b' = view (blob c)"
    | q where "loc k = Some q" "view b' = (view (blob c))(q := None)" by auto
  then show ?thesis
  proof cases
    case 1
    with same_view_step [OF good b'] show ?thesis .
  next
    case (2 q)
    show ?thesis
    proof (rule blob_step [OF good b'])
      show "blobs_promised g (view b')" using v unfolding blobs_promised_def 2(2) by (auto split: if_splits)
      have "view b' q' \<noteq> None" if ns: "\<not> sweeping" "declared_parts (state c) (i, p) \<noteq> None" "loc (StorageKey i p) = Some q'"
        "view (blob c) q' \<noteq> None" for i p q'
      proof (cases "q' = q")
        case True
        obtain j r n where j: "k = StorageKey j r" "promised g j r = Some n" "declared_parts (state c) (j, r) = None"
          using k ns(1) by (auto simp: dead_key_def)
        obtain m up where d: "declared_parts (state c) (i, p) = Some (m, up)" using ns(2) by auto
        then have "promised g i p = Some m" using good by (auto simp: kept_promises_def)
        from blobs_promisedD [OF v this ns(3)] blobs_promisedD [OF v j(2), of q] j(1) 2(1) True
        have "i = j \<and> p = r" by (intro same_key) auto
        with d j(3) show ?thesis by simp
      qed (use 2 ns in simp)
      then show "sweeping \<or> (\<forall>i p q. declared_parts (state c) (i, p) \<noteq> None \<longrightarrow> loc (StorageKey i p) = Some q \<longrightarrow>
          view (blob c) q \<noteq> None \<longrightarrow> view b' q \<noteq> None)" by blast
    qed
  qed
qed

end
