(* ===== verification/CallsSafe.thy ===== *)
theory CallsSafe
  imports Interleave
begin

text \<open>
  Every task of a coordinator call is safe for the invariant and the rely of \<open>Interleave\<close>:
  rules for the tasks that statements and blob calls make up, what each statement does to the
  tables, and the calls one by one.
\<close>

section \<open>Rules for safe tasks\<close>

abbreviation upon :: "('a \<Rightarrow> 'w \<Rightarrow> bool) \<Rightarrow> 'e + 'a \<Rightarrow> 'w \<Rightarrow> bool" where
  "upon P r w \<equiv> (case r of Inl _ \<Rightarrow> True | Inr x \<Rightarrow> P x w)"

lemma safe_return: "P x w \<Longrightarrow> (\<And>w'. rely sw w w' \<Longrightarrow> P x w') \<Longrightarrow> calls.safely sw (upon P) (Return (Inr x)) w"
  by simp

lemma safe_error [simp]: "calls.safely sw (upon P) (Return (Inl e)) w"
  by simp

lemma safe_then:
  assumes "calls.safely sw (upon (\<lambda>x. calls.safely sw (upon P) (k x))) t w"
  shows "calls.safely sw (upon P) (try_task t k) w"
  by (rule calls.safe_try) (rule calls.safe_mono [OF assms], auto split: sum.splits)

lemma moves_still:
  assumes "good sw (g, c)" "db_good d'" "send_parts d' = send_parts (db (state c))"
    "send_ids (db (state c)) = send_ids d'"
  shows "db_moves sw c d'"
  using declared_same_parts [OF assms(3)] declared_id [OF assms(2)] assms by (auto simp: db_moves_def)

lemma moves_same: "good sw (g, c) \<Longrightarrow> d' = db (state c) \<Longrightarrow> db_moves sw c d'"
  by (rule moves_still) auto

lemma on_db_after:
  "on_db (after f k) = Call (\<lambda>c. case f (state c) of
      (Inl e, s') \<Rightarrow> (Return (Inl e), c\<lparr>state := s'\<rparr>) | (Inr x, s') \<Rightarrow> (on_db (k x), c\<lparr>state := s'\<rparr>))"
  by (auto simp: after_def fun_eq_iff split: prod.split sum.split)

lemma safe_after:
  assumes err: "\<And>s e s'. f s = (Inl e, s') \<Longrightarrow> db s' = db s"
    and moves: "\<And>g c x s'. rely sw w (g, c) \<Longrightarrow> good sw (g, c) \<Longrightarrow> f (state c) = (Inr x, s') \<Longrightarrow> db_moves sw c (db s')"
    and rest: "\<And>g c x s' g' c'. rely sw w (g, c) \<Longrightarrow> good sw (g, c) \<Longrightarrow> f (state c) = (Inr x, s') \<Longrightarrow>
       c' = c\<lparr>state := s'\<rparr> \<Longrightarrow> g' = remember g c' \<Longrightarrow> good sw (g', c') \<Longrightarrow> rely sw (g, c) (g', c') \<Longrightarrow>
       calls.safely sw (upon P) (on_db (k x)) (g', c')"
  shows "calls.safely sw (upon P) (on_db (after f k)) w"
  unfolding on_db_after
proof (rule calls.safe_CallI)
  fix g c t c'
  assume a: "rely sw w (g, c)" "good sw (g, c)" "fresh_ids g c c'"
    and t: "(case f (state c) of (Inl e, s') \<Rightarrow> (Return (Inl e), c\<lparr>state := s'\<rparr>)
        | (Inr x, s') \<Rightarrow> (on_db (k x), c\<lparr>state := s'\<rparr>)) = (t, c')"
  obtain r s' where f: "f (state c) = (r, s')" by force
  have c': "c' = c\<lparr>state := s'\<rparr>" using t f by (auto split: sum.splits)
  have m: "db_moves sw c (db s')"
    by (cases r) (use f err moves [OF a(1,2)] moves_same [OF a(2)] in auto)
  from db_step [OF a(2) _ m] a(3) c' have s: "good sw (remember g c', c')" "rely sw (g, c) (remember g c', c')" by auto
  then show "good sw (remember g c', c') \<and> rely sw (g, c) (remember g c', c') \<and> calls.safely sw (upon P) t (remember g c', c')"
    by (cases r) (use t f rest [OF a(1,2) _ c' refl] in auto)
qed

lemma safe_after_read:
  assumes read: "\<And>s. db (snd (f s)) = db s"
    and rest: "\<And>g c x s'. rely sw w (g, c) \<Longrightarrow> good sw (g, c) \<Longrightarrow> f (state c) = (Inr x, s') \<Longrightarrow>
       db s' = db (state c) \<Longrightarrow> calls.safely sw (upon P) (on_db (k x)) (g, c\<lparr>state := s'\<rparr>)"
  shows "calls.safely sw (upon P) (on_db (after f k)) w"
proof (rule safe_after)
  fix s e s' assume "f s = (Inl e, s')"
  with read [of s] show "db s' = db s" by simp
next
  fix g c x s' assume "good sw (g, c)" "f (state c) = (Inr x, s')"
  with read [of "state c"] show "db_moves sw c (db s')" by (intro moves_same) auto
next
  fix g c x s' g' c'
  assume a: "rely sw w (g, c)" "good sw (g, c)" "f (state c) = (Inr x, s')" "c' = c\<lparr>state := s'\<rparr>" "g' = remember g c'"
  have d: "db s' = db (state c)" using read [of "state c"] a(3) by simp
  have "g' = g" using a(2) remember_same [of g c'] by (simp add: a(4,5) d)
  with rest [OF a(1-3) d] show "calls.safely sw (upon P) (on_db (k x)) (g', c')" by (simp only: a(4))
qed

lemma safe_read:
  assumes read: "\<And>s. db (snd (f s)) = db s"
    and post: "\<And>g c x s'. rely sw w (g, c) \<Longrightarrow> good sw (g, c) \<Longrightarrow> f (state c) = (Inr x, s') \<Longrightarrow>
       db s' = db (state c) \<Longrightarrow> P x (g, c\<lparr>state := s'\<rparr>)"
    and stable: "\<And>x w w'. P x w \<Longrightarrow> rely sw w w' \<Longrightarrow> P x w'"
  shows "calls.safely sw (upon P) (on_db (read_prog f)) w"
  unfolding read_prog_def
proof (rule safe_after_read [OF read])
  fix g c x s' assume "rely sw w (g, c)" "good sw (g, c)" "f (state c) = (Inr x, s')" "db s' = db (state c)"
  from post [OF this] have P: "P x (g, c\<lparr>state := s'\<rparr>)" .
  show "calls.safely sw (upon P) (on_db (Return (Inr x))) (g, c\<lparr>state := s'\<rparr>)"
    unfolding on_db.simps using P by (rule safe_return [where P = P]) (rule stable [OF P])
qed

lemma safe_blob:
  assumes "\<And>g c x b'. rely sw w (g, c) \<Longrightarrow> good sw (g, c) \<Longrightarrow> f c (blob c) = (x, b') \<Longrightarrow>
     good sw (remember g (c\<lparr>blob := b'\<rparr>), c\<lparr>blob := b'\<rparr>) \<and> rely sw (g, c) (remember g (c\<lparr>blob := b'\<rparr>), c\<lparr>blob := b'\<rparr>)
     \<and> (\<forall>w'. rely sw (g, c\<lparr>blob := b'\<rparr>) w' \<longrightarrow> Q x w')"
  shows "calls.safely sw Q (step_task (\<lambda>c. on_blob (f c) c)) w"
proof (rule calls.safe_step)
  fix g c x c' assume a: "rely sw w (g, c)" "good sw (g, c)" "on_blob (f c) c = (x, c')"
  then obtain b' where b: "f c (blob c) = (x, b')" "c' = c\<lparr>blob := b'\<rparr>" by (cases "f c (blob c)") (auto simp: on_blob_def)
  have "remember g c' = g" using a(2) remember_same [of g c'] by (simp add: b(2))
  with assms [OF a(1,2) b(1)] b(2) show "good sw (remember g c', c') \<and> rely sw (g, c) (remember g c', c')
     \<and> (\<forall>w'. rely sw (remember g c', c') w' \<longrightarrow> Q x w')" by simp
qed

section \<open>Moves of the tables\<close>

lemma no_grants_commute:
  "(eff_mark now i p d)\<lparr>redeem_grants := []\<rparr> = eff_mark now i p (d\<lparr>redeem_grants := []\<rparr>)"
  "(eff_finalize now i d)\<lparr>redeem_grants := []\<rparr> = eff_finalize now i (d\<lparr>redeem_grants := []\<rparr>)"
  "(eff_consume now i d)\<lparr>redeem_grants := []\<rparr> = eff_consume now i (d\<lparr>redeem_grants := []\<rparr>)"
  "(eff_delete ids d)\<lparr>redeem_grants := []\<rparr> = eff_delete ids (d\<lparr>redeem_grants := []\<rparr>)"
  "(eff_create i now inp d)\<lparr>redeem_grants := []\<rparr> = eff_create i now inp (d\<lparr>redeem_grants := []\<rparr>)"
  "(eff_grant r d)\<lparr>redeem_grants := []\<rparr> = d\<lparr>redeem_grants := []\<rparr>"
  by (simp_all add: eff_mark_def eff_finalize_def eff_consume_def eff_delete_def eff_create_def eff_grant_def)

lemma no_grants_same [simp]:
  "parts_of i (d\<lparr>redeem_grants := x\<rparr>) = parts_of i d" "declared_in (d\<lparr>redeem_grants := x\<rparr>) = declared_in d"
  by (simp_all add: parts_of_def declared_in_def find_part_def fun_eq_iff)

lemma update_ids: "(\<And>r. s_id (f r) = s_id r) \<Longrightarrow> s_id ` set (map (\<lambda>r. if b r then f r else r) rs) = s_id ` set rs"
  by (induction rs) auto

lemma effect_ids:
  "send_ids (eff_mark now i p d) = send_ids d" "send_ids (eff_grant r d) = send_ids d"
  "send_ids (eff_delete ids d) = send_ids d - ids" "send_ids (eff_create i now inp d) = insert i (send_ids d)"
  by (auto simp: send_ids_def eff_mark_def eff_grant_def eff_delete_def eff_create_def)

lemma send_ids_map:
  "(\<And>r. s_id (f r) = s_id r) \<Longrightarrow> send_ids (d\<lparr>sends := map (\<lambda>r. if b r then f r else r) (sends d)\<rparr>) = send_ids d"
  using update_ids [of f b "sends d"] by (simp add: send_ids_def)

lemma effect_ids_update:
  "send_ids (eff_finalize now i d) = send_ids d" "send_ids (eff_consume now i d) = send_ids d"
  by (simp_all add: eff_finalize_def eff_consume_def send_ids_map)

lemma ids_ok_iff: "ids_ok d \<longleftrightarrow> (\<forall>i \<in> send_ids d. sid_ok i)"
  by (auto simp: ids_ok_def send_ids_def)

lemma db_good_effects:
  assumes "db_good d"
  shows "db_good (eff_mark now i p d)" "db_good (eff_consume now i d)" "db_good (eff_grant r d)" "db_good (eff_delete ids d)"
    and "\<forall>q \<in> set (parts_of i d). p_uploaded_at q \<noteq> None \<Longrightarrow> db_good (eff_finalize now i d)"
    and "i \<notin> send_ids d \<Longrightarrow> sid_ok i \<Longrightarrow> distinct (map PartID (in_Parts inp)) \<Longrightarrow> db_good (eff_create i now inp d)"
  using assms
  by (auto simp: db_good_def no_grants_commute ids_ok_iff effect_ids effect_ids_update tables_inv_mark tables_inv_consume tables_inv_delete
      intro!: tables_inv_finalize tables_inv_create) (simp add: send_ids_def)

lemma declared_parts_of:
  assumes "db_good d"
  shows "declared_in d (i, p) = Some x \<longleftrightarrow> (\<exists>r \<in> set (parts_of i d). p_part_id r = p \<and> x = part_info r)"
  using declared_iff [of "d\<lparr>redeem_grants := []\<rparr>" i p x] assms by (auto simp: db_good_def parts_of_def)

lemma all_uploaded:
  assumes "db_good d"
  shows "(\<forall>q \<in> set (parts_of i d). p_uploaded_at q \<noteq> None) \<longleftrightarrow> (\<forall>p m up. declared_in d (i, p) = Some (m, up) \<longrightarrow> up)"
proof
  assume all: "\<forall>p m up. declared_in d (i, p) = Some (m, up) \<longrightarrow> up"
  show "\<forall>q \<in> set (parts_of i d). p_uploaded_at q \<noteq> None"
  proof
    fix q assume "q \<in> set (parts_of i d)"
    then have "declared_in d (i, p_part_id q) = Some (part_info q)" by (auto simp: declared_parts_of [OF assms])
    with all show "p_uploaded_at q \<noteq> None" unfolding part_info_def by blast
  qed
qed (auto simp: declared_parts_of [OF assms] part_info_def)

section \<open>Every call is safe\<close>

lemma safe_create:
  assumes "\<forall>m \<in> set (in_Parts inp). plain (PartID m)"
  shows "calls.safely sw (upon (\<lambda>_ _. True)) (on_db (create_prog ms src now inp)) w"
  unfolding create_prog_def
proof (rule safe_after)
  fix g c x s'
  assume g: "good sw (g, c)" and f: "CreateSend ms src now inp (state c) = (Inr x, s')"
  let ?d = "db (state c)"
  from CreateSend_Inr [OF f] obtain sid where sid: "NewSendID ms src = Some sid" "db s' = eff_create sid now inp ?d"
    "sid \<notin> send_ids ?d" "distinct (map PartID (in_Parts inp))" by (auto simp: send_ids_def)
  have ok: "db_good ?d" using g by simp
  have refs: "refs_ok (?d\<lparr>redeem_grants := []\<rparr>)" using ok by (simp add: db_good_def tables_inv_def)
  have "declared_in (db s') = declare_parts sid (in_Parts inp) (declared_in ?d)"
    using declared_create [OF refs, of sid now inp] sid(3) no_grants_same(2) [of "[]" "eff_create sid now inp ?d"]
    by (simp add: sid(2) no_grants_commute send_ids_def)
  moreover have "db_good (db s')" using db_good_effects(6) [OF ok sid(3) NewSendID_ok [OF sid(1)] sid(4)] sid(2) by simp
  moreover have "declared_in ?d (i, p) = None" if "i \<notin> send_ids ?d" for i p using declared_id [OF ok, of i p] that by blast
  ultimately show "db_moves sw c (db s')"
    using sid(3) assms by (auto simp: db_moves_def declare_parts_def split: if_splits dest: find_SomeD)
qed (auto dest: CreateSend_Inl)

lemma safe_mark:
  assumes "sw \<or> (\<forall>g c q. rely sw w (g, c) \<longrightarrow> declared_parts (state c) (sid, pid) \<noteq> None \<longrightarrow>
     loc (StorageKey sid pid) = Some q \<longrightarrow> view (blob c) q \<noteq> None)"
  shows "calls.safely sw (upon (\<lambda>_ _. True)) (on_db (mark_prog now sid pid)) w"
  unfolding mark_prog_def
proof (rule safe_after)
  fix g c x s'
  assume r: "rely sw w (g, c)" and g: "good sw (g, c)" and f: "MarkUploaded now sid pid (state c) = (Inr x, s')"
  have d: "db s' = eff_mark now sid pid (db (state c))" using MarkUploaded_Inr [OF f] by simp
  have "db_good (db s')" using db_good_effects(1) g by (simp add: d)
  moreover have "db_good (db (state c))" using g by simp
  from declared_id [OF this] have "declared_in (db (state c)) (i, p) = None" if "i \<notin> send_ids (db (state c))" for i p
    using that by blast
  ultimately show "db_moves sw c (db s')"
    using assms r by (auto simp: db_moves_def d declared_mark mark_part_def split: if_splits)
qed (auto dest: MarkUploaded_Inl)

lemma safe_finalize: "calls.safely sw (upon (\<lambda>_ _. True)) (on_db (finalize_prog now sid)) w"
proof -
  let ?upd = "stmt ''finalize'' (update_sends (\<lambda>r. s_id r = sid \<and> s_status r = SendStatusCreating)
       (\<lambda>r. r\<lparr>s_status := SendStatusFinalized, s_finalized_at := Some (Unix now)\<rparr>))"
    and ?count = "query ''count missing'' (\<lambda>d. length (filter (\<lambda>p. p_send_id p = sid \<and> p_uploaded_at p = None) (send_parts d)))"
  let ?fin = "after ?upd (\<lambda>n. if n = 0 then Return (Inl ErrConflict) else Return (Inr ()))"
  let ?miss = "after ?count (\<lambda>n. if n > 0 then Return (Inl ErrIncomplete) else ?fin)"
  have last: "calls.safely sw (upon (\<lambda>_ _. True)) (on_db ?fin) (g1, c1)"
    if g1: "g1 sid \<noteq> None" and up: "\<forall>p m up. declared_parts (state c1) (sid, p) = Some (m, up) \<longrightarrow> up" for g1 c1
  proof (rule safe_after)
    fix g c x s'
    assume r: "rely sw (g1, c1) (g, c)" and g: "good sw (g, c)" and f: "?upd (state c) = (Inr x, s')"
    have d: "db s' = eff_finalize now sid (db (state c))"
      using stmt_Inr [OF f] by (auto simp: update_sends_def eff_finalize_def)
    have ok: "db_good (db (state c))" and rel: "db_rely g1 (db (state c1)) (db (state c))" using g r by simp_all
    have "up" if "declared_parts (state c) (sid, p) = Some (m, up)" for p m up
      using db_relyD [OF rel g1 that] up by blast
    then have "\<forall>q \<in> set (parts_of sid (db (state c))). p_uploaded_at q \<noteq> None"
      using all_uploaded [OF ok] by blast
    from db_good_effects(5) [OF ok this] show "db_moves sw c (db s')"
      by (intro moves_still [OF g]) (simp_all add: d effect_ids_update, simp add: eff_finalize_def)
  qed (auto dest: stmt_Inl)
  have missing: "calls.safely sw (upon (\<lambda>_ _. True)) (on_db ?miss) (g1, c1)" if g1: "g1 sid \<noteq> None" for g1 c1
  proof (rule safe_after_read)
    fix g c n s'
    assume r: "rely sw (g1, c1) (g, c)" "good sw (g, c)" and f: "?count (state c) = (Inr n, s')" and d: "db s' = db (state c)"
    have g0: "g sid \<noteq> None" using r(1) g1 grows_born by auto
    have "\<forall>p m up. declared_in (db s') (sid, p) = Some (m, up) \<longrightarrow> up" if "n = 0"
    proof -
      have "\<forall>q \<in> set (parts_of sid (db (state c))). p_uploaded_at q \<noteq> None"
        using query_Inr [OF f] that by (auto simp: filter_empty_conv parts_of_def)
      then show ?thesis using all_uploaded [of "db (state c)" sid] r(2) by (simp add: d)
    qed
    with last [of g "c\<lparr>state := s'\<rparr>", OF g0]
    show "calls.safely sw (upon (\<lambda>_ _. True)) (on_db (if n > 0 then Return (Inl ErrIncomplete) else ?fin)) (g, c\<lparr>state := s'\<rparr>)"
      by (cases "n > 0") simp_all
  qed (simp add: stays_read)
  show ?thesis
    unfolding finalize_prog_def
  proof (rule safe_after_read)
    fix g c st s'
    assume g: "good sw (g, c)" and f: "SendStatusOf sid (state c) = (Inr st, s')"
    have "sid \<in> send_ids (db (state c))" using SendStatusOf_Inr [OF f] by (auto simp: send_ids_def dest: find_send_SomeD)
    then have "g sid \<noteq> None" using g by (auto simp: kept_promises_def)
    from missing [of g "c\<lparr>state := s'\<rparr>", OF this] show "calls.safely sw (upon (\<lambda>_ _. True)) (on_db (if st = SendStatusFinalized then Return (Inr ())
       else if st \<noteq> SendStatusCreating then Return (Inl ErrConflict) else ?miss)) (g, c\<lparr>state := s'\<rparr>)"
      by (cases st) simp_all
  qed (simp add: stays_read)
qed

lemma safe_grant: "calls.safely sw (upon (\<lambda>_ _. True)) (on_db (grant_prog src now sid)) w"
proof (cases "NewRedeemToken src")
  case (Some token)
  let ?row = "\<lambda>s. \<lparr>g_token_hash = HashToken token, g_send_id = sid, g_created_at = Unix now,
     g_expires_at = Unix (now + grantTTL s), g_client_ip_hash = None, g_user_agent_hash = None\<rparr>"
  let ?ins = "\<lambda>s. on_ok (stmt ''insert grant'' (insert_grant (?row s)) s) (\<lambda>_ s'. (Inr (now + grantTTL s), s'))"
  show ?thesis
    unfolding grant_prog_def Some option.case
  proof (rule safe_after)
    fix g c x s' assume g: "good sw (g, c)" and f: "?ins (state c) = (Inr x, s')"
    then have d: "db s' = eff_grant (?row (state c)) (db (state c))"
      by (auto elim!: on_ok_InrE dest!: stmt_Inr simp: insert_grant_Some)
    show "db_moves sw c (db s')"
      by (rule moves_still [OF g]) (use g db_good_effects(3) in \<open>simp_all add: d effect_ids\<close>, simp add: eff_grant_def)
  next
    fix s e s' assume "?ins s = (Inl e, s')" then show "db s' = db s" by (auto elim!: on_ok_InlE dest!: stmt_Inl)
  qed (rule safe_after_read, simp_all add: stays_read)
qed (simp add: grant_prog_def)

lemma safe_redeem: "calls.safely sw (upon (\<lambda>_ _. True)) (on_db (redeem_prog src now sid)) w"
proof -
  have take: "calls.safely sw (upon (\<lambda>_ _. True)) (on_db (after (consume now sid)
      (\<lambda>n. if n = 0 then Return (Inl ErrAlreadyRedeemed) else grant_prog src now sid))) w" for w
  proof (rule safe_after)
    fix g c n s' assume g: "good sw (g, c)" and f: "consume now sid (state c) = (Inr n, s')"
    have d: "db s' = eff_consume now sid (db (state c))" using consume_Inr [OF f] by simp
    show "db_moves sw c (db s')"
      by (rule moves_still [OF g]) (use g db_good_effects(2) in \<open>simp_all add: d effect_ids_update\<close>, simp add: eff_consume_def)
  next
    fix n :: nat and w
    show "calls.safely sw (upon (\<lambda>_ _. True)) (on_db (if n = 0 then Return (Inl ErrAlreadyRedeemed) else grant_prog src now sid)) w"
      using safe_grant [of sw src now sid w] by (cases "n = 0") simp_all
  qed (auto dest: consume_Inl)
  show ?thesis
    unfolding redeem_prog_def
  proof (rule safe_after_read)
    fix row :: "send_row option" and w
    show "calls.safely sw (upon (\<lambda>_ _. True)) (on_db (case row of None \<Rightarrow> Return (Inl ErrNotFound)
        | Some r \<Rightarrow> if s_status r \<noteq> SendStatusFinalized then Return (Inl ErrNotFinalized)
            else if s_expires_at r \<le> Unix now then Return (Inl ErrExpired)
            else if s_one_time r = 1 then after (consume now sid)
              (\<lambda>n. if n = 0 then Return (Inl ErrAlreadyRedeemed) else grant_prog src now sid)
            else grant_prog src now sid)) w"
      using take safe_grant by (cases row) (simp_all split: if_splits)
  qed (simp add: stays_read)
qed

lemma safe_meta: "calls.safely sw (upon (\<lambda>_ _. True)) (on_db (meta_prog sid)) w"
  unfolding meta_prog_def
proof (rule safe_after_read)
  fix row :: "send_row option" and g c x and s' :: sqlite
  have "calls.safely sw (upon (\<lambda>_ _. True)) (on_db (after (partsFull sid) (\<lambda>parts. Return (Inr (f parts))))) w" for f w
    by (rule safe_after_read) (simp_all add: stays_read)
  then show "calls.safely sw (upon (\<lambda>_ _. True)) (on_db (case row of None \<Rightarrow> Return (Inl ErrNotFound)
      | Some r \<Rightarrow> after (partsFull sid) (\<lambda>parts. Return (Inr \<lparr>meta_ID = sid, meta_Status = s_status r, meta_OneTime = (s_one_time r = 1),
              meta_ExpiresAt = s_expires_at r * Second, meta_PartCount = s_part_count r,
              meta_TotalEncryptedSize = s_total_encrypted_size r, meta_Parts = parts\<rparr>)))) (g, c\<lparr>state := s'\<rparr>)"
    by (cases row) simp_all
qed (simp add: stays_read)

section \<open>Sweeps\<close>

lemma dead_key_stable:
  assumes "dead_key g c k" "rely sw (g, c) (g', c')"
  shows "dead_key g' c' k"
proof -
  from assms(1) obtain i p where k: "k = StorageKey i p" "promised g i p \<noteq> None" "declared_parts (state c) (i, p) = None"
    by (auto simp: dead_key_def)
  have r: "grows g g'" "db_rely g (db (state c)) (db (state c'))" using assms(2) by simp_all
  have "promised g' i p \<noteq> None" using k(2) grows_promised [OF r(1)] by blast
  moreover have "declared_parts (state c') (i, p) = None"
    using db_rely_gone [OF r(2) promised_born [OF k(2)]] k(3) by blast
  ultimately show ?thesis using k(1) by (auto simp: dead_key_def)
qed

lemma safe_deletes:
  assumes "sw \<or> (\<forall>k \<in> set ks. dead_key g c k)"
  shows "calls.safely sw (\<lambda>_ _. True) (delete_task ks) (g, c)"
  using assms
proof (induction ks arbitrary: g c)
  case (Cons k ks)
  have "calls.safely sw (\<lambda>_. calls.safely sw (\<lambda>_ _. True) (delete_task ks))
      (step_task (\<lambda>c. on_blob (bl_Delete filesystem_blob k) c)) (g, c)"
  proof (rule safe_blob)
    fix g1 c1 x b'
    assume a: "rely sw (g, c) (g1, c1)" "good sw (g1, c1)" "bl_Delete filesystem_blob k (blob c1) = (x, b')"
    let ?c2 = "c1\<lparr>blob := b'\<rparr>"
    have k: "sw \<or> dead_key g1 c1 k" using Cons.prems dead_key_stable [OF _ a(1)] by auto
    note st = delete_step [OF a(2) k a(3)]
    have g: "remember g1 ?c2 = g1" using a(2) remember_same [of g1 ?c2] by simp
    have "calls.safely sw (\<lambda>_ _. True) (delete_task ks) (g2, c2)" if r: "rely sw (g1, ?c2) (g2, c2)" for g2 c2
    proof (rule Cons.IH)
      have "rely sw (g, c) (g2, c2)" using calls.rely_trans a(1) st r unfolding g by blast
      then show "sw \<or> (\<forall>k \<in> set ks. dead_key g2 c2 k)" using Cons.prems dead_key_stable by auto
    qed
    with st show "good sw (remember g1 ?c2, ?c2) \<and> rely sw (g1, c1) (remember g1 ?c2, ?c2)
       \<and> (\<forall>w'. rely sw (g1, ?c2) w' \<longrightarrow> calls.safely sw (\<lambda>_ _. True) (delete_task ks) w')" by auto
  qed
  then show ?case by (simp add: calls.safe_seq)
qed simp

lemma safe_delete_prog:
  "calls.safely sw (upon (\<lambda>(n, ks) (g, c). \<forall>k \<in> set ks. dead_key g c k)) (on_db (delete_prog now)) w"
proof -
  let ?P = "\<lambda>(n :: nat, ks) (g, c). \<forall>k \<in> set ks. dead_key g c k"
  let ?del = "\<lambda>ids s. stmt ''delete sends'' (\<lambda>d. if length ids > maxVars s then None else delete_sends ids d) s"
  have last: "calls.safely sw (upon ?P) (on_db (after (?del ids) (\<lambda>_. Return (Inr (length ids, keys))))) (g1, c1)"
    if keys: "\<forall>k \<in> set keys. \<exists>i p. k = StorageKey i p \<and> i \<in> set ids \<and> promised g1 i p \<noteq> None" for ids keys g1 c1
  proof (rule safe_after)
    fix g c x s'
    assume g: "good sw (g, c)" and f: "?del ids (state c) = (Inr x, s')"
    have d: "db s' = eff_delete (set ids) (db (state c))"
      using stmt_Inr [OF f] by (auto simp: delete_sends_eff split: if_splits)
    have ok: "db_good (db s')" using db_good_effects(4) g by (simp add: d)
    have "declared_in (db (state c)) (i, p) = None" if "i \<notin> send_ids (db (state c))" for i p
      using declared_id [of "db (state c)" i p] g that by (metis good.simps)
    then show "db_moves sw c (db s')"
      using ok by (auto simp: db_moves_def d declared_delete drop_sends_def split: if_splits)
  next
    fix g c x s' g' c'
    assume r: "rely sw (g1, c1) (g, c)" and f: "?del ids (state c) = (Inr x, s')" and c': "c' = c\<lparr>state := s'\<rparr>"
      and r': "rely sw (g, c) (g', c')"
    have d: "db s' = eff_delete (set ids) (db (state c))"
      using stmt_Inr [OF f] by (auto simp: delete_sends_eff split: if_splits)
    have "grows g1 g'" using r r' grows_trans by auto
    have P: "\<forall>k \<in> set keys. dead_key g' c' k"
    proof
      fix k assume "k \<in> set keys"
      with keys obtain i p where k: "k = StorageKey i p" "i \<in> set ids" "promised g1 i p \<noteq> None" by blast
      then have "promised g' i p \<noteq> None" using grows_promised [OF \<open>grows g1 g'\<close>] by blast
      then show "dead_key g' c' k" using k by (auto simp: dead_key_def c' d declared_delete drop_sends_def)
    qed
    show "calls.safely sw (upon ?P) (on_db (Return (Inr (length ids, keys)))) (g', c')"
      unfolding on_db.simps
    proof (rule safe_return [where P = ?P])
      fix w' assume "rely sw (g', c') w'"
      with P dead_key_stable show "?P (length ids, keys) w'" by (cases w') (simp del: rely.simps, blast)
    qed (use P in simp)
  qed (auto dest: stmt_Inl)
  have rows: "calls.safely sw (upon ?P) (on_db (after (storageKeysFor ids) (\<lambda>keys. after (?del ids) (\<lambda>_. Return (Inr (length ids, keys)))))) w"
    for ids w
  proof (rule safe_after_read)
    fix g c keys s'
    assume g: "good sw (g, c)" and f: "storageKeysFor ids (state c) = (Inr keys, s')"
    have inv: "tables_inv ((db (state c))\<lparr>redeem_grants := []\<rparr>)" and kp: "kept_promises g (db (state c))"
      using g by (simp_all add: db_good_def)
    have "set keys = p_storage_key ` {r \<in> set (send_parts (db (state c))). p_send_id r \<in> set ids}"
      using stmt_Inr [OF f [unfolded storageKeysFor_def]] by (auto split: if_splits)
    also have "\<dots> = {StorageKey i p |i p. i \<in> set ids \<and> declared_parts (state c) (i, p) \<noteq> None}"
      using part_keys_declared [OF inv, of "set ids"] by simp
    finally have keys: "set keys = {StorageKey i p |i p. i \<in> set ids \<and> declared_parts (state c) (i, p) \<noteq> None}" .
    have pr: "promised g i p \<noteq> None" if "declared_parts (state c) (i, p) \<noteq> None" for i p
      using kp that unfolding kept_promises_def by (cases "declared_parts (state c) (i, p)") force+
    have "\<forall>k \<in> set keys. \<exists>i p. k = StorageKey i p \<and> i \<in> set ids \<and> promised g i p \<noteq> None"
      unfolding keys using pr by blast
    from last [of keys ids g, OF this]
    show "calls.safely sw (upon ?P) (on_db (after (?del ids) (\<lambda>_. Return (Inr (length ids, keys))))) (g, c\<lparr>state := s'\<rparr>)" .
  next
    fix s show "db (snd (storageKeysFor ids s)) = db s"
      by (cases rule: result_cases [of "storageKeysFor ids s"])
         (auto simp: storageKeysFor_def dest!: stmt_Inr stmt_Inl split: if_splits)
  qed
  show ?thesis
    unfolding delete_prog_def inClause_args
  proof (rule safe_after_read)
    fix ids :: "string list" and w
    show "calls.safely sw (upon ?P) (on_db (if ids = [] then Return (Inr (0, []))
       else after (storageKeysFor ids) (\<lambda>keys. after (?del ids) (\<lambda>_. Return (Inr (length ids, keys)))))) w"
      using rows by (cases "ids = []") simp_all
  qed (simp add: stays_read)
qed

lemma safe_expire: "calls.safely sw (upon (\<lambda>_ _. True)) (expire_task now) w"
  unfolding expire_task_def
proof (rule safe_then, rule calls.safe_mono [OF safe_delete_prog])
  fix r and w :: "history \<times> store"
  assume P: "upon (\<lambda>(n :: nat, ks) (g, c). \<forall>k \<in> set ks. dead_key g c k) r w"
  obtain g c where w: "w = (g, c)" by force
  have "calls.safely sw (upon (\<lambda>_ _. True)) (seq_task (delete_task ks) (\<lambda>_. Return (Inr n))) (g, c)"
    if "r = Inr (n, ks)" for n ks
    by (rule calls.safe_seq) (rule calls.safe_mono [OF safe_deletes], use P that in \<open>auto simp: w\<close>)
  then show "upon (\<lambda>x. calls.safely sw (upon (\<lambda>_ _. True)) (case x of (n, keys) \<Rightarrow> seq_task (delete_task keys) (\<lambda>_. Return (Inr n)))) r w"
    by (auto simp: w split: sum.split)
qed

lemma safe_sweep: "calls.safely True (upon (\<lambda>_ _. True)) sweep_task w"
  unfolding sweep_task_def
proof (rule safe_then, rule safe_read)
  let ?rest = "\<lambda>live stored. seq_task (delete_task (orphans live stored)) (\<lambda>_. Return (Inr (length (orphans live stored)))) :: nat result call"
  have del: "calls.safely True (upon (\<lambda>_ _. True)) (?rest live stored) w" for live stored w
    by (rule calls.safe_seq) (cases w, auto intro!: calls.safe_mono [OF safe_deletes])
  show "calls.safely True (upon (\<lambda>_ _. True)) (try_task (step_task (on_blob (bl_List filesystem_blob))) (?rest live)) (g, c\<lparr>state := s'\<rparr>)"
    for live g c and s' :: sqlite
  proof (rule safe_then)
    show "calls.safely True (upon (\<lambda>stored. calls.safely True (upon (\<lambda>_ _. True)) (?rest live stored)))
       (step_task (on_blob (bl_List filesystem_blob))) (g, c\<lparr>state := s'\<rparr>)"
    proof (rule safe_blob)
      fix g1 c1 x b' assume a: "good True (g1, c1)" "bl_List filesystem_blob (blob c1) = (x, b')"
      then have "blob_ok (blob c1)" by simp
      from fs.list_keep [OF this] a(2) have "blob_ok b'" "view b' = view (blob c1)" by auto
      from same_view_step [OF a(1) this] del
      show "good True (remember g1 (c1\<lparr>blob := b'\<rparr>), c1\<lparr>blob := b'\<rparr>)
         \<and> rely True (g1, c1) (remember g1 (c1\<lparr>blob := b'\<rparr>), c1\<lparr>blob := b'\<rparr>)
         \<and> (\<forall>w'. rely True (g1, c1\<lparr>blob := b'\<rparr>) w' \<longrightarrow>
              upon (\<lambda>stored. calls.safely True (upon (\<lambda>_ _. True)) (?rest live stored)) x w')"
        by (cases x) (simp_all del: rely.simps good.simps)
    qed
  qed
qed (auto simp: stays_read intro: calls.safe_rely)

section \<open>Uploads and downloads\<close>

lemma DeclaredPart_declared:
  "DeclaredPart i p s = (Inr (m, up), s') \<Longrightarrow> declared_parts s (i, p) = Some (m, up) \<and> PartID m = p"
  by (auto dest!: DeclaredPart_Inr simp: declared_in_def part_info_def find_part_def dest: find_SomeD)

lemma safe_put:
  assumes sfx: "temp_suffix (tmp_suffix e)"
  shows "calls.safely sw (upon (\<lambda>_ _. True)) (put_task e sid pid r d) w"
proof -
  let ?want = "\<lambda>m. \<lparr>PartID = pid, EncryptedSize = EncryptedSize m, SHA256 = SHA256 m\<rparr>"
  let ?put = "\<lambda>m. step_task (\<lambda>c. on_blob (bl_Put filesystem_blob e (StorageKey sid pid) r (?want m) (maxPartBytes c)) c)"
    and ?mark = "\<lambda>n. try_task (on_db (mark_prog (clock e) sid pid)) (\<lambda>_. Return (Inr n))"
  have mark: "calls.safely sw (upon (\<lambda>_ _. True)) (?mark n) (g0, c0)"
    if "sw \<or> (promised g0 sid pid \<noteq> None \<and> (\<forall>q. loc (StorageKey sid pid) = Some q \<longrightarrow> view (blob c0) q \<noteq> None))" for n :: int and g0 c0
  proof (rule safe_then)
    have "sw \<or> (\<forall>g c q. rely sw (g0, c0) (g, c) \<longrightarrow> declared_parts (state c) (sid, pid) \<noteq> None \<longrightarrow>
       loc (StorageKey sid pid) = Some q \<longrightarrow> view (blob c) q \<noteq> None)"
      using that unfolding rely.simps blobs_stay_def by blast
    from calls.safe_mono [OF safe_mark [OF this]]
    show "calls.safely sw (upon (\<lambda>x. calls.safely sw (upon (\<lambda>_ _. True)) (Return (Inr n)))) (on_db (mark_prog (clock e) sid pid)) (g0, c0)"
      by (auto split: sum.splits)
  qed
  have put: "calls.safely sw (upon (\<lambda>_ _. True)) (try_task (?put m) ?mark) (g0, c0)"
    if pr: "promised g0 sid pid = Some m" "PartID m = pid" "sid_ok sid" for m g0 c0
  proof (rule safe_then, rule safe_blob)
    fix g c x b'
    assume a: "rely sw (g0, c0) (g, c)" "good sw (g, c)"
      "bl_Put filesystem_blob e (StorageKey sid pid) r (?want m) (maxPartBytes c) (blob c) = (x, b')"
    have "promised g sid pid = Some (?want m)" using pr grows_promised [of g0 g sid pid m] a(1) by auto
    note st = put_step [OF a(2) this pr(3) sfx a(3)]
    have "calls.safely sw (upon (\<lambda>_ _. True)) (?mark n) w'" if n: "x = Inr n" "rely sw (g, c\<lparr>blob := b'\<rparr>) w'" for n w'
    proof -
      have "calls.safely sw (upon (\<lambda>_ _. True)) (?mark n) (g, c\<lparr>blob := b'\<rparr>)"
        by (rule mark) (use st \<open>promised g sid pid = _\<close> n(1) in simp)
      from calls.safe_rely [OF this n(2)] show ?thesis .
    qed
    with st show "good sw (remember g (c\<lparr>blob := b'\<rparr>), c\<lparr>blob := b'\<rparr>) \<and> rely sw (g, c) (remember g (c\<lparr>blob := b'\<rparr>), c\<lparr>blob := b'\<rparr>)
       \<and> (\<forall>w'. rely sw (g, c\<lparr>blob := b'\<rparr>) w' \<longrightarrow> upon (\<lambda>n. calls.safely sw (upon (\<lambda>_ _. True)) (?mark n)) x w')"
      by (cases x) (simp_all del: rely.simps good.simps)
  qed
  have part: "calls.safely sw (upon (\<lambda>_ _. True)) (try_task (on_db (read_prog (DeclaredPart sid pid))) (\<lambda>(stored, _).
       if SHA256 d \<noteq> [] \<and> SHA256 d \<noteq> SHA256 stored then Return (Inl ErrIntegrity) else try_task (?put stored) ?mark)) w" for w
  proof (rule safe_then, rule safe_read)
    fix g c x and s' :: sqlite
    assume g: "good sw (g, c)" and f: "DeclaredPart sid pid (state c) = (Inr x, s')"
    obtain m up where x: "x = (m, up)" by force
    from DeclaredPart_declared [OF f [unfolded x]] have p: "declared_parts (state c) (sid, pid) = Some (m, up)" "PartID m = pid" by auto
    then have "promised g sid pid = Some m" "sid_ok sid"
      using g declared_id [of "db (state c)" sid pid] db_good_id [of "db (state c)" sid] by (auto simp: kept_promises_def)
    from put [OF this(1) p(2) this(2), of "c\<lparr>state := s'\<rparr>"]
    show "calls.safely sw (upon (\<lambda>_ _. True)) (case x of (stored, _) \<Rightarrow>
       if SHA256 d \<noteq> [] \<and> SHA256 d \<noteq> SHA256 stored then Return (Inl ErrIntegrity) else try_task (?put stored) ?mark) (g, c\<lparr>state := s'\<rparr>)"
      by (simp add: x)
  qed (auto simp: stays_read intro: calls.safe_rely)
  show ?thesis
    unfolding put_task_def
  proof (rule safe_then, rule safe_read)
    fix status and w :: "history \<times> store"
    show "calls.safely sw (upon (\<lambda>_ _. True)) (if status \<noteq> SendStatusCreating then Return (Inl ErrConflict)
       else try_task (on_db (read_prog (DeclaredPart sid pid))) (\<lambda>(stored, _).
         if SHA256 d \<noteq> [] \<and> SHA256 d \<noteq> SHA256 stored then Return (Inl ErrIntegrity) else try_task (?put stored) ?mark)) w"
      using part by simp
  qed (auto simp: stays_read intro: calls.safe_rely)
qed

text \<open>Parts whose id is a plain file name that the listing shows.\<close>

definition visible_part :: "string \<Rightarrow> bool" where
  "visible_part pid \<longleftrightarrow> plain pid \<and> \<not> HasPrefix pid ''.tmp-''"

fun served_ok :: "served \<Rightarrow> history \<times> store \<Rightarrow> bool" where
  "served_ok None w \<longleftrightarrow> True"
| "served_ok (Some (sid, pid, d)) w \<longleftrightarrow> visible_part pid \<longrightarrow> (\<exists>m. promised (fst w) sid pid = Some m \<and> genuine m d)"

lemma served_ok_stable: "served_ok r w \<Longrightarrow> rely sw w w' \<Longrightarrow> served_ok r w'"
  by (cases r; cases w; cases w') (auto, (metis grows_promised)+)

lemma Open_visible:
  assumes b: "blob_ok b" and o: "Open (StorageKey sid pid) b = (Inr h, b')" and sid: "sid_ok sid" and p: "visible_part pid"
  shows "loc (StorageKey sid pid) = Some [sid, pid]"
proof -
  have "\<not> Contains pid ''..''"
  proof
    assume "Contains pid ''..''"
    then have "\<not> valid_key (StorageKey sid pid)" by (simp add: valid_key_def StorageKey_def Contains_slash)
    then show False using o b by (simp add: Open_def resolve_ok)
  qed
  then show ?thesis using sid p by (simp add: visible_part_def loc_plain)
qed

lemma safe_get: "calls.safely sw (\<lambda>r. served_ok (handed_out sid pid r)) (get_task e sid pid token) w"
proof -
  let ?Q = "\<lambda>r. served_ok (handed_out sid pid r)"
  have err: "calls.safely sw ?Q (Return (Inl x)) w" for x w by (simp add: handed_out_def)
  have lift: "calls.safely sw ?Q (try_task t k) w" if "calls.safely sw (upon (\<lambda>x. calls.safely sw ?Q (k x))) t w"
    for t :: "'x result call" and k w
    by (rule calls.safe_try) (rule calls.safe_mono [OF that], use err in \<open>auto split: sum.splits\<close>)
  have opened: "calls.safely sw ?Q (step_task (\<lambda>c. on_blob (bl_Open filesystem_blob (StorageKey sid pid)) c)) (g0, c0)"
    if pr: "promised g0 sid pid = Some m" "sid_ok sid" for g0 c0 m
  proof (rule safe_blob)
    fix g c r b'
    assume a: "rely sw (g0, c0) (g, c)" "good sw (g, c)" "bl_Open filesystem_blob (StorageKey sid pid) (blob c) = (r, b')"
    have b: "blob_ok (blob c)" and v: "blobs_promised g (view (blob c))" using a(2) by simp_all
    from fs.open_keep [OF b, of "StorageKey sid pid"] a(3) have "blob_ok b'" "view b' = view (blob c)" by auto
    note st = same_view_step [OF a(2) this]
    have pr': "promised g sid pid = Some m" using grows_promised [of g0 g] pr(1) a(1) by simp
    have "?Q r (g, c\<lparr>blob := b'\<rparr>)"
    proof (cases "\<exists>d. r = Inr (File d) \<and> visible_part pid")
      case True
      then obtain d where d: "r = Inr (File d)" "visible_part pid" by blast
      with Open_visible [OF b _ pr(2)] a(3) have l: "loc (StorageKey sid pid) = Some [sid, pid]" by simp
      from fs.open_ok [OF b l] a(3) d(1) have "view (blob c) [sid, pid] = Some d" by blast
      with blobs_promisedD [OF v pr' l] pr' d(1) show ?thesis by (simp add: handed_out_def)
    qed (auto simp: handed_out_def split: sum.splits node.splits)
    with st served_ok_stable show "good sw (remember g (c\<lparr>blob := b'\<rparr>), c\<lparr>blob := b'\<rparr>)
      \<and> rely sw (g, c) (remember g (c\<lparr>blob := b'\<rparr>), c\<lparr>blob := b'\<rparr>) \<and> (\<forall>w'. rely sw (g, c\<lparr>blob := b'\<rparr>) w' \<longrightarrow> ?Q r w')"
      by blast
  qed
  have part: "calls.safely sw ?Q (try_task (on_db (read_prog (DeclaredPart sid pid)))
      (\<lambda>_. step_task (on_blob (bl_Open filesystem_blob (StorageKey sid pid))))) w" for w
  proof (rule lift, rule safe_read)
    fix g c x and s' :: sqlite
    assume g: "good sw (g, c)" and f: "DeclaredPart sid pid (state c) = (Inr x, s')"
    obtain m up where x: "x = (m, up)" by force
    from DeclaredPart_declared [OF f [unfolded x]] have "declared_parts (state c) (sid, pid) = Some (m, up)" by blast
    then have "promised g sid pid = Some m" "sid_ok sid"
      using g declared_id [of "db (state c)" sid pid] db_good_id [of "db (state c)" sid] by (auto simp: kept_promises_def)
    from opened [OF this]
    show "calls.safely sw ?Q (step_task (on_blob (bl_Open filesystem_blob (StorageKey sid pid)))) (g, c\<lparr>state := s'\<rparr>)" .
  qed (auto simp: stays_read intro: calls.safe_rely)
  show ?thesis
    unfolding get_task_def
    by (rule lift, rule safe_read, simp add: stays_read, rule part) (rule calls.safe_rely)
qed

end
