(* ===== verification/InterleaveProps.thy ===== *)
theory InterleaveProps
  imports CallsSafe
begin

text \<open>
  What holds for any number of coordinator calls, interleaved step by step: what a download
  hands out is genuine, sweeps, failures and deaths included, and without an orphan sweep a
  finalized send is complete. A concrete interleaving witnesses both.
\<close>

section \<open>Any number of calls\<close>

text \<open>What a caller sees to: part ids are plain names, temporary files have a name of their own.\<close>

fun call_ok :: "co_op \<Rightarrow> bool" where
  "call_ok (CoCreate e inp) \<longleftrightarrow> (\<forall>m \<in> set (in_Parts inp). plain (PartID m))"
| "call_ok (CoPut e sid pid r d) \<longleftrightarrow> temp_suffix (tmp_suffix e)"
| "call_ok _ \<longleftrightarrow> True"

lemma silent_safe: "calls.safely sw (upon (\<lambda>_ _. True)) t w \<Longrightarrow> calls.safely sw served_ok (silent t) w"
  unfolding silent_def by (rule calls.safe_seq) (rule calls.safe_mono, simp, auto)

lemma call_safe:
  assumes "call_ok op" "sw \<or> op \<noteq> CoSweep"
  shows "calls.safely sw served_ok (call_task op) w"
proof (cases op)
  case (CoGet e sid pid token)
  have "calls.safely sw served_ok (Return (handed_out sid pid r)) w'" if "served_ok (handed_out sid pid r) w'" for r w'
    using that served_ok_stable by (auto simp del: rely.simps)
  then show ?thesis unfolding CoGet call_task.simps by (intro calls.safe_seq calls.safe_mono [OF safe_get])
qed (use assms in \<open>auto intro!: silent_safe safe_create safe_put safe_finalize safe_redeem safe_meta safe_expire safe_sweep\<close>)

abbreviation interleaved :: "served call list \<times> history \<times> store \<Rightarrow> served call list \<times> history \<times> store \<Rightarrow> bool" where
  "interleaved \<equiv> turns remember fresh_ids"

lemma fresh_good:
  assumes "fresh_coordinator s b n c0" "\<forall>q. view b q = None"
  shows "good sw (\<lambda>_. None, c0)"
proof -
  have "declared_in empty_tables = (\<lambda>_. None)" by (simp add: fun_eq_iff declared_in_def find_part_def empty_tables_def)
  moreover have "send_ids empty_tables = {}" "ids_ok empty_tables" "empty_tables\<lparr>redeem_grants := []\<rparr> = empty_tables"
    by (simp_all add: send_ids_def ids_ok_def empty_tables_def)
  ultimately show ?thesis
    using assms tables_inv_empty
    by (auto simp: fresh_coordinator_def NewCoordinator_def db_good_def kept_promises_def blobs_promised_def blobs_there_def promised_def)
qed

text \<open>
  C8. Any number of coordinator calls run concurrently, statement by statement, from an
  empty server, any of them failing or dying on the way: whatever a download hands out for a
  part has the size and SHA-256 declared for that part when its send was created.
\<close>

theorem concurrent_downloads_are_genuine:
  assumes "fresh_coordinator s b n c0" "\<forall>q. view b q = None" "\<forall>op \<in> set ops. call_ok op"
    and "interleaved (map call_task ops, \<lambda>_. None, c0) (ts, g, c)"
    and "Return (Some (sid, pid, d)) \<in> set ts" "visible_part pid"
  shows "\<exists>m. promised g sid pid = Some m \<and> int (length d) = EncryptedSize m \<and> sha256_hex d = SHA256 m"
proof -
  have "served_ok (Some (sid, pid, d)) (g, c)"
    by (rule calls.results [OF assms(4) fresh_good [OF assms(1,2), of True] _ assms(5)]) (use assms(3) call_safe in auto)
  with assms(6) show ?thesis by (simp add: genuine_def)
qed

lemma good_complete:
  assumes g: "good False (g, c)"
    and "r \<in> set (sends (db (state c)))" "s_status r = SendStatusFinalized"
    and "p \<in> set (send_parts (db (state c)))" "p_send_id p = s_id r" "loc (p_storage_key p) = Some q"
  shows "p_uploaded_at p \<noteq> None
     \<and> (\<exists>d. view (blob c) q = Some d \<and> int (length d) = p_encrypted_size p \<and> sha256_hex d = p_sha256 p)"
proof -
  let ?d = "db (state c)"
  have inv: "tables_inv (?d\<lparr>redeem_grants := []\<rparr>)" using g by (simp add: db_good_def)
  have up: "p_uploaded_at p \<noteq> None"
    using inv assms(2-5) by (auto simp: tables_inv_def life_ok_def row_ok_def parts_of_def)
  have key: "p_storage_key p = StorageKey (s_id r) (p_part_id p)"
    using inv assms(4,5) by (auto simp: tables_inv_def storage_keys_ok_def)
  have d: "declared_in ?d (s_id r, p_part_id p) = Some (fst (part_info p), True)"
    using up assms(4,5) declared_parts_of [of ?d "s_id r" "p_part_id p"] g by (auto simp: parts_of_def part_info_def)
  have bt: "blobs_there (declared_in ?d) (view (blob c))" and kp: "kept_promises g ?d" using g by simp_all
  have "view (blob c) q \<noteq> None" using bt d assms(6) key unfolding blobs_there_def by metis
  moreover have "promised g (s_id r) (p_part_id p) = Some (fst (part_info p))" using kp d unfolding kept_promises_def by blast
  ultimately have "view (blob c) q \<noteq> None" "promised g (s_id r) (p_part_id p) = Some (fst (part_info p))" by blast+
  with blobs_promisedD [of g "view (blob c)" "s_id r" "p_part_id p" "fst (part_info p)" q] g assms(6) key
  obtain x where "view (blob c) q = Some x" "genuine (fst (part_info p)) x" by auto
  then show ?thesis using up by (auto simp: genuine_def part_info_def)
qed

text \<open>
  When no orphan sweep is among the calls, every part of a finalized send is marked
  uploaded, and its blob is in place with the declared size and SHA-256, however the calls
  interleave.
\<close>

theorem concurrent_finalized_sends_are_complete:
  assumes "fresh_coordinator s b n c0" "\<forall>q. view b q = None" "\<forall>op \<in> set ops. call_ok op \<and> op \<noteq> CoSweep"
    and "interleaved (map call_task ops, \<lambda>_. None, c0) (ts, g, c)"
    and "r \<in> set (sends (db (state c)))" "s_status r = SendStatusFinalized"
    and "p \<in> set (send_parts (db (state c)))" "p_send_id p = s_id r" "loc (p_storage_key p) = Some q"
  shows "p_uploaded_at p \<noteq> None
     \<and> (\<exists>d. view (blob c) q = Some d \<and> int (length d) = p_encrypted_size p \<and> sha256_hex d = p_sha256 p)"
proof -
  have "\<forall>t \<in> set (map call_task ops). calls.safely False served_ok t (\<lambda>_. None, c0)" using assms(3) call_safe by auto
  with calls.turns_safe [OF assms(4), of False served_ok] fresh_good [OF assms(1,2), of False]
  have "good False (g, c)" by simp
  from good_complete [OF this assms(5-9)] show ?thesis .
qed

section \<open>A concrete interleaving\<close>

abbreviation turn_by :: "nat \<Rightarrow> served call list \<times> history \<times> store \<Rightarrow> served call list \<times> history \<times> store" where
  "turn_by \<equiv> give remember fresh_ids"

lemma fresh_check: "fresh_ids g c c' \<longleftrightarrow> (\<forall>i \<in> send_ids (db (state c')). i \<in> send_ids (db (state c)) \<or> g i = None)"
  by (auto simp: fresh_ids_def)

lemma seq_after:
  "seq_task (on_db (after f k)) j = Call (\<lambda>c. case f (state c) of
      (Inl e, s') \<Rightarrow> (j (Inl e), c\<lparr>state := s'\<rparr>) | (Inr x, s') \<Rightarrow> (seq_task (on_db (k x)) j, c\<lparr>state := s'\<rparr>))"
  by (auto simp: on_db_after fun_eq_iff split: prod.split sum.split)

definition demo_calls :: "co_op list" where
  "demo_calls =
     [CoCreate (demo_env 0 ''0123456789'') demo_one_input,
      CoPut (demo_env Second []) demo_id ''a'' demo_upload (demo_meta ''a''),
      CoFinalize (demo_env (2 * Second) []) demo_id,
      CoRedeem (demo_env (3 * Second) (the demo_src)) demo_id,
      CoGet (demo_env (4 * Second) []) demo_id ''a'' demo_token]"

definition demo_start :: "served call list \<times> history \<times> store" where
  "demo_start = (map call_task demo_calls, \<lambda>_. None, demo_c0)"

text \<open>The upload overlaps the finalization, and the download overlaps the redeem.\<close>

definition demo_turns :: "nat list" where
  "demo_turns = [0, 1, 1, 1, 2, 1, 2, 2, 3, 3, 3, 4, 3, 4, 4]"

lemmas task_eval = silent_def try_task_def seq_assoc seq_after seq_step seq_Call read_prog_def fresh_check

lemma demo_tasks:
  "map call_task demo_calls = [
     silent (on_db (create_prog 0 (Some ''0123456789'') 0 demo_one_input)),
     silent (put_task (demo_env Second []) demo_id ''a'' demo_upload (demo_meta ''a'')),
     silent (on_db (finalize_prog (2 * Second) demo_id)),
     silent (on_db (redeem_prog demo_src (3 * Second) demo_id)),
     seq_task (get_task (demo_env (4 * Second) []) demo_id ''a'' demo_token) (\<lambda>r. Return (handed_out demo_id ''a'' r))]"
  by (simp add: demo_calls_def demo_env_def UnixMilli_def demo_src_def)

lemma demo_store_simps:
  "state (demo_store s b) = s" "blob (demo_store s b) = b" "maxPartBytes (demo_store s b) = 100"
  "(demo_store s b)\<lparr>state := s'\<rparr> = demo_store s' b" "(demo_store s b)\<lparr>blob := b'\<rparr> = demo_store s b'"
  by (simp_all add: demo_store_def)

abbreviation demo_s :: "int option \<Rightarrow> int option \<Rightarrow> int option \<Rightarrow> grant_row list \<Rightarrow> sqlite" where
  "demo_s fin con up gs \<equiv> demo_state (demo_one fin con) [demo_part ''a'' up] gs []"

abbreviation demo_g :: grant_row where
  "demo_g \<equiv> new_grant demo_token (3 * Second) (600 * Second) demo_id"

lemma demo_ids: "send_ids (db (demo_s fin con up gs)) = {demo_id}" "send_ids (db (fresh_store t)) = {}"
  by (simp_all add: send_ids_def demo_eval_store)

lemma demo_statements:
  "CreateSend 0 (Some ''0123456789'') 0 demo_one_input (fresh_store (600 * Second)) =
     (Inr \<lparr>rec_ID = demo_id, rec_OneTime = True, rec_ExpiresAt = Hour, rec_Parts = [demo_meta ''a'']\<rparr>, demo_s None None None [])"
  "SendStatusOf demo_id (demo_s None con up gs) = (Inr SendStatusCreating, demo_s None con up gs)"
  "DeclaredPart demo_id ''a'' (demo_s fin con up gs) = (Inr (demo_meta ''a'', up \<noteq> None), demo_s fin con up gs)"
  "MarkUploaded Second demo_id ''a'' (demo_s fin con up gs) = (Inr (), demo_s fin con (Some 1) gs)"
  "query ''count missing'' (\<lambda>d. length (filter (\<lambda>p. p_send_id p = demo_id \<and> p_uploaded_at p = None) (send_parts d)))
     (demo_s fin con (Some 1) gs) = (Inr 0, demo_s fin con (Some 1) gs)"
  "stmt ''finalize'' (update_sends (\<lambda>r. s_id r = demo_id \<and> s_status r = SendStatusCreating)
       (\<lambda>r. r\<lparr>s_status := SendStatusFinalized, s_finalized_at := Some (Unix (2 * Second))\<rparr>)) (demo_s None con up gs)
     = (Inr 1, demo_s (Some 2) con up gs)"
  "query ''load send'' (find_send demo_id) (demo_s fin con up gs) = (Inr (Some (demo_one fin con)), demo_s fin con up gs)"
  "consume (3 * Second) demo_id (demo_s (Some 2) None up gs) = (Inr 1, demo_s (Some 2) (Some 3) up gs)"
  "partsBrief demo_id (demo_s fin con up gs) = (Inr [(demo_meta ''a'')\<lparr>SHA256 := []\<rparr>], demo_s fin con up gs)"
  "ValidateGrant (4 * Second) demo_id (HashToken demo_token) (demo_s fin con up [demo_g]) = (Inr (), demo_s fin con up [demo_g])"
  "stmt ''insert grant'' (insert_grant demo_g) (demo_s fin con up []) = (Inr (), demo_s fin con up [demo_g])"
  "grantTTL (demo_s fin con up gs) = 600 * Second"
  by (simp_all add: CreateSend_def demo_id_new insert_send_def insert_part_def SendStatusOf_def DeclaredPart_def MarkUploaded_def
      update_parts_def update_sends_def consume_def partsBrief_def ValidateGrant_def new_grant_def insert_grant_def
      demo_eval_store demo_one_input_def demo_meta_def)

lemma demo_blob_calls:
  "Put (StorageKey demo_id ''a'') demo_upload (demo_meta ''a'') 100 ''7'' (demo_fs []) = (Inr 3, demo_blob)"
  "Open (StorageKey demo_id ''a'') demo_blob = (Inr (File demo_bytes), demo_blob)"
  by (rule demo_Put)
    (simp add: Open_def resolve_def StorageKey_def demo_id_def demo_fs_def HasPrefix_def FJoin_def Clean_def Let_def
        kpath_def os_call_def sys_open_def lookup_def)

lemma demo_run_calls:
  "\<exists>g. fold turn_by demo_turns demo_start =
     ([Return None, Return None, Return None, Return None, Return (Some (demo_id, ''a'', demo_bytes))], g, demo_c4)"
proof -
  have env: "clock (demo_env t x) = t" "tmp_suffix (demo_env t x) = ''7''" for t x by (simp_all add: demo_env_def)
  have row: "s_status (demo_one (Some 2) con) = SendStatusFinalized" "s_one_time (demo_one fin con) = 1"
    "\<not> s_expires_at (demo_one fin con) \<le> Unix (3 * Second)" for fin con by (simp_all add: demo_eval_store)
  have sha: "SHA256 (demo_meta ''a'') = demo_sha" "EncryptedSize (demo_meta ''a'') = 3" "PartID (demo_meta ''a'') = ''a''"
    "\<lparr>PartID = ''a'', EncryptedSize = 3, SHA256 = demo_sha\<rparr> = demo_meta ''a''" by (simp_all add: demo_meta_def)
  have grant: "\<lparr>g_token_hash = HashToken demo_token, g_send_id = demo_id, g_created_at = Unix (3 * Second),
     g_expires_at = Unix (603 * Second), g_client_ip_hash = None, g_user_agent_hash = None\<rparr> = demo_g"
    by (simp add: new_grant_def)
  show ?thesis
    by (simp add: demo_start_def demo_turns_def demo_tasks task_eval create_prog_def put_task_def finalize_prog_def redeem_prog_def
      get_task_def mark_prog_def demo_store_simps demo_ids demo_statements env row sha on_blob_def Let_def demo_blob_calls
      grant_prog_def demo_token_new grant handed_out_def del: seq_task.simps(2))
qed

lemma demo_interleaved:
  obtains ts g where "interleaved (map call_task demo_calls, \<lambda>_. None, demo_c0) (ts, g, demo_c4)"
    "Return (Some (demo_id, ''a'', demo_bytes)) \<in> set ts"
proof -
  obtain g where "fold turn_by demo_turns demo_start =
     ([Return None, Return None, Return None, Return None, Return (Some (demo_id, ''a'', demo_bytes))], g, demo_c4)"
    using demo_run_calls by blast
  then have "interleaved demo_start ([Return None, Return None, Return None, Return None, Return (Some (demo_id, ''a'', demo_bytes))], g, demo_c4)"
    using scheduled [OF turns.none, of remember fresh_ids demo_start demo_turns] by simp
  then show thesis by (rule that [unfolded demo_start_def [symmetric]]) simp
qed

lemma demo_call_ok: "\<forall>op \<in> set demo_calls. call_ok op \<and> op \<noteq> CoSweep"
  using demo_plain by (auto simp: demo_calls_def demo_one_input_def demo_meta_def demo_env_def temp_suffix_def)

lemma demo_no_blobs: "\<forall>q. view (demo_fs []) q = None"
  by (auto simp: view_def fview_def demo_fs_def lookup_def split: if_splits)

theorem concurrent_downloads_are_genuine_witness:
  "\<exists>ts g m. interleaved (map call_task demo_calls, \<lambda>_. None, demo_c0) (ts, g, demo_c4)
     \<and> promised g demo_id ''a'' = Some m \<and> EncryptedSize m = 3 \<and> SHA256 m = demo_sha"
proof -
  obtain ts g where run: "interleaved (map call_task demo_calls, \<lambda>_. None, demo_c0) (ts, g, demo_c4)"
    and ret: "Return (Some (demo_id, ''a'', demo_bytes)) \<in> set ts" by (rule demo_interleaved)
  have "\<forall>op \<in> set demo_calls. call_ok op" "visible_part ''a''" using demo_call_ok demo_plain by (simp_all add: visible_part_def)
  from concurrent_downloads_are_genuine [OF demo_fresh demo_no_blobs this(1) run ret this(2)]
  obtain m where "promised g demo_id ''a'' = Some m" "int (length demo_bytes) = EncryptedSize m" "sha256_hex demo_bytes = SHA256 m"
    by blast
  with run show ?thesis by (intro exI [of _ ts] exI [of _ g] exI [of _ m]) (simp add: demo_bytes_def demo_sha_def)
qed

theorem concurrent_finalized_sends_are_complete_witness:
  "\<exists>d. view demo_blob [demo_id, ''a''] = Some d \<and> int (length d) = 3 \<and> sha256_hex d = demo_sha"
proof -
  obtain ts g where run: "interleaved (map call_task demo_calls, \<lambda>_. None, demo_c0) (ts, g, demo_c4)"
    by (rule demo_interleaved)
  have rows: "demo_one (Some 2) (Some 3) \<in> set (sends (db (state demo_c4)))" "s_status (demo_one (Some 2) (Some 3)) = SendStatusFinalized"
    "demo_part ''a'' (Some 1) \<in> set (send_parts (db (state demo_c4)))" "p_send_id (demo_part ''a'' (Some 1)) = s_id (demo_one (Some 2) (Some 3))"
    by (simp_all add: demo_eval_store)
  have key: "loc (p_storage_key (demo_part ''a'' (Some 1))) = Some [demo_id, ''a'']"
    using loc_plain [OF demo_sid_ok, of "''a''"] demo_plain by (simp add: demo_part_def Contains_iff)
  from concurrent_finalized_sends_are_complete [OF demo_fresh demo_no_blobs demo_call_ok run rows key]
  show ?thesis by (simp add: demo_part_def demo_store_def)
qed

end
