(* ===== verification/Sha256Vector.thy ===== *)
theory Sha256Vector
  imports Sha256
begin

text \<open>
  The one-block test vector of FIPS 180-2, appendix B.1: the digest of \<open>abc\<close>, by the message
  schedule and the rounds sixteen words at a time.
\<close>

lemma sched_grow_add: "sched_grow (m + n) ws = sched_grow n (sched_grow m ws)"
  by (induction m arbitrary: ws) simp_all

lemma abc_padded: "chunks 64 (sha_pad ''abc'') = [sha_pad ''abc'']"
  by code_simp

lemma abc_words: "map word_of_bytes (chunks 4 (sha_pad ''abc'')) =
    [1633837952, 0, 0, 0, 0, 0, 0, 0, 0, 0, 0, 0, 0, 0, 0, 24]"
proof -
  have "map word_of_bytes (chunks 4 (sha_pad ''abc'')) =
     [1633837824 OR 128, 0 OR 0, 0 OR 0, 0 OR 0, 0 OR 0, 0 OR 0, 0 OR 0, 0 OR 0,
      0 OR 0, 0 OR 0, 0 OR 0, 0 OR 0, 0 OR 0, 0 OR 0, 0 OR 0, 0 OR 24]"
    by code_simp
  then show ?thesis by simp
qed

section \<open>Schedule\<close>

lemma abc_sched_1: "sched_grow 16
    [24, 0, 0, 0, 0, 0, 0, 0, 0, 0, 0, 0, 0, 0, 0, 1633837952] =
    [3552024379, 1881225380, 3968280267, 2636160359, 845560923, 3854317833, 3073800610, 3357629466,
     3806512014, 316456923, 25426944, 1050508152, 1610613702, 2108187653, 983040, 1633837952, 24, 0, 0, 0,
     0, 0, 0, 0, 0, 0, 0, 0, 0, 0, 0, 1633837952]"
  by code_simp

lemma abc_sched_2: "sched_grow 16
    [3552024379, 1881225380, 3968280267, 2636160359, 845560923, 3854317833, 3073800610, 3357629466,
     3806512014, 316456923, 25426944, 1050508152, 1610613702, 2108187653, 983040, 1633837952, 24, 0, 0, 0,
     0, 0, 0, 0, 0, 0, 0, 0, 0, 0, 0, 1633837952] =
    [106709978, 2049510749, 2215296807, 206005234, 657669027, 1042573945, 4037431130, 2672279444,
     610538786, 2483675966, 1924104970, 176896406, 4043988066, 2952069057, 996719219, 2482346367,
     3552024379, 1881225380, 3968280267, 2636160359, 845560923, 3854317833, 3073800610, 3357629466,
     3806512014, 316456923, 25426944, 1050508152, 1610613702, 2108187653, 983040, 1633837952, 24, 0, 0, 0,
     0, 0, 0, 0, 0, 0, 0, 0, 0, 0, 0, 1633837952]"
  by code_simp

lemma abc_sched_3: "sched_grow 16
    [106709978, 2049510749, 2215296807, 206005234, 657669027, 1042573945, 4037431130, 2672279444,
     610538786, 2483675966, 1924104970, 176896406, 4043988066, 2952069057, 996719219, 2482346367,
     3552024379, 1881225380, 3968280267, 2636160359, 845560923, 3854317833, 3073800610, 3357629466,
     3806512014, 316456923, 25426944, 1050508152, 1610613702, 2108187653, 983040, 1633837952, 24, 0, 0, 0,
     0, 0, 0, 0, 0, 0, 0, 0, 0, 0, 0, 1633837952] =
    [313650667, 4004225740, 1720397816, 2755645205, 2025622859, 2682456414, 3957764664, 4015503821,
     2987358873, 344409900, 3256115900, 2226839261, 2845390439, 3118885940, 3430291419, 4215179723,
     106709978, 2049510749, 2215296807, 206005234, 657669027, 1042573945, 4037431130, 2672279444,
     610538786, 2483675966, 1924104970, 176896406, 4043988066, 2952069057, 996719219, 2482346367,
     3552024379, 1881225380, 3968280267, 2636160359, 845560923, 3854317833, 3073800610, 3357629466,
     3806512014, 316456923, 25426944, 1050508152, 1610613702, 2108187653, 983040, 1633837952, 24, 0, 0, 0,
     0, 0, 0, 0, 0, 0, 0, 0, 0, 0, 0, 1633837952]"
  by code_simp

lemma abc_sched: "sched_grow 48
    [24, 0, 0, 0, 0, 0, 0, 0, 0, 0, 0, 0, 0, 0, 0, 1633837952] =
    [313650667, 4004225740, 1720397816, 2755645205, 2025622859, 2682456414, 3957764664, 4015503821,
     2987358873, 344409900, 3256115900, 2226839261, 2845390439, 3118885940, 3430291419, 4215179723,
     106709978, 2049510749, 2215296807, 206005234, 657669027, 1042573945, 4037431130, 2672279444,
     610538786, 2483675966, 1924104970, 176896406, 4043988066, 2952069057, 996719219, 2482346367,
     3552024379, 1881225380, 3968280267, 2636160359, 845560923, 3854317833, 3073800610, 3357629466,
     3806512014, 316456923, 25426944, 1050508152, 1610613702, 2108187653, 983040, 1633837952, 24, 0, 0, 0,
     0, 0, 0, 0, 0, 0, 0, 0, 0, 0, 0, 1633837952]"
proof -
  have "sched_grow 48 ws = sched_grow 16 (sched_grow 16 (sched_grow 16 ws))" for ws
    using sched_grow_add [of 16 32 ws] sched_grow_add [of 16 16 "sched_grow 16 ws"] by simp
  then show ?thesis by (simp only: abc_sched_1 abc_sched_2 abc_sched_3)
qed

section \<open>Rounds\<close>

lemma abc_rounds_1: "foldl sha_round
    (1779033703, 3144134277, 1013904242, 2773480762, 1359893119, 2600822924, 528734635, 1541459225)
    (zip [1116352408, 1899447441, 3049323471, 3921009573, 961987163, 1508970993, 2453635748, 2870763221,
     3624381080, 310598401, 607225278, 1426881987, 1925078388, 2162078206, 2614888103, 3248222580]
      [1633837952, 0, 0, 0, 0, 0, 0, 0, 0, 0, 0, 0, 0, 0, 0, 24]) =
    (2969183118, 3227803614, 3643992854, 2274437520, 123276749, 194179596, 1952073950, 509051416)"
  by code_simp

lemma abc_rounds_2: "foldl sha_round
    (2969183118, 3227803614, 3643992854, 2274437520, 123276749, 194179596, 1952073950, 509051416)
    (zip [3835390401, 4022224774, 264347078, 604807628, 770255983, 1249150122, 1555081692, 1996064986,
     2554220882, 2821834349, 2952996808, 3210313671, 3336571891, 3584528711, 113926993, 338241895]
      [1633837952, 983040, 2108187653, 1610613702, 1050508152, 25426944, 316456923, 3806512014, 3357629466,
     3073800610, 3854317833, 845560923, 2636160359, 3968280267, 1881225380, 3552024379]) =
    (1941126133, 3935906338, 2684750640, 909411017, 3126399250, 17410874, 2917635127, 1628611511)"
  by code_simp

lemma abc_rounds_3: "foldl sha_round
    (1941126133, 3935906338, 2684750640, 909411017, 3126399250, 17410874, 2917635127, 1628611511)
    (zip [666307205, 773529912, 1294757372, 1396182291, 1695183700, 1986661051, 2177026350, 2456956037,
     2730485921, 2820302411, 3259730800, 3345764771, 3516065817, 3600352804, 4094571909, 275423344]
      [2482346367, 996719219, 2952069057, 4043988066, 176896406, 1924104970, 2483675966, 610538786,
     2672279444, 4037431130, 1042573945, 657669027, 206005234, 2215296807, 2049510749, 106709978]) =
    (1098003085, 2706117808, 1923828625, 643991573, 4274981830, 3581645993, 3077922209, 2819559920)"
  by code_simp

lemma abc_rounds_4: "foldl sha_round
    (1098003085, 2706117808, 1923828625, 643991573, 4274981830, 3581645993, 3077922209, 2819559920)
    (zip [430227734, 506948616, 659060556, 883997877, 958139571, 1322822218, 1537002063, 1747873779,
     1955562222, 2024104815, 2227730452, 2361852424, 2428436474, 2756734187, 3204031479, 3329325298]
      [4215179723, 3430291419, 3118885940, 2845390439, 2226839261, 3256115900, 344409900, 2987358873,
     4015503821, 3957764664, 2682456414, 2025622859, 2755645205, 1720397816, 4004225740, 313650667]) =
    (1349398616, 3550093669, 80891244, 3093179625, 1593118500, 4212265488, 2492278198, 2518632596)"
  by code_simp

lemma sha_consts_quarters: "sha_consts =
    [1116352408, 1899447441, 3049323471, 3921009573, 961987163, 1508970993, 2453635748, 2870763221,
     3624381080, 310598401, 607225278, 1426881987, 1925078388, 2162078206, 2614888103, 3248222580] @
    [3835390401, 4022224774, 264347078, 604807628, 770255983, 1249150122, 1555081692, 1996064986,
     2554220882, 2821834349, 2952996808, 3210313671, 3336571891, 3584528711, 113926993, 338241895] @
    [666307205, 773529912, 1294757372, 1396182291, 1695183700, 1986661051, 2177026350, 2456956037,
     2730485921, 2820302411, 3259730800, 3345764771, 3516065817, 3600352804, 4094571909, 275423344] @
    [430227734, 506948616, 659060556, 883997877, 958139571, 1322822218, 1537002063, 1747873779,
     1955562222, 2024104815, 2227730452, 2361852424, 2428436474, 2756734187, 3204031479, 3329325298]"
  by (simp only: sha_consts_def append.simps)

lemma abc_rounds: "foldl sha_round sha_init (zip sha_consts
    [1633837952, 0, 0, 0, 0, 0, 0, 0, 0, 0, 0, 0, 0, 0, 0, 24, 1633837952, 983040, 2108187653, 1610613702,
     1050508152, 25426944, 316456923, 3806512014, 3357629466, 3073800610, 3854317833, 845560923,
     2636160359, 3968280267, 1881225380, 3552024379, 2482346367, 996719219, 2952069057, 4043988066,
     176896406, 1924104970, 2483675966, 610538786, 2672279444, 4037431130, 1042573945, 657669027,
     206005234, 2215296807, 2049510749, 106709978, 4215179723, 3430291419, 3118885940, 2845390439,
     2226839261, 3256115900, 344409900, 2987358873, 4015503821, 3957764664, 2682456414, 2025622859,
     2755645205, 1720397816, 4004225740, 313650667]) =
    (1349398616, 3550093669, 80891244, 3093179625, 1593118500, 4212265488, 2492278198, 2518632596)"
proof -
  have "zip (a @ b @ c @ d) (a' @ b' @ c' @ d') = zip a a' @ zip b b' @ zip c c' @ zip d d'"
    if "length a = length a'" "length b = length b'" "length c = length c'" for a b c d :: "u32 list" and a' b' c' d' :: "u32 list"
    using that by simp
  from this [of "[1116352408, 1899447441, 3049323471, 3921009573, 961987163, 1508970993, 2453635748, 2870763221,
     3624381080, 310598401, 607225278, 1426881987, 1925078388, 2162078206, 2614888103, 3248222580]" "[1633837952, 0, 0, 0, 0, 0, 0, 0, 0, 0, 0, 0, 0, 0, 0, 24]"
    "[3835390401, 4022224774, 264347078, 604807628, 770255983, 1249150122, 1555081692, 1996064986,
     2554220882, 2821834349, 2952996808, 3210313671, 3336571891, 3584528711, 113926993, 338241895]" "[1633837952, 983040, 2108187653, 1610613702, 1050508152, 25426944, 316456923, 3806512014, 3357629466,
     3073800610, 3854317833, 845560923, 2636160359, 3968280267, 1881225380, 3552024379]"
    "[666307205, 773529912, 1294757372, 1396182291, 1695183700, 1986661051, 2177026350, 2456956037,
     2730485921, 2820302411, 3259730800, 3345764771, 3516065817, 3600352804, 4094571909, 275423344]" "[2482346367, 996719219, 2952069057, 4043988066, 176896406, 1924104970, 2483675966, 610538786,
     2672279444, 4037431130, 1042573945, 657669027, 206005234, 2215296807, 2049510749, 106709978]"
    "[430227734, 506948616, 659060556, 883997877, 958139571, 1322822218, 1537002063, 1747873779,
     1955562222, 2024104815, 2227730452, 2361852424, 2428436474, 2756734187, 3204031479, 3329325298]" "[4215179723, 3430291419, 3118885940, 2845390439, 2226839261, 3256115900, 344409900, 2987358873,
     4015503821, 3957764664, 2682456414, 2025622859, 2755645205, 1720397816, 4004225740, 313650667]"]
  show ?thesis
    by (simp only: sha_consts_quarters append.simps list.size foldl_append sha_init_def
        abc_rounds_1 abc_rounds_2 abc_rounds_3 abc_rounds_4)
qed

lemma sha256_abc: "sha256_hex ''abc'' = ''ba7816bf8f01cfea414140de5dae2223b00361a396177a9cb410ff61f20015ad''"
proof -
  have "sha_block sha_init (sha_pad ''abc'') = sha_add sha_init (1349398616, 3550093669, 80891244, 3093179625, 1593118500, 4212265488, 2492278198, 2518632596)"
    by (simp only: sha_block_def Let_def abc_words abc_sched rev.simps append.simps abc_rounds)
  moreover have "EncodeToString (sha_output (sha_add sha_init (1349398616, 3550093669, 80891244, 3093179625, 1593118500, 4212265488, 2492278198, 2518632596))) = ''ba7816bf8f01cfea414140de5dae2223b00361a396177a9cb410ff61f20015ad''"
    by code_simp
  ultimately show ?thesis by (simp add: sha256_hex_def Sum256_def abc_padded)
qed

end
