(* ===== verification/RequestScenario.thy ===== *)
theory RequestScenario
  imports Requests Lifecycle InterleaveProps Sha256Vector
begin

text \<open>Concrete runs of concurrent requests, step by step, on the server of \<open>ApiScenario\<close>.\<close>

section \<open>Steps of a request\<close>

text \<open>A server \<open>sv0\<close> with another store and log; on a free one no limiter refuses.\<close>

definition demo_sv :: "store server \<Rightarrow> store \<Rightarrow> string option \<Rightarrow> store server" where
  "demo_sv sv0 c l = sv0\<lparr>sv_store := c, sv_log := l\<rparr>"

definition free :: "store server \<Rightarrow> bool" where
  "free sv0 \<longleftrightarrow> (\<forall>h r b c l. allow h r b (demo_sv sv0 c l) = (True, demo_sv sv0 c l))"

lemma demo_sv_simps [simp]:
  "sv_store (demo_sv sv0 c l) = c" "sv_log (demo_sv sv0 c l) = l" "(demo_sv sv0 c l)\<lparr>sv_store := c'\<rparr> = demo_sv sv0 c' l"
  "(demo_sv sv0 c l)\<lparr>sv_log := l'\<rparr> = demo_sv sv0 c l'" "free sv0 \<Longrightarrow> allow h r b (demo_sv sv0 c l) = (True, demo_sv sv0 c l)"
  by (simp_all add: demo_sv_def free_def)

lemma demo_sv_inject [simp]: "demo_sv sv0 c l = demo_sv sv0 c' l' \<longleftrightarrow> c = c' \<and> l = l'"
  by (metis demo_sv_simps(1,2))

lemma demo_server_sv: "demo_server c = demo_sv (demo_server demo_c0) c (Some [])"
  by (simp add: demo_sv_def demo_server_def New_server_def)

lemma demo_server_free [simp]: "free (demo_server demo_c0)"
  by (simp add: free_def demo_sv_def demo_server_def New_server_def allow_def limit_by_def Let_def)

lemma on_store_seq: "on_store (seq_task t k) = seq_task (on_store t) (\<lambda>x. on_store (k x))"
  by (simp add: on_store_def coordinator.lift_seq)

lemma on_store_steps:
  "on_store (Return x) = Return x"
  "on_store (Call f) = Call (\<lambda>sv. case f (sv_store sv) of (t, c) \<Rightarrow> (on_store t, sv\<lparr>sv_store := c\<rparr>))"
  "on_store (step_task h) = step_task (\<lambda>sv. case h (sv_store sv) of (x, c) \<Rightarrow> (x, sv\<lparr>sv_store := c\<rparr>))"
  by (simp_all add: on_store_def coordinator.lift_Call step_task_def case_prod_beta del: lift_task.simps(2))

lemma seq_stored:
  "seq_task (on_store (on_db (after f k))) j = Call (\<lambda>sv. case f (state (sv_store sv)) of
      (Inl e, s') \<Rightarrow> (j (Inl e), sv\<lparr>sv_store := (sv_store sv)\<lparr>state := s'\<rparr>\<rparr>)
    | (Inr x, s') \<Rightarrow> (seq_task (on_store (on_db (k x))) j, sv\<lparr>sv_store := (sv_store sv)\<lparr>state := s'\<rparr>\<rparr>))"
  by (auto simp: on_db_after on_store_steps fun_eq_iff split: prod.split sum.split)

text \<open>What follows the handler: the recovered panic, or the log line.\<close>

definition done_task :: "target \<Rightarrow> http_env \<Rightarrow> request \<Rightarrow> bool \<times> ResponseWriter \<Rightarrow> (store server, (target \<times> wire) option) task" where
  "done_task t h r =
     (\<lambda>(panicked, w).
       if panicked then Return (Some (t, wire_of (writeError 500 ''STORAGE_ERROR'' ''internal error'' (Plain (wire_of w)))))
       else (case w of
               Plain w' \<Rightarrow> Return (Some (t, w'))
             | Status sw \<Rightarrow> seq_task (log_task h r sw) (\<lambda>_. Return (Some (t, sw_wire sw)))))"

lemma request_event:
  "route_request routes r = t \<Longrightarrow>
     event_task cfg (Request h r) = seq_task (route_task cfg t h r (fresh_writer r)) (done_task t h r)"
  by (auto simp: serve_task_def done_task_def fresh_writer_def seq_assoc fun_eq_iff intro!: arg_cong2 [where f = seq_task]
      split: prod.split ResponseWriter.split)

lemma log_demo: "log_task h r sw = step_task (\<lambda>sv. ((), case sv_log sv of None \<Rightarrow> sv | Some out \<Rightarrow>
    sv\<lparr>sv_log := Some (Log_Request (he_end h) (r_method r) (URL_Path r) (statusOr200 sw) (sw_bytes sw)
                          (he_end h - he_start h) (sw_errCode sw) out)\<rparr>))"
  by (rule log_task_def)

definition status_of :: "ResponseWriter \<Rightarrow> status_writer" where
  "status_of w = (case w of Status sw \<Rightarrow> sw | Plain w' \<Rightarrow> new_status_writer w')"

lemma done_written:
  "written r rep w \<Longrightarrow>
     done_task t h r (False, w) = seq_task (log_task h r (status_of w)) (\<lambda>_. Return (Some (t, render r rep)))"
  by (auto simp: written_def done_task_def status_of_def split: ResponseWriter.splits)

lemma done_replies:
  "c \<noteq> 0 \<Longrightarrow> done_task t h r (False, writeJSON c b (fresh_writer r))
     = seq_task (log_task h r (status_of (writeJSON c b (fresh_writer r)))) (\<lambda>_. Return (Some (t, render r (JsonReply c b))))"
  "done_task t h r (False, writeStoreError e (fresh_writer r))
     = seq_task (log_task h r (status_of (writeStoreError e (fresh_writer r)))) (\<lambda>_. Return (Some (t, render r (store_reply e))))"
  "d \<noteq> [] \<Longrightarrow> done_task t h r (False, Write d (WriteHeader 200 (SetHeader ''Content-Type'' ''application/octet-stream'' (fresh_writer r))))
     = seq_task (log_task h r (status_of (Write d (WriteHeader 200 (SetHeader ''Content-Type'' ''application/octet-stream'' (fresh_writer r))))))
         (\<lambda>_. Return (Some (t, render r (BytesReply d))))"
  by (rule done_written, erule written_json, rule done_written, rule written_store_error, rule done_written, erule written_empty(2))

lemmas request_steps = done_replies log_demo limited_task_def store_task_def try_task_def seq_assoc seq_step seq_stored seq_Call
  on_store_seq on_store_steps read_prog_def

section \<open>Two redeems of one link\<close>

definition race_env :: env where
  "race_env = (demo_env (3 * Second) (the demo_src))\<lparr>wall := Second\<rparr>"

lemma race_env [simp]: "clock race_env = 3 * Second" "entropy race_env = demo_src" "wall race_env = Second"
  by (simp_all add: race_env_def demo_env_def demo_src_def)

definition race_events :: "event list" where
  "race_events = [Request (demo_http race_env) redeem_request, Request (demo_http race_env) redeem_request]"

text \<open>Both read the send before either takes it.\<close>

definition race_run :: "(store server, (target \<times> wire) option) task list \<times> unit \<times> store server" where
  "race_run = fold (give (\<lambda>_ _. ()) (\<lambda>_ _ _. True)) [0, 0, 1, 1, 1, 1, 1, 1, 0, 0]
     (map (event_task default_config) race_events, (), demo_server demo_c3)"

lemma demo_described:
  "query ''meta'' (find_send demo_id) (demo_s fin con up gs) = (Inr (Some (demo_one fin con)), demo_s fin con up gs)"
  "partsFull demo_id (demo_s fin con up gs) = (Inr [demo_meta ''a''], demo_s fin con up gs)"
  by (simp_all add: partsFull_def demo_eval_store demo_meta_def)

lemma demo_redeemable:
  "s_status (demo_one (Some 2) con) = SendStatusFinalized" "s_one_time (demo_one fin con) = 1"
  "\<not> s_expires_at (demo_one fin con) \<le> Unix (3 * Second)"
  "\<lparr>g_token_hash = HashToken demo_token, g_send_id = demo_id, g_created_at = Unix (3 * Second),
     g_expires_at = Unix (603 * Second), g_client_ip_hash = None, g_user_agent_hash = None\<rparr> = demo_g"
  "consume (3 * Second) demo_id (demo_s (Some 2) (Some 3) up gs) = (Inr 0, demo_s (Some 2) (Some 3) up gs)"
  by (simp_all add: new_grant_def consume_def update_sends_def demo_eval_store)

lemma race_runs:
  "\<exists>w0 w1 sv'. race_run = ([Return (Some (Redeem demo_id, w0)), Return (Some (Redeem demo_id, w1))], (), sv')
     \<and> w_status w0 = 410 \<and> w_status w1 = 200"
proof -
  obtain sv0 where "free sv0" "demo_server demo_c3 = demo_sv sv0 demo_c3 (Some [])"
    using demo_server_free demo_server_sv by blast
  then show ?thesis
    by (simp add: race_run_def race_events_def request_event [OF demo_routes(2)] route_task_def redeem_task_def redeem_prog_def
        request_steps demo_store_simps demo_statements demo_redeemable grant_prog_def demo_token_new answer_def store_reply_def
        del: seq_task.simps(2) event_task.simps)
qed

section \<open>One send, from its creation to its download\<close>

definition demo_body :: string where
  \<open>demo_body = ''{"version":"send.v1","ttl_seconds":3600,"parts":[{"part_id":"a","encrypted_size":3,"sha256":"ba7816bf8f01cfea414140de5dae2223b00361a396177a9cb410ff61f20015ad"}]}''\<close>

abbreviation create_request :: request where
  "create_request \<equiv> demo_request ''POST'' ''/v1/sends'' [] demo_body"

abbreviation finalize_request :: request where
  "finalize_request \<equiv> demo_request ''POST'' ''/v1/sends/snd_0000000000o32chj6gqjcdpo74/finalize'' [] []"

definition demo_v1_input :: CreateSendInput where
  "demo_v1_input = demo_one_input\<lparr>in_Version := ''send.v1''\<rparr>"

lemma demo_sha_literal: "demo_sha = ''ba7816bf8f01cfea414140de5dae2223b00361a396177a9cb410ff61f20015ad''"
  by (simp only: demo_sha_def demo_bytes_def sha256_abc)

lemma demo_decoded: "decode_body (limited maxCreateBody (r_body create_request)) = Some
     \<lparr>cr_Version = ''send.v1'', cr_OneTime = None, cr_TTLSeconds = 3600,
      cr_Parts = [\<lparr>pd_PartID = ''a'', pd_EncryptedSize = 3, pd_SHA256 = demo_sha\<rparr>]\<rparr>"
proof -
  have "decode_body (limited maxCreateBody (r_body create_request)) = Some
     \<lparr>cr_Version = ''send.v1'', cr_OneTime = None, cr_TTLSeconds = 3600,
      cr_Parts = [\<lparr>pd_PartID = ''a'', pd_EncryptedSize = 3,
        pd_SHA256 = ''ba7816bf8f01cfea414140de5dae2223b00361a396177a9cb410ff61f20015ad''\<rparr>]\<rparr>"
    by code_simp
  then show ?thesis by (simp only: demo_sha_literal)
qed

lemma demo_checked:
  assumes "MaxPartCount cfg = 64" "MaxTTL cfg = 24 * Hour" "3 \<le> MaxPartBytes cfg" "3 \<le> MaxTotalBytes cfg"
  shows "check_create cfg create_request = Inr demo_v1_input"
proof -
  have "demo_sha \<noteq> []" by (simp add: demo_sha_literal)
  with assms show ?thesis
    by (simp add: check_create_def demo_decoded effective_ttl_def mul64_def add64_def wrap64_def demo_v1_input_def demo_one_input_def
        demo_meta_def Hour_def Minute_def Second_def)
qed

lemma default_checked: "check_create default_config create_request = Inr demo_v1_input"
  by (rule demo_checked) (simp_all add: default_config_def Hour_def Minute_def Second_def)

lemma more_routes: "route_request routes create_request = Create" "route_request routes finalize_request = Finalize demo_id"
  by code_simp+

abbreviation create_event :: event where
  "create_event \<equiv> Request (demo_http (demo_env 0 ''0123456789'')) create_request"

abbreviation upload_event :: event where
  "upload_event \<equiv> Request (demo_http (demo_env Second [])) upload_request"

abbreviation finalize_event :: event where
  "finalize_event \<equiv> Request (demo_http (demo_env (2 * Second) [])) finalize_request"

abbreviation redeem_event :: event where
  "redeem_event \<equiv> Request (demo_http (demo_env (3 * Second) (the demo_src))) redeem_request"

abbreviation download_event :: event where
  "download_event \<equiv> Request (demo_http (demo_env (4 * Second) [])) download_request"

definition demo_events :: "event list" where
  "demo_events = [create_event, upload_event, finalize_event, redeem_event, download_event]"

abbreviation remember_on :: "history \<Rightarrow> store server \<Rightarrow> history" where
  "remember_on \<equiv> \<lambda>g sv. remember g (sv_store sv)"

abbreviation fresh_ids_on :: "history \<Rightarrow> store server \<Rightarrow> store server \<Rightarrow> bool" where
  "fresh_ids_on \<equiv> \<lambda>g sv sv'. fresh_ids g (sv_store sv) (sv_store sv')"

lemma demo_uploaded: "Header_Get upload_request ''X-Send-Ciphertext-Sha256'' = demo_sha" "r_body upload_request = demo_upload"
  "validSHA256Hex demo_sha" "demo_bytes \<noteq> []"
  using sha256_hex_digits [of demo_bytes]
  by (simp_all add: demo_request_def Header_Get_def demo_upload_def validSHA256Hex_def demo_sha_def)
    (auto simp: hex_digits_def less_eq_char_def demo_bytes_def)

lemma demo_history: "remember (\<lambda>_. None) demo_c0 = (\<lambda>_. None)"
  by (simp add: remember_def send_ids_def demo_eval_store fun_eq_iff)

lemma demo_created: "CreateSend 0 (Some ''0123456789'') 0 demo_v1_input (fresh_store (600 * Second)) =
     (Inr \<lparr>rec_ID = demo_id, rec_OneTime = True, rec_ExpiresAt = Hour, rec_Parts = [demo_meta ''a'']\<rparr>, demo_s None None None [])"
  by (simp add: CreateSend_def demo_id_new insert_send_def insert_part_def demo_eval_store demo_v1_input_def demo_one_input_def demo_meta_def)

lemma no_team: "TeamToken default_config = []"
  by (simp add: default_config_def)

lemma demo_inputs:
  "clock (demo_env t x) = t" "tmp_suffix (demo_env t x) = ''7''" "wall (demo_env t x) = 0" "entropy (demo_env t x) = Some x"
  "SHA256 (demo_meta ''a'') = demo_sha" "EncryptedSize (demo_meta ''a'') = 3" "PartID (demo_meta ''a'') = ''a''"
  "\<lparr>PartID = ''a'', EncryptedSize = 3, SHA256 = demo_sha\<rparr> = demo_meta ''a''" "UnixMilli 0 = 0" "Some (the demo_src) = demo_src"
  by (simp_all add: demo_env_def demo_meta_def UnixMilli_def demo_src_def)

lemmas demo_request_steps = request_event request_steps route_task_def team_task_def fresh_check demo_store_simps
  demo_ids demo_inputs

abbreviation played :: "nat list \<Rightarrow> (store server, (target \<times> wire) option) task list \<times> history \<times> store server
    \<Rightarrow> (store server, (target \<times> wire) option) task list \<times> history \<times> store server" where
  "played \<equiv> fold (give remember_on fresh_ids_on)"

lemma create_played:
  assumes "free sv0" "TeamToken cfg = []" "check_create cfg create_request = Inr demo_v1_input"
  shows "\<exists>w g' l'. played [0, 0, 0] ([event_task cfg create_event, a, b, c, d], \<lambda>_. None, demo_sv sv0 demo_c0 (Some l))
     = ([Return (Some (Create, w)), a, b, c, d], g', demo_sv sv0 demo_c1 (Some l'))"
  using assms
  by (simp add: demo_request_steps more_routes create_task_def demo_history create_prog_def demo_created
      del: seq_task.simps(2) event_task.simps)

text \<open>The finalization starts before the upload is marked.\<close>

lemma upload_played:
  assumes "free sv0" "TeamToken cfg = []"
    and "route_request routes r = Upload demo_id ''a''" "Header_Get r ''X-Send-Ciphertext-Sha256'' = demo_sha" "r_body r = demo_upload"
    and "route_request routes q = Finalize demo_id"
  shows "\<exists>w w' g' l'. played [1, 1, 1, 1, 2, 2, 1, 1, 2, 2, 2, 2, 2]
       ([a, event_task cfg (Request (demo_http (demo_env Second [])) r),
         event_task cfg (Request (demo_http (demo_env (2 * Second) [])) q), b, c], g, demo_sv sv0 demo_c1 (Some l))
     = ([a, Return (Some (Upload demo_id ''a'', w)), Return (Some (Finalize demo_id, w')), b, c], g', demo_sv sv0 demo_c3 (Some l'))"
  using assms
  by (simp add: demo_request_steps upload_task_def finalize_task_def put_task_def finalize_prog_def
      mark_prog_def meta_prog_def demo_statements demo_uploaded(3) demo_described demo_blob_calls on_blob_def Let_def
      del: seq_task.simps(2) event_task.simps)

text \<open>The download starts before the redeem has answered.\<close>

lemma redeem_played:
  assumes "free sv0" and "route_request routes r = Redeem demo_id" "route_request routes q = Download demo_id ''a''" "bearerToken q = demo_token" "r_method q = ''GET''"
  shows "\<exists>w w' g' l'. played [3, 3, 3, 3, 4, 4, 3, 3, 4, 4, 4]
       ([a, b, c, event_task cfg (Request (demo_http (demo_env (3 * Second) (the demo_src))) r),
         event_task cfg (Request (demo_http (demo_env (4 * Second) [])) q)], g, demo_sv sv0 demo_c3 (Some l))
     = ([a, b, c, Return (Some (Redeem demo_id, w)), Return (Some (Download demo_id ''a'', w'))], g', demo_sv sv0 demo_c4 (Some l'))
     \<and> w_status w' = 200 \<and> w_body w' = demo_bytes"
  using assms
  by (simp add: demo_request_steps redeem_task_def download_task_def redeem_prog_def get_task_def demo_statements
      demo_redeemable demo_blob_calls on_blob_def Let_def grant_prog_def demo_token_new answer_def demo_uploaded(4)
      del: seq_task.simps(2) event_task.simps)

lemma demo_played:
  assumes free: "free sv0" "TeamToken cfg = []" and chk: "check_create cfg create_request = Inr demo_v1_input"
  obtains w0 w1 w2 w3 w g sv' where
    "turns remember_on fresh_ids_on (map (event_task cfg) demo_events, \<lambda>_. None, demo_sv sv0 demo_c0 (Some []))
       ([Return (Some (Create, w0)), Return (Some (Upload demo_id ''a'', w1)), Return (Some (Finalize demo_id, w2)),
         Return (Some (Redeem demo_id, w3)), Return (Some (Download demo_id ''a'', w))], g, sv')"
    "w_status w = 200" "w_body w = demo_bytes" "sv_store sv' = demo_c4"
proof -
  let ?e = "event_task cfg"
  obtain w0 g0 l0 where p0: "played [0, 0, 0] ([?e create_event, ?e upload_event, ?e finalize_event, ?e redeem_event, ?e download_event],
       \<lambda>_. None, demo_sv sv0 demo_c0 (Some []))
     = ([Return (Some (Create, w0)), ?e upload_event, ?e finalize_event, ?e redeem_event, ?e download_event], g0, demo_sv sv0 demo_c1 (Some l0))"
    using create_played [OF free chk] by blast
  obtain w1 w2 g1 l1 where p1: "played [1, 1, 1, 1, 2, 2, 1, 1, 2, 2, 2, 2, 2]
       ([Return (Some (Create, w0)), ?e upload_event, ?e finalize_event, ?e redeem_event, ?e download_event], g0, demo_sv sv0 demo_c1 (Some l0))
     = ([Return (Some (Create, w0)), Return (Some (Upload demo_id ''a'', w1)), Return (Some (Finalize demo_id, w2)),
         ?e redeem_event, ?e download_event], g1, demo_sv sv0 demo_c3 (Some l1))"
    using upload_played [OF free demo_routes(4) demo_uploaded(1,2) more_routes(2)] by blast
  have get: "r_method download_request = ''GET''" by (simp add: demo_request_def)
  obtain w3 w g2 l2 where p2: "played [3, 3, 3, 3, 4, 4, 3, 3, 4, 4, 4]
       ([Return (Some (Create, w0)), Return (Some (Upload demo_id ''a'', w1)), Return (Some (Finalize demo_id, w2)),
         ?e redeem_event, ?e download_event], g1, demo_sv sv0 demo_c3 (Some l1))
     = ([Return (Some (Create, w0)), Return (Some (Upload demo_id ''a'', w1)), Return (Some (Finalize demo_id, w2)),
         Return (Some (Redeem demo_id, w3)), Return (Some (Download demo_id ''a'', w))], g2, demo_sv sv0 demo_c4 (Some l2))"
    and w: "w_status w = 200" "w_body w = demo_bytes"
    using redeem_played [OF free(1) demo_routes(2,3) demo_bearer get] by blast
  note step = scheduled [of remember_on fresh_ids_on]
  from step [OF step [OF step [OF turns.none]]]
  have "turns remember_on fresh_ids_on x (played c (played b (played a x)))" for x a b c by blast
  from this [of "([?e create_event, ?e upload_event, ?e finalize_event, ?e redeem_event, ?e download_event],
       \<lambda>_. None, demo_sv sv0 demo_c0 (Some []))" "[3, 3, 3, 3, 4, 4, 3, 3, 4, 4, 4]" "[1, 1, 1, 1, 2, 2, 1, 1, 2, 2, 2, 2, 2]" "[0, 0, 0]"]
  show thesis
    unfolding p0 p1 p2 using that w demo_sv_simps(1) by (simp only: demo_events_def list.map)
qed

lemma demo_events_ordinary:
  assumes "check_create cfg create_request = Inr demo_v1_input"
  shows "\<forall>ev \<in> set demo_events. ordinary cfg ev"
proof -
  have "decode_body (limited maxCreateBody \<lparr>r_data = [], r_fails = False\<rparr>) = None"
    "decode_body (limited maxCreateBody \<lparr>r_data = ''abc'', r_fails = False\<rparr>) = None" by code_simp+
  then have none: "check_create cfg r = Inr inp \<Longrightarrow> r_body r \<noteq> \<lparr>r_data = [], r_fails = False\<rparr> \<and> r_body r \<noteq> demo_upload" for cfg r inp
    by (auto simp: check_create_def demo_upload_def demo_bytes_def)
  have body: "r_body (demo_request m p hs b) = \<lparr>r_data = b, r_fails = False\<rparr>" for m p hs b by (simp add: demo_request_def)
  have parts: "plain_parts demo_v1_input" using demo_plain by (simp add: plain_parts_def demo_v1_input_def demo_one_input_def demo_meta_def)
  have sfx: "temp_suffix ''7''" by (simp add: temp_suffix_def)
  have r: "r_body (demo_request m p hs demo_bytes) = demo_upload" for m p hs by (simp add: demo_request_def demo_upload_def)
  show ?thesis
    using parts by (auto simp: demo_events_def ordinary_def demo_inputs sfx assms dest!: none simp: body r demo_upload_def)
qed

lemmas demo_default_played =
  demo_played [of "demo_server demo_c0" default_config, folded demo_server_sv, OF demo_server_free no_team default_checked]

end
