(* ===== verification/RequestProps.thy ===== *)
theory RequestProps
  imports RequestScenario
begin

text \<open>
  For any number of requests and sweeps that run at the same time, step by step, a one-time
  send is redeemed once.
\<close>

section \<open>Answers\<close>

lemma written_wire: "written r rep w \<Longrightarrow> \<exists>sw. w = Status sw \<and> sw_wire sw = render r rep"
  by (auto simp: written_def split: ResponseWriter.splits)

lemma error_render [simp]: "w_status (render r (ErrorReply c code msg)) = c"
  by (simp add: answer_def)

text \<open>The answer that goes out when a handler ends; a panic is recovered.\<close>

definition final_wire :: "bool \<times> ResponseWriter \<Rightarrow> wire" where
  "final_wire x =
     (if fst x then wire_of (writeError 500 ''STORAGE_ERROR'' ''internal error'' (Plain (wire_of (snd x)))) else wire_of (snd x))"

lemma final_written: "written r rep w \<Longrightarrow> final_wire (False, w) = render r rep"
  by (auto simp: final_wire_def dest: written_wire)

lemma final_panic: "final_wire (True, fresh_writer r) = render r internal_error"
  by (simp add: final_wire_def recovered)

lemma final_replies:
  "final_wire (False, writeStoreError e (fresh_writer r)) = render r (store_reply e)"
  "final_wire (False, download_error e (fresh_writer r)) = render r (download_reply e)"
  "final_wire (False, rate_limited (fresh_writer r)) = render r (ErrorReply 429 ''RATE_LIMITED'' ''rate limit exceeded'')"
  "c \<noteq> 0 \<Longrightarrow> final_wire (False, writeError c code msg (fresh_writer r)) = render r (ErrorReply c code msg)"
  by (simp_all add: final_written rate_limited_def del: render.simps)

lemma error_statuses: "w_status (render r (store_reply e)) \<noteq> 200" "w_status (render r (download_reply e)) \<noteq> 200"
  "w_status (render r internal_error) \<noteq> 200"
  by (cases e; simp add: download_reply_def store_reply_def internal_error_def answer_def)+

section \<open>One redeem\<close>

abbreviation table_of :: "store server \<Rightarrow> tables" where
  "table_of sv \<equiv> db (state (sv_store sv))"

interpretation redeem: prize "\<lambda>sv. fit sid (table_of sv)" "\<lambda>sv. spent sid (table_of sv)"
    "\<lambda>sv sv'. stays sid (table_of sv) (table_of sv')" for sid
  by unfold_locales (auto simp: stays_def)

abbreviation calm_call :: "string \<Rightarrow> 'r call \<Rightarrow> bool" where
  "calm_call sid \<equiv> keeps (\<lambda>c c'. stays sid (db (state c)) (db (state c')))"

abbreviation calm_task :: "string \<Rightarrow> (store server, 'r) task \<Rightarrow> bool" where
  "calm_task sid \<equiv> keeps (\<lambda>sv sv'. stays sid (table_of sv) (table_of sv'))"

lemma calm_on_db: "calm sid p \<Longrightarrow> calm_call sid (on_db p)"
  unfolding on_db_lift by (rule database.keeps_lift)

lemma calm_progs [simp]:
  "NewSendID ms src \<noteq> Some sid \<Longrightarrow> calm_call sid (on_db (create_prog ms src now inp))"
  "calm_call sid (on_db (mark_prog now i p))" "calm_call sid (on_db (finalize_prog now i))"
  "calm_call sid (on_db (redeem_prog src now i))" "calm_call sid (on_db (delete_prog now))" "calm_call sid (on_db (meta_prog i))"
  "calm_call sid (on_db (read_prog (SendStatusOf i)))" "calm_call sid (on_db (read_prog (DeclaredPart i p)))"
  "calm_call sid (on_db (read_prog (ValidateGrant now i h)))" "calm_call sid (on_db (read_prog LiveStorageKeys))"
  using calm_op [of sid "OpCreate ms src now inp"] calm_op [of sid "OpMark now i p"] calm_op [of sid "OpFinalize now i"]
    calm_op [of sid "OpRedeem src now i"] calm_op [of sid "OpDelete now"] calm_op [of sid "OpMeta i"] calm_op [of sid "OpStatus i"]
    calm_op [of sid "OpDeclared i p"] calm_op [of sid "OpValidate now i h"] calm_op [of sid OpLive]
  by (auto simp: creates_def intro: calm_on_db)

lemma calm_blob: "calm_call sid (step_task (\<lambda>c. on_blob (f c) c))"
  by (rule keeps_step) simp

lemma calm_deletes: "calm_call sid (delete_task ks)"
  by (induction ks) (auto intro!: keeps_seq calm_blob)

lemma calm_calls:
  "calm_call sid (put_task e i p r d)" "calm_call sid (get_task e i p token)" "calm_call sid (expire_task now)"
  "calm_call sid sweep_task"
  unfolding put_task_def get_task_def expire_task_def sweep_task_def
  by (auto intro!: keeps_try keeps_seq calm_blob calm_deletes split: prod.split)

lemma stays_refl [simp]: "stays sid d d"
  by (simp add: stays_def)

interpretation others: calls_keep "\<lambda>c c'. stays sid (db (state c)) (db (state c'))"
    "\<lambda>e. NewSendID (UnixMilli (wall e)) (entropy e) \<noteq> Some sid" for sid
  by unfold_locales (auto intro: calm_progs calm_calls)

lemma calm_event: "other_id sid ev \<Longrightarrow> calm_task sid (event_task cfg ev)"
  by (rule others.kept_event) (simp add: other_id_def)

abbreviation dear :: "string \<Rightarrow> ('r \<Rightarrow> bool) \<Rightarrow> (store server, 'r) task \<Rightarrow> bool" where
  "dear sid \<equiv> earns (\<lambda>sv. fit sid (table_of sv)) (\<lambda>sv sv'. takes sid (table_of sv) (table_of sv'))"

text \<open>The redeem handler answers 200 only after the send is taken.\<close>

lemma dear_redeem: "dear sid (\<lambda>x. w_status (final_wire x) = 200) (redeem_task sid h r (fresh_writer r))"
proof -
  let ?W = "\<lambda>x. w_status (final_wire x) = 200" and ?e = "he_env h"
  have paid: "dear sid (\<lambda>x. \<not> isl x) (on_store (on_db (redeem_prog src now sid)))" for src now
    unfolding on_store_def on_db_lift
    using coordinator.earns_lift [OF database.earns_lift [OF needs_redeem [of sid src now]]] .
  have "dear sid ?W (store_task (on_db (redeem_prog (entropy ?e) (clock ?e) sid)) writeStoreError (fresh_writer r) k)" for k
    unfolding store_task_def
  proof (rule earns_seq, rule earns_mono [OF paid])
    fix m :: "RedeemGrant result"
    assume "\<not> dear sid ?W (case m of Inl (Panicked _) \<Rightarrow> Return (True, fresh_writer r)
        | Inl e \<Rightarrow> Return (False, writeStoreError e (fresh_writer r)) | Inr x \<Rightarrow> k x)"
    then show "\<not> isl m" by (cases m) (auto simp: final_replies final_panic error_statuses split: store_error.splits)
  qed
  then show ?thesis
    unfolding redeem_task_def limited_task_def by (intro earns_before) (simp add: final_replies answer_def)
qed

definition redeemed_to :: "string \<Rightarrow> (target \<times> wire) option \<Rightarrow> bool" where
  "redeemed_to sid x \<longleftrightarrow> (case x of None \<Rightarrow> False | Some (t, w) \<Rightarrow> t = Redeem sid \<and> w_status w = 200)"

lemma dear_serve:
  assumes "route_request routes r = Redeem sid"
  shows "dear sid (\<lambda>w. w_status w = 200) (serve_task cfg h r)"
  unfolding serve_task_def assms
proof (rule earns_seq, rule earns_mono)
  show "dear sid (\<lambda>x. w_status (final_wire x) = 200)
      (route_task cfg (Redeem sid) h r (Status (new_status_writer (new_wire r))))"
    using dear_redeem [of sid h r] by (simp add: route_task_def fresh_writer_def)
next
  fix x :: "bool \<times> ResponseWriter"
  assume "\<not> dear sid (\<lambda>w. w_status w = 200) (case x of (panicked, w) \<Rightarrow>
       if panicked then Return (wire_of (writeError 500 ''STORAGE_ERROR'' ''internal error'' (Plain (wire_of w))))
       else (case w of Plain w' \<Rightarrow> Return w' | Status sw \<Rightarrow> seq_task (log_task h r sw) (\<lambda>_. Return (sw_wire sw))))"
  then show "w_status (final_wire x) = 200"
    by (cases x; cases "snd x") (auto simp: final_wire_def split: if_splits intro: ccontr earns_before)
qed

lemma dear_event: "dear sid (redeemed_to sid) (event_task cfg ev)"
proof (cases ev)
  case (Request h r)
  show ?thesis
  proof (cases "route_request routes r = Redeem sid")
    case True
    from earns_mono [OF dear_serve [OF this]] show ?thesis
      unfolding Request event_task.simps by (intro earns_seq) (simp add: redeemed_to_def True)
  next
    case False
    then show ?thesis unfolding Request event_task.simps by (intro earns_before) (simp add: redeemed_to_def)
  qed
next
  case (Swept now)
  show ?thesis unfolding Swept event_task.simps by (rule earns_before) (simp add: redeemed_to_def)
qed

text \<open>The requests and sweeps of a server, interleaved step by step.\<close>

abbreviation raced :: "(store server, 'r) task list \<times> unit \<times> store server \<Rightarrow> (store server, 'r) task list \<times> unit \<times> store server \<Rightarrow> bool" where
  "raced \<equiv> turns (\<lambda>_ _. ()) (\<lambda>_ _ _. True)"

text \<open>
  C1. Any number of requests and sweeps run at the same time on a server in any reachable
  state, their steps interleaved in any order, any of them failing or dying on the way: a
  one-time send is answered 200 to a redeem at most once, as long as no request draws its id
  again.
\<close>

theorem concurrent_requests_redeem_once:
  assumes run: "fresh_coordinator s b cap (sv_store sv0)" "server_reach sv0 sv"
    and one: "find_send sid (table_of sv) = Some q" "s_one_time q = 1"
    and ids: "\<forall>ev \<in> set evs. other_id sid ev"
    and race: "raced (map (event_task (sv_cfg sv)) evs, (), sv) (ts, (), sv')"
  shows "length (filter (\<lambda>t. \<exists>w. t = Return (Some (Redeem sid, w)) \<and> w_status w = 200) ts) \<le> 1"
proof -
  note inv = server_coupled(2) [OF run]
  have fit: "fit sid (table_of sv)"
    using one inv unique_row [OF inv]
    by (auto simp: find_send_iff one_time_only_def tables_inv_def keys_unique_def ids_distinct_def)
  have "\<forall>t \<in> set (map (event_task (sv_cfg sv)) evs). calm_task sid t \<and> dear sid (redeemed_to sid) t"
    using ids calm_event dear_event by auto
  from redeem.at_most_one_wins [OF race fit this]
  have "length (filter (\<lambda>t. \<exists>x. t = Return x \<and> redeemed_to sid x) ts) \<le> 1" .
  moreover have "(\<lambda>t. \<exists>x. t = Return x \<and> redeemed_to sid x) = (\<lambda>t :: (store server, (target \<times> wire) option) task.
      \<exists>w. t = Return (Some (Redeem sid, w)) \<and> w_status w = 200)"
    by (auto simp: redeemed_to_def fun_eq_iff split: option.splits)
  ultimately show ?thesis by simp
qed

theorem concurrent_requests_redeem_once_witness:
  "\<exists>w0 w1 sv'. raced (map (event_task default_config) race_events, (), demo_server demo_c3)
       ([Return (Some (Redeem demo_id, w0)), Return (Some (Redeem demo_id, w1))], (), sv')
     \<and> w_status w0 = 410 \<and> w_status w1 = 200
     \<and> length (filter (\<lambda>t. \<exists>w. t = Return (Some (Redeem demo_id, w)) \<and> w_status w = 200)
         [Return (Some (Redeem demo_id, w0)) :: (store server, (target \<times> wire) option) task, Return (Some (Redeem demo_id, w1))]) \<le> 1"
proof -
  obtain w0 w1 sv' where r: "race_run = ([Return (Some (Redeem demo_id, w0)), Return (Some (Redeem demo_id, w1))], (), sv')"
    and st: "w_status w0 = 410" "w_status w1 = 200" using race_runs by blast
  have run: "raced (map (event_task default_config) race_events, (), demo_server demo_c3)
      ([Return (Some (Redeem demo_id, w0)), Return (Some (Redeem demo_id, w1))], (), sv')"
    unfolding r [symmetric] race_run_def by (rule scheduled [OF turns.none])
  have row: "find_send demo_id (table_of (demo_server demo_c3)) = Some (demo_one (Some 2) None)" "s_one_time (demo_one (Some 2) None) = 1"
    by (simp_all add: demo_eval_store find_send_def)
  have "NewSendID (UnixMilli Second) demo_src \<noteq> Some demo_id" unfolding demo_id_def demo_src_def by code_simp
  then have ids: "\<forall>ev \<in> set race_events. other_id demo_id ev" by (simp add: race_events_def other_id_def)
  from concurrent_requests_redeem_once [OF demo_server_fresh demo_server_reach [OF demo_reach_c3] row ids] run
  show ?thesis using st by (intro exI [of _ w0] exI [of _ w1] exI [of _ sv']) auto
qed

end
