(* ===== verification/RequestsSafe.thy ===== *)
theory RequestsSafe
  imports RequestProps
begin

text \<open>
  For any number of requests and sweeps that run at the same time, step by step, a download
  hands out what was declared; and of requests alone, a finalized send is complete.
\<close>

section \<open>Genuine downloads\<close>

text \<open>The invariant and the rely of the stores, on the server that holds them.\<close>

interpretation requests: interference "\<lambda>(g, sv). good sweeping (g, sv_store sv)"
    "\<lambda>(g, sv) (g', sv'). rely sweeping (g, sv_store sv) (g', sv_store sv')"
    "\<lambda>g sv. remember g (sv_store sv)" "\<lambda>g sv sv'. fresh_ids g (sv_store sv) (sv_store sv')" for sweeping
  by unfold_locales (auto simp del: rely.simps intro: calls.rely_refl calls.rely_trans)

abbreviation safe_on :: "bool \<Rightarrow> ('r \<Rightarrow> history \<times> store \<Rightarrow> bool) \<Rightarrow> (store server, 'r) task \<Rightarrow> history \<times> store server \<Rightarrow> bool" where
  "safe_on sweeping Q \<equiv> requests.safely sweeping (\<lambda>r (g, sv). Q r (g, sv_store sv))"

lemma safe_on_store: "calls.safely sweeping Q t (g, sv_store sv) \<Longrightarrow> safe_on sweeping Q (on_store t) (g, sv)"
  unfolding on_store_def by (rule coordinator.safe_lift)

abbreviation server_rely :: "bool \<Rightarrow> history \<times> store server \<Rightarrow> history \<times> store server \<Rightarrow> bool" where
  "server_rely sweeping \<equiv> \<lambda>(g, sv) (g', sv'). rely sweeping (g, sv_store sv) (g', sv_store sv')"

text \<open>A step that leaves the stores alone: a draw on a limiter, a log line.\<close>

lemma safe_local:
  assumes "\<And>sv. sv_store (snd (f sv)) = sv_store sv" "\<And>x w'. server_rely sweeping w w' \<Longrightarrow> Q x w'"
  shows "requests.safely sweeping Q (step_task f) w"
proof (rule requests.safe_step)
  fix g sv x sv'
  assume a: "server_rely sweeping w (g, sv)" "case (g, sv) of (g, sv) \<Rightarrow> good sweeping (g, sv_store sv)" "f sv = (x, sv')"
  then have st: "sv_store sv' = sv_store sv" using assms(1) [of sv] by simp
  have "kept_promises g (db (state (sv_store sv)))" using a(2) by simp
  then have g: "remember g (sv_store sv') = g" using remember_same [of g "sv_store sv'"] by (simp add: st)
  have step: "server_rely sweeping (g, sv) (g, sv')" using calls.rely_refl [of sweeping "(g, sv_store sv)"] by (simp add: st del: rely.simps)
  have "Q x w'" if "server_rely sweeping (g, sv') w'" for w'
    using assms(2) requests.rely_trans [OF requests.rely_trans [OF a(1) step] that] by blast
  with a(2) step
  show "(case (remember g (sv_store sv'), sv') of (g, sv) \<Rightarrow> good sweeping (g, sv_store sv))
     \<and> server_rely sweeping (g, sv) (remember g (sv_store sv'), sv')
     \<and> (\<forall>w'. server_rely sweeping (remember g (sv_store sv'), sv') w' \<longrightarrow> Q x w')"
    unfolding g by (simp add: st del: rely.simps good.simps)
qed

text \<open>What a request may answer: nothing in particular, but a download with a body only what was declared.\<close>

fun answers :: "target \<Rightarrow> wire \<Rightarrow> history \<times> store \<Rightarrow> bool" where
  "answers (Download sid pid) w (g, c) \<longleftrightarrow>
     (w_status w = 200 \<and> w_body w \<noteq> [] \<and> visible_part pid \<longrightarrow>
        (\<exists>m. promised g sid pid = Some m \<and> int (length (w_body w)) = EncryptedSize m \<and> sha256_hex (w_body w) = SHA256 m))"
| "answers _ w _ \<longleftrightarrow> True"

lemma answers_other: "(\<And>sid pid. t \<noteq> Download sid pid) \<Longrightarrow> answers t w x"
  by (cases t) (cases x, auto)+

lemma answers_error: "w_status w \<noteq> 200 \<Longrightarrow> answers t w x"
  by (cases t; cases x) auto

lemma answers_stable: "answers t w x \<Longrightarrow> rely sw x x' \<Longrightarrow> answers t w x'"
  by (cases t; cases x; cases x') (auto, (metis grows_promised)+)

abbreviation any :: "'r \<Rightarrow> 'w \<Rightarrow> bool" where
  "any \<equiv> \<lambda>_ _. True"

text \<open>Tasks that never break the rely, whatever they return.\<close>

definition harmless_call :: "bool \<Rightarrow> 'r call \<Rightarrow> bool" where
  "harmless_call sweeping t \<longleftrightarrow> (\<forall>w. calls.safely sweeping any t w)"

definition harmless :: "bool \<Rightarrow> (store server, 'r) task \<Rightarrow> bool" where
  "harmless sweeping t \<longleftrightarrow> (\<forall>w. requests.safely sweeping any t w)"

lemma harmless_calls:
  "\<forall>m \<in> set (in_Parts inp). plain (PartID m) \<Longrightarrow> harmless_call sweeping (on_db (create_prog ms src now inp))"
  "harmless_call sweeping (on_db (finalize_prog now i))" "harmless_call sweeping (on_db (redeem_prog src now i))" "harmless_call sweeping (on_db (meta_prog i))"
  "temp_suffix (tmp_suffix e) \<Longrightarrow> harmless_call sweeping (put_task e i p rd d)" "harmless_call sweeping (expire_task now)" "harmless_call True sweep_task"
proof -
  have any: "harmless_call sweeping t" if "\<And>w. calls.safely sweeping (upon any) t w" for sweeping and t :: "'x result call"
    unfolding harmless_call_def by (intro allI, rule calls.safe_mono [OF that]) (rule TrueI)
  show "\<forall>m \<in> set (in_Parts inp). plain (PartID m) \<Longrightarrow> harmless_call sweeping (on_db (create_prog ms src now inp))"
    by (rule any) (rule safe_create)
  show "harmless_call sweeping (on_db (finalize_prog now i))" by (rule any) (rule safe_finalize)
  show "harmless_call sweeping (on_db (redeem_prog src now i))" by (rule any) (rule safe_redeem)
  show "harmless_call sweeping (on_db (meta_prog i))" by (rule any) (rule safe_meta)
  show "temp_suffix (tmp_suffix e) \<Longrightarrow> harmless_call sweeping (put_task e i p rd d)" by (rule any) (rule safe_put)
  show "harmless_call sweeping (expire_task now)" by (rule any) (rule safe_expire)
  show "harmless_call True sweep_task" by (rule any) (rule safe_sweep)
qed

lemma harmless_return [simp]: "harmless sweeping (Return x)"
  by (simp add: harmless_def)

lemma harmless_local: "(\<And>sv. sv_store (snd (f sv)) = sv_store sv) \<Longrightarrow> harmless sweeping (step_task f)"
  unfolding harmless_def by (intro allI safe_local) simp_all

lemma harmless_seq: "harmless sweeping t \<Longrightarrow> (\<And>x. harmless sweeping (k x)) \<Longrightarrow> harmless sweeping (seq_task t k)"
  unfolding harmless_def by (intro allI requests.safe_seq) (erule allE, erule requests.safe_mono, blast)

lemma harmless_call_try: "harmless_call sweeping t \<Longrightarrow> (\<And>x. harmless_call sweeping (k x)) \<Longrightarrow> harmless_call sweeping (try_task t k)"
  unfolding harmless_call_def
  by (intro allI calls.safe_try) (erule allE, erule calls.safe_mono, simp split: sum.split del: split_paired_All)

lemma harmless_on_store:
  assumes "harmless_call sweeping t"
  shows "harmless sweeping (on_store t)"
  unfolding harmless_def
proof
  fix w :: "history \<times> store server"
  obtain g sv where w: "w = (g, sv)" by force
  have "safe_on sweeping any (on_store t) w"
    unfolding w by (rule safe_on_store) (use assms in \<open>unfold harmless_call_def, blast\<close>)
  then show "requests.safely sweeping any (on_store t) w" by (rule requests.safe_mono) simp
qed

lemma harmless_store: "harmless_call sweeping t \<Longrightarrow> (\<And>x. harmless sweeping (k x)) \<Longrightarrow> harmless sweeping (store_task t onerr w k)"
  unfolding store_task_def by (rule harmless_seq [OF harmless_on_store]) (auto split: sum.split store_error.split)

lemma harmless_limited: "harmless sweeping t \<Longrightarrow> harmless sweeping (limited_task b h r w t)"
  unfolding limited_task_def by (intro harmless_seq harmless_local) auto

lemma harmless_log: "harmless sweeping (log_task h r sw)"
  unfolding log_task_def by (rule harmless_local) (simp split: option.split)

lemma harmless_route:
  assumes "ordinary cfg (Request h r)" "case t of Download _ _ \<Rightarrow> False | _ \<Rightarrow> True"
  shows "harmless sweeping (route_task cfg t h r w)"
proof -
  have sfx: "temp_suffix (tmp_suffix (he_env h))"
    and parts: "check_create cfg r = Inr inp \<Longrightarrow> \<forall>m \<in> set (in_Parts inp). plain (PartID m)" for inp
    using assms(1) by (simp_all add: ordinary_def plain_parts_def)
  have "harmless sweeping (create_task cfg h r w)"
    unfolding create_task_def
    by (rule harmless_limited, cases "check_create cfg r") (auto intro!: harmless_store harmless_calls dest: parts)
  moreover have "harmless sweeping (upload_task i p h r w)" for i p
    unfolding upload_task_def Let_def
    by (rule harmless_limited) (auto intro!: harmless_store harmless_calls sfx)
  moreover have "harmless sweeping (finalize_task cfg i h r w)" for i
    unfolding finalize_task_def
    by (rule harmless_limited, rule harmless_store [OF harmless_calls(2)], rule harmless_store [OF harmless_calls(4)]) simp
  moreover have "harmless sweeping (redeem_task i h r w)" for i
    unfolding redeem_task_def by (rule harmless_limited, rule harmless_store [OF harmless_calls(3)]) simp
  moreover have "harmless sweeping (meta_task i h r w)" for i
    unfolding meta_task_def by (rule harmless_limited, rule harmless_store [OF harmless_calls(4)]) simp
  ultimately show ?thesis
    using assms(2) by (cases t) (auto simp: route_task_def team_task_def)
qed

text \<open>The download: what it opens is what was promised.\<close>

abbreviation yields :: "bool \<Rightarrow> target \<Rightarrow> (store server, bool \<times> ResponseWriter) task \<Rightarrow> history \<times> store server \<Rightarrow> bool" where
  "yields sweeping t \<equiv> safe_on sweeping (\<lambda>x. answers t (final_wire x))"

lemma yields_return: "(\<And>x. answers t (final_wire y) x) \<Longrightarrow> yields sweeping t (Return y) w"
  by auto

lemma safe_download: "yields sweeping (Download sid pid) (download_task sid pid h r (fresh_writer r)) w"
proof -
  let ?t = "Download sid pid" and ?w = "fresh_writer r"
  let ?k = "\<lambda>f. let w' = WriteHeader 200 (SetHeader ''Content-Type'' ''application/octet-stream'' ?w)
       in Return (False, case f of File d \<Rightarrow> (if d = [] then w' else Write d w') | Directory \<Rightarrow> w') :: handling"
  have empty: "final_wire (False, WriteHeader 200 (SetHeader ''Content-Type'' ''application/octet-stream'' ?w)) = render r (BytesReply [])"
    by (rule final_written) (rule written_empty)
  have full: "final_wire (False, Write d (WriteHeader 200 (SetHeader ''Content-Type'' ''application/octet-stream'' ?w))) = render r (BytesReply d)"
    if "d \<noteq> []" for d by (rule final_written) (rule written_empty(2) [OF that])
  have bytes: "answers ?t (render r (BytesReply d)) x" if "served_ok (Some (sid, pid, d)) x" for d x
    using that by (cases x) (auto simp: answer_def genuine_def)
  have none: "answers ?t (render r (BytesReply [])) x" for x by (cases x) (simp add: answer_def)
  have call: "yields sweeping ?t (store_task (get_task (he_env h) sid pid (bearerToken r)) download_error ?w ?k) (g, sv)" for g sv
    unfolding store_task_def
  proof (rule requests.safe_seq, rule requests.safe_mono [OF safe_on_store [OF safe_get]])
    fix m :: "handle result" and w :: "history \<times> store server"
    assume "case w of (g, sv) \<Rightarrow> served_ok (handed_out sid pid m) (g, sv_store sv)"
    then obtain g sv where w: "w = (g, sv)" and ok: "served_ok (handed_out sid pid m) (g, sv_store sv)" by (cases w) auto
    show "yields sweeping ?t (case m of Inl (Panicked _) \<Rightarrow> Return (True, ?w) | Inl e \<Rightarrow> Return (False, download_error e ?w) | Inr x \<Rightarrow> ?k x) w"
    proof (cases m)
      case (Inl e)
      then show ?thesis
        by (cases e) (auto intro!: answers_error simp: final_panic final_replies error_statuses simp del: render.simps answers.simps)
    next
      case (Inr f)
      show ?thesis
      proof (cases f)
        case (File d)
        have "answers ?t (render r (BytesReply d)) x" if "rely sweeping (g, sv_store sv) x" for x
          using bytes served_ok_stable [OF ok that] by (simp add: Inr File handed_out_def)
        then show ?thesis
          by (cases "d = []") (auto simp: Inr File w empty full none Let_def simp del: render.simps rely.simps answers.simps)
      qed (auto simp: Inr empty none Let_def simp del: render.simps answers.simps)
    qed
  qed
  show ?thesis
    unfolding download_task_def limited_task_def
  proof (rule requests.safe_seq, rule safe_local)
    fix ok :: bool and w' :: "history \<times> store server"
    obtain g sv where "w' = (g, sv)" by force
    with call show "yields sweeping ?t (if ok then store_task (get_task (he_env h) sid pid (bearerToken r)) download_error ?w ?k
        else Return (False, rate_limited ?w)) w'"
      by (auto simp: final_replies answer_def simp del: safe.simps(2) answers.simps intro!: yields_return answers_error)
  qed simp
qed

lemma serve_yields:
  assumes "\<And>w. yields sweeping t (route_task cfg (route_request routes r) h r (fresh_writer r)) w"
  shows "safe_on sweeping (answers t) (serve_task cfg h r) w"
  unfolding serve_task_def
proof (rule requests.safe_seq, rule requests.safe_mono)
  show "yields sweeping t (route_task cfg (route_request routes r) h r (Status (new_status_writer (new_wire r)))) w"
    using assms by (simp only: fresh_writer_def)
next
  fix x :: "bool \<times> ResponseWriter" and w :: "history \<times> store server"
  assume ok: "case w of (g, sv) \<Rightarrow> answers t (final_wire x) (g, sv_store sv)"
  have stable: "case w' of (g, sv) \<Rightarrow> answers t (final_wire x) (g, sv_store sv)" if "server_rely sweeping w w'" for w'
    using ok that answers_stable [of t "final_wire x"] by (auto simp del: answers.simps rely.simps)
  have out: "safe_on sweeping (answers t) (Return (final_wire x)) w'" if "server_rely sweeping w w'" for w'
    using stable requests.rely_trans [OF that] by (auto simp del: answers.simps rely.simps)
  have log: "safe_on sweeping (answers t) (seq_task (log_task h r sw) (\<lambda>_. Return (final_wire x))) w" for sw
    unfolding log_task_def by (rule requests.safe_seq, rule safe_local) (simp split: option.split, rule out)
  obtain p v where x: "x = (p, v)" by force
  show "safe_on sweeping (answers t) (case x of (panicked, w) \<Rightarrow>
       if panicked then Return (wire_of (writeError 500 ''STORAGE_ERROR'' ''internal error'' (Plain (wire_of w))))
       else (case w of Plain w' \<Rightarrow> Return w' | Status sw \<Rightarrow> seq_task (log_task h r sw) (\<lambda>_. Return (sw_wire sw)))) w"
  proof (cases p)
    case True
    with out [OF requests.rely_refl] show ?thesis
      by (simp add: x final_wire_def del: safe.simps answers.simps rely.simps)
  next
    case False
    with log out [OF requests.rely_refl] show ?thesis
      by (cases v) (simp_all add: x final_wire_def del: safe.simps answers.simps rely.simps)
  qed
qed

definition answered_ok :: "(target \<times> wire) option \<Rightarrow> history \<times> store \<Rightarrow> bool" where
  "answered_ok x w \<longleftrightarrow> (case x of None \<Rightarrow> True | Some (t, v) \<Rightarrow> answers t v w)"

fun is_sweep :: "event \<Rightarrow> bool" where
  "is_sweep (Request h r) = False"
| "is_sweep (Swept now) = True"

lemma safe_event:
  assumes "ordinary cfg ev" "sweeping \<or> \<not> is_sweep ev"
  shows "safe_on sweeping answered_ok (event_task cfg ev) w"
proof (cases ev)
  case (Request h r)
  let ?t = "route_request routes r"
  have "yields sweeping ?t (route_task cfg ?t h r (fresh_writer r)) w" for w
  proof (cases "case ?t of Download _ _ \<Rightarrow> False | _ \<Rightarrow> True")
    case True
    with harmless_route [of cfg h r ?t sweeping "fresh_writer r"] assms Request
    have "harmless sweeping (route_task cfg ?t h r (fresh_writer r))" by simp
    then have "requests.safely sweeping any (route_task cfg ?t h r (fresh_writer r)) w" unfolding harmless_def by blast
    then show ?thesis
      by (rule requests.safe_mono) (use True in \<open>auto intro!: answers_other split: target.splits\<close>)
  next
    case False
    then obtain sid pid where "?t = Download sid pid" by (cases ?t) auto
    then show ?thesis using safe_download by (simp only: route_task_def target.case)
  qed
  from serve_yields [OF this] have serve: "safe_on sweeping (answers ?t) (serve_task cfg h r) w" for w .
  show ?thesis
    unfolding Request event_task.simps
  proof (rule requests.safe_seq, rule requests.safe_mono [OF serve])
    fix v :: wire and w :: "history \<times> store server"
    assume "case w of (g, sv) \<Rightarrow> answers ?t v (g, sv_store sv)"
    then show "safe_on sweeping answered_ok (Return (Some (?t, v))) w"
      using answers_stable [of ?t v] by (auto simp: answered_ok_def simp del: answers.simps rely.simps)
  qed
next
  case (Swept now)
  have "harmless True (pass_task now)"
    unfolding pass_task_def by (intro harmless_on_store harmless_call_try harmless_calls)
  then have "harmless sweeping (pass_task now)" using assms(2) Swept by simp
  then have "requests.safely sweeping any (pass_task now) w" unfolding harmless_def by blast
  from requests.safe_mono [OF this] show ?thesis
    unfolding Swept event_task.simps by (intro requests.safe_seq) (auto simp: answered_ok_def)
qed

lemma safe_events:
  assumes "\<forall>ev \<in> set evs. ordinary cfg ev \<and> (sweeping \<or> \<not> is_sweep ev)"
  shows "\<forall>t \<in> set (map (event_task cfg) evs). safe_on sweeping answered_ok t w"
proof
  fix t assume "t \<in> set (map (event_task cfg) evs)"
  then obtain ev where "t = event_task cfg ev" "ev \<in> set evs" by auto
  with assms safe_event [of cfg ev sweeping w] show "safe_on sweeping answered_ok t w" by blast
qed



section \<open>Finalized sends\<close>

text \<open>
  C6. Any number of requests run at the same time on a server that started empty, their
  steps interleaved in any order, any of them failing or dying on the way: at every moment
  each part of a finalized send is marked uploaded, and its blob is in place with the
  declared size and SHA-256.
\<close>

theorem concurrent_http_finalized_sends_are_complete:
  assumes start: "fresh_coordinator s b n (sv_store sv)" "\<forall>q. view b q = None"
    and evs: "\<forall>ev \<in> set evs. ordinary (sv_cfg sv) ev \<and> \<not> is_sweep ev"
    and run: "turns remember_on fresh_ids_on (map (event_task (sv_cfg sv)) evs, \<lambda>_. None, sv) (ts, g, sv')"
    and send: "r \<in> set (sends (table_of sv'))" "s_status r = SendStatusFinalized"
    and part: "p \<in> set (send_parts (table_of sv'))" "p_send_id p = s_id r" "loc (p_storage_key p) = Some q"
  shows "p_uploaded_at p \<noteq> None
     \<and> (\<exists>d. view (blob (sv_store sv')) q = Some d \<and> int (length d) = p_encrypted_size p \<and> sha256_hex d = p_sha256 p)"
proof -
  have good: "case (\<lambda>_. None, sv) of (g, sv) \<Rightarrow> good False (g, sv_store sv)"
    using fresh_good [OF start, of False] by simp
  have "\<forall>t \<in> set (map (event_task (sv_cfg sv)) evs). safe_on False answered_ok t (\<lambda>_. None, sv)"
    by (rule safe_events) (use evs in simp)
  with requests.turns_safe [OF run, of False] good have "good False (g, sv_store sv')" by auto
  from good_complete [OF this send part] show ?thesis .
qed

theorem concurrent_http_finalized_sends_are_complete_witness:
  "\<exists>ts g sv' d. turns remember_on fresh_ids_on (map (event_task default_config) demo_events, \<lambda>_. None, demo_server demo_c0) (ts, g, sv')
     \<and> sv_store sv' = demo_c4 \<and> view (blob (sv_store sv')) [demo_id, ''a''] = Some d \<and> int (length d) = 3 \<and> sha256_hex d = demo_sha"
proof -
  obtain ts g sv' where
    run: "turns remember_on fresh_ids_on (map (event_task default_config) demo_events, \<lambda>_. None, demo_server demo_c0) (ts, g, sv')"
    and store: "sv_store sv' = demo_c4" by (rule demo_default_played)
  have evs: "\<forall>ev \<in> set demo_events. ordinary (sv_cfg (demo_server demo_c0)) ev \<and> \<not> is_sweep ev"
    using demo_events_ordinary [OF default_checked] by (simp add: demo_events_def)
  have rows: "demo_one (Some 2) (Some 3) \<in> set (sends (table_of sv'))" "s_status (demo_one (Some 2) (Some 3)) = SendStatusFinalized"
    "demo_part ''a'' (Some 1) \<in> set (send_parts (table_of sv'))" "p_send_id (demo_part ''a'' (Some 1)) = s_id (demo_one (Some 2) (Some 3))"
    by (simp_all add: store demo_eval_store)
  have key: "loc (p_storage_key (demo_part ''a'' (Some 1))) = Some [demo_id, ''a'']"
    using loc_plain [OF demo_sid_ok, of "''a''"] demo_plain by (simp add: demo_part_def Contains_iff)
  from run have run': "turns remember_on fresh_ids_on (map (event_task (sv_cfg (demo_server demo_c0))) demo_events, \<lambda>_. None, demo_server demo_c0)
      (ts, g, sv')" by simp
  from concurrent_http_finalized_sends_are_complete [OF demo_server_fresh demo_no_blobs evs run' rows key]
  obtain d where "view (blob (sv_store sv')) [demo_id, ''a''] = Some d" "int (length d) = p_encrypted_size (demo_part ''a'' (Some 1))"
    "sha256_hex d = p_sha256 (demo_part ''a'' (Some 1))" by blast
  then show ?thesis using run store by (intro exI [of _ ts] exI [of _ g] exI [of _ sv'] exI [of _ d]) (simp add: demo_part_def)
qed

end
