(* ===== verification/Process.thy ===== *)
theory Process
  imports Lifecycle
begin

text \<open>
  \<open>server/main.go\<close>. \<open>main\<close> runs the server under a context that \<open>signal.NotifyContext\<close> cancels
  at the first interrupt or termination signal; the signals stay caught until \<open>main\<close> returns,
  so later ones do nothing. What happens to the process while it listens is the list of its
  occurrences, in their order; \<open>sd\<close> is what \<open>Shutdown\<close> answers, which waits for the requests
  in flight. The version of the build is only logged.
\<close>

section \<open>Signals\<close>

datatype signal = Interrupt | Terminate

datatype occurrence = Served event | Signalled signal | Listener_ended "string option"

fun served :: "occurrence list \<Rightarrow> event list" where
  "served [] = []"
| "served (Served ev # os) = ev # served os"
| "served (Signalled _ # os) = served os"
| "served (Listener_ended _ # os) = served os"

text \<open>
  The \<open>select\<close> of \<open>Run\<close>: what is served until it returns, and why it returns; \<open>None\<close> while it
  waits. A listener that ends after the signal is \<open>Shutdown\<close> at work.
\<close>

fun awaited :: "string option \<Rightarrow> occurrence list \<Rightarrow> (event list \<times> stop) option" where
  "awaited sd [] = None"
| "awaited sd (Served ev # os) = map_option (map_prod (Cons ev) id) (awaited sd os)"
| "awaited sd (Signalled _ # os) = Some (served os, Cancelled_ctx sd)"
| "awaited sd (Listener_ended e # os) = Some ([], Serve_returned e)"

text \<open>\<open>None\<close> as long as the process runs. A failed start-up ends it before it waits.\<close>

definition main :: "environ \<Rightarrow> surroundings \<Rightarrow> string + string \<Rightarrow> string option \<Rightarrow> occurrence list \<Rightarrow> (nat \<times> process_end) option" where
  "main E su bound sd os =
     (case (if isl (start E su) \<or> isl bound then Some ([], Cancelled_ctx None) else awaited sd os) of
        None \<Rightarrow> None
      | Some (evs, st) \<Rightarrow> (let x = Run E su bound evs st in Some (main_status x, x)))"

lemma awaited_cases:
  assumes "awaited sd os = Some (evs, st)"
  obtains (signal) pre sg post where "os = map Served pre @ Signalled sg # post" "evs = pre @ served post" "st = Cancelled_ctx sd"
  | (listener) e post where "os = map Served evs @ Listener_ended e # post" "st = Serve_returned e"
  using assms
proof (induction os arbitrary: evs thesis)
  case (Cons x os)
  show ?case
  proof (cases x)
    case (Served ev)
    with Cons.prems(3) obtain evs' where e: "awaited sd os = Some (evs', st)" "evs = ev # evs'" by auto
    show ?thesis
    proof (rule Cons.IH [OF _ _ e(1)])
      fix pre sg post assume "os = map Served pre @ Signalled sg # post" "evs' = pre @ served post" "st = Cancelled_ctx sd"
      with Served e(2) show thesis by (intro Cons.prems(1) [of "ev # pre" sg post]) simp_all
    next
      fix d post assume "os = map Served evs' @ Listener_ended d # post" "st = Serve_returned d"
      with Served e(2) show thesis by (intro Cons.prems(2) [of d post]) simp_all
    qed
  next
    case (Signalled sg)
    with Cons.prems show ?thesis by (auto intro: Cons.prems(1) [of "[]" sg os])
  next
    case (Listener_ended e)
    with Cons.prems show ?thesis by (auto intro: Cons.prems(2) [of e os])
  qed
qed simp

lemma awaited_served: "awaited sd os = Some (evs, st) \<Longrightarrow> set evs \<subseteq> set (served os)"
  by (induction os arbitrary: evs rule: served.induct) auto

lemma awaited_running: "awaited sd os = None \<longleftrightarrow> (\<exists>evs. os = map Served evs)"
proof (induction os rule: served.induct)
  case (2 ev os)
  have "(\<exists>evs. Served ev # os = map Served evs) \<longleftrightarrow> (\<exists>evs. os = map Served evs)"
    by (metis list.inject list.simps(9) map_eq_Cons_D)
  with 2 show ?case by simp
qed auto

lemma main_awaits:
  "start E su = Inr (sv, w, held) \<Longrightarrow> main E su (Inr addr) sd os =
     map_option (\<lambda>(evs, st). let x = Run E su (Inr addr) evs st in (main_status x, x)) (awaited sd os)"
  by (simp add: main_def Let_def split: option.split)

lemma main_runs: "start E su = Inr (sv, w, held) \<Longrightarrow> main E su (Inr addr) sd os = None \<longleftrightarrow> (\<exists>evs. os = map Served evs)"
  by (simp add: main_awaits awaited_running)

section \<open>The end of a process\<close>



end
