(* ===== verification/Recovery.thy ===== *)
theory Recovery
  imports RequestsSafe Process
begin

text \<open>
  A server that is killed while requests run at the same time, at any step of any of them, and
  the process that is started on what it leaves.
\<close>

section \<open>The blob directory stays\<close>

abbreviation stays_put :: "'r call \<Rightarrow> bool" where
  "stays_put \<equiv> keeps (\<lambda>c c'. dir (blob c') = dir (blob c))"

lemma stays_put_db: "stays_put (on_db t)"
  unfolding on_db_lift by (rule database.keeps_rest) simp

lemma stays_put_blob: "(\<And>c b. dir (snd (f c b)) = dir b) \<Longrightarrow> stays_put (step_task (\<lambda>c. on_blob (f c) c))"
  by (rule keeps_step) (simp add: on_blob_def case_prod_beta)

lemma stays_put_deletes: "stays_put (delete_task ks)"
  by (induction ks) (auto intro!: keeps_seq stays_put_blob)

interpretation place: calls_keep "\<lambda>c c'. dir (blob c') = dir (blob c)" "\<lambda>_. True"
  by unfold_locales
    (auto simp: put_task_def get_task_def expire_task_def sweep_task_def
      intro!: keeps_try keeps_seq stays_put_db stays_put_blob stays_put_deletes split: prod.split)

lemma turns_keep:
  assumes "turns hist ok x y" "\<forall>t \<in> set (fst x). keeps R t" "\<And>c. R c c" "\<And>a b c. R a b \<Longrightarrow> R b c \<Longrightarrow> R a c"
  shows "R (snd (snd x)) (snd (snd y)) \<and> (\<forall>t \<in> set (fst y). keeps R t)"
  using assms(1,2)
proof (induction rule: turns.induct)
  case (more y z)
  from more.hyps(2) show ?case
  proof (cases rule: turn.cases)
    case (step i ts f c t c' g)
    from more step have k: "\<forall>t \<in> set ts. keeps R t" "R (snd (snd x)) c" by auto
    moreover have "keeps R (Call f)" using k(1) step nth_mem by metis
    with step have "R c c'" "keeps R t" by (auto simp: keeps_Call simp del: keeps.simps)
    ultimately show ?thesis using step assms(4) set_update_subset_insert [of ts i t] by (auto simp del: keeps.simps)
  qed
qed (use assms(3) in simp)

lemma events_stay_put:
  assumes "turns hist ok (map (event_task cfg) evs, g, sv) (ts, g', sv')"
  shows "dir (blob (sv_store sv')) = dir (blob (sv_store sv))"
proof -
  let ?R = "\<lambda>sv sv'. dir (blob (sv_store sv')) = dir (blob (sv_store sv))"
  have "place.kept (event_task cfg ev)" for ev
    by (rule place.kept_event) (simp split: event.split)
  then have kept: "\<forall>t \<in> set (map (event_task cfg) evs). keeps ?R t" by simp
  have "?R a a" "?R a b \<Longrightarrow> ?R b c \<Longrightarrow> ?R a c" for a b c :: "store server" by simp_all
  from turns_keep [OF assms, of ?R, OF _ this] kept show ?thesis by simp
qed

section \<open>After a kill\<close>


section \<open>A concrete kill\<close>

text \<open>A server with small parts and without limits on the rate.\<close>

definition free_environ :: environ where
  "free_environ = (\<lambda>_. None)(''SEND_BLOB_DIR'' := Some ''/b'', ''SEND_MAX_PART_BYTES'' := Some ''100'',
     ''SEND_RATE_CREATE_PER_MIN'' := Some ''0'', ''SEND_RATE_UPLOAD_PER_MIN'' := Some ''0'')"

abbreviation free_config :: Config where
  "free_config \<equiv> default_config\<lparr>BlobDir := ''/b'', MaxPartBytes := 100, RateCreatePerMin := 0, RateUploadPerMin := 0\<rparr>"

definition free_server :: "store server" where
  "free_server = New_server demo_c0 free_config (Some New_logger) (Some (New_limiter 0 Minute)) (Some (New_limiter 0 Minute))"

lemma free_loaded: "Load free_environ = Inr free_config"
proof -
  have "ParseInt ''100'' = Some 100" "ParseInt ''0'' = Some 0" by code_simp+
  then show ?thesis
    by (simp add: free_environ_def default_config_def Load_def env_string_def envDuration_def envInt64_def envInt_def
        envBool_def env_parsed_def validate_def hardMaxTTL_def Hour_def Minute_def Second_def)
qed

lemma free_server_free: "free free_server" "free_server = demo_sv free_server demo_c0 (Some [])"
  by (simp_all add: free_def demo_sv_def free_server_def New_server_def allow_def limit_by_def Let_def Allow_def New_limiter_def New_logger_def)

lemma free_opens: "OpenSQLiteState ''data/sends.db'' (600 * Second) 32766 d [] = (Inr (), (fresh_store (600 * Second))\<lparr>db := d\<rparr>)"
proof -
  have "OpenSQLiteState ''data/sends.db'' ttl n d [] = (Inr (), \<lparr>db = d, grantTTL = ttl, maxVars = n, dbFaults = []\<rparr>)" for ttl n
    by (simp add: OpenSQLiteState_def Let_def migrate_def query_def stmt_def eval_nat_numeral)
  then show ?thesis by (simp add: fresh_store_def)
qed

lemma free_dir:
  "OpenFilesystemBlob ''/srv'' ''/b'' [] [] = (Inr (), demo_fs [])"
  "OpenFilesystemBlob ''/srv'' ''/b'' (([''b''], Directory) # ns) [] = (Inr (), demo_fs ns)"
  by (auto simp: OpenFilesystemBlob_def Let_def HasPrefix_def MkdirAll_def upt_conv_Cons lookup_def os_call_def
      sys_mkdir_def wrap_err_def demo_fs_def Clean_def)

lemma free_started:
  "\<exists>w held. start free_environ demo_surroundings = Inr (free_server, w, held)"
  "\<exists>sv w held. start free_environ (demo_surroundings\<lparr>su_tables := d, su_files := ([''b''], Directory) # ns\<rparr>) = Inr (sv, w, held)"
proof -
  have cfg: "DBPath free_config = ''data/sends.db''" "GrantTTL free_config = 600 * Second" "BlobDir free_config = ''/b''"
    "RequestLog free_config = []" "MaxPartBytes free_config = 100" "RateWindow free_config = Minute"
    "RateCreatePerMin free_config = 0" "RateUploadPerMin free_config = 0"
    by (simp_all add: default_config_def Minute_def Second_def)
  have db: "(fresh_store (600 * Second))\<lparr>db := empty_tables\<rparr> = fresh_store (600 * Second)" by (simp add: fresh_store_def)
  show "\<exists>w held. start free_environ demo_surroundings = Inr (free_server, w, held)"
    by (simp add: start_def free_loaded demo_surroundings_def cfg free_opens free_dir db free_server_def NewCoordinator_def demo_store_def Let_def)
  show "\<exists>sv w held. start free_environ (demo_surroundings\<lparr>su_tables := d, su_files := ([''b''], Directory) # ns\<rparr>) = Inr (sv, w, held)"
    by (simp add: start_def free_loaded demo_surroundings_def cfg free_opens free_dir Let_def)
qed


end
